(* ===== verification/Prelude.thy ===== *)
theory Prelude
  imports Main
begin

text \<open>
  Shared vocabulary of the development: the names of the model's basic types, the
  theorem collections the component theories fill, and generic lemmas on lists and
  options that several components use. JavaScript strings are UTF-16 code-unit
  sequences; the model restricts code units to the Latin-1 range and represents a
  string as an Isabelle \<open>string\<close> (\<open>char list\<close>, one \<open>char\<close> per code unit).
\<close>

type_synonym js_string = string

named_theorems js_eval
  "rules that evaluate the modelled JavaScript built-ins on literal strings"

named_theorems store_simps
  "characteristic equations of the storage-facing operations"

declare char_of_def [js_eval] bit_simps [js_eval]

lemma dropWhile_hd_not:
  "dropWhile P xs \<noteq> [] \<Longrightarrow> \<not> P (hd (dropWhile P xs))"
  by (induction xs) auto

lemma dropWhile_idem_if_hd:
  "xs = [] \<or> \<not> P (hd xs) \<Longrightarrow> dropWhile P xs = xs"
  by (cases xs) auto

lemma dropWhile_all_iff:
  "dropWhile P xs = [] \<longleftrightarrow> (\<forall>x \<in> set xs. P x)"
  by (induction xs) auto

lemma foldl_append_snoc_filter:
  "foldl (\<lambda>acc x. case f x of None \<Rightarrow> acc | Some y \<Rightarrow> acc @ [y]) acc0 xs
     = acc0 @ List.map_filter f xs"
  by (induction xs arbitrary: acc0) (auto simp: List.map_filter_simps split: option.splits)

lemma set_map_filter_iff:
  "y \<in> set (List.map_filter f xs) \<longleftrightarrow> (\<exists>x \<in> set xs. f x = Some y)"
  by (induction xs) (auto simp: List.map_filter_simps split: option.splits)

lemma map_filter_append [simp]:
  "List.map_filter f (xs @ ys) = List.map_filter f xs @ List.map_filter f ys"
  by (induction xs) (auto simp: List.map_filter_simps split: option.splits)

lemma take_drop_Suc_nth:
  "i < length xs \<Longrightarrow> take i xs @ drop (Suc i) xs = take i xs @ tl (drop i xs)"
  by (simp add: drop_Suc drop_tl)

end
