(* ===== verification/JsString.thy ===== *)
theory JsString
  imports Prelude "HOL-Library.Sublist"
begin

text \<open>
  The ECMAScript \<open>String.prototype\<close> built-ins that the parsers, the merger and the
  views of \<open>src/options.js\<close> and \<open>src/popup.js\<close> call: \<open>trim\<close>, \<open>toLowerCase\<close>,
  \<open>startsWith\<close>, \<open>endsWith\<close>, \<open>indexOf\<close>, \<open>includes\<close>, \<open>replace\<close> (with a string
  pattern, first occurrence only), \<open>split\<close> (with a string separator) and
  \<open>Array.prototype.join\<close>. Each follows the algorithm of the ECMAScript specification
  restricted to Latin-1 code units; the receiver is the first argument, as in
  \<open>s.startsWith(p)\<close>. The lemmas give the facts the components rely on: \<open>trim\<close> is
  idempotent and its result has no white space at either end, \<open>toLowerCase\<close> is
  idempotent, \<open>indexOf\<close> finds the first occurrence, and \<open>split\<close> followed by
  \<open>join\<close> gives the input back.
\<close>

section \<open>White space and trim\<close>

text \<open>
  White space for \<open>trim\<close> is WhiteSpace and LineTerminator of ECMAScript; in the
  Latin-1 range these are TAB, LF, VT, FF, CR, SPACE and NO-BREAK SPACE (U+00A0).
\<close>

definition is_js_space :: "char \<Rightarrow> bool" where
  "is_js_space c = (let n = (of_char c :: nat) in (9 \<le> n \<and> n \<le> 13) \<or> n = 32 \<or> n = 160)"

definition js_trim :: "js_string \<Rightarrow> js_string" where
  "js_trim s = rev (dropWhile is_js_space (rev (dropWhile is_js_space s)))"

definition trimmed :: "js_string \<Rightarrow> bool" where
  "trimmed s \<longleftrightarrow> s = [] \<or> (\<not> is_js_space (hd s) \<and> \<not> is_js_space (last s))"

section \<open>Lower case\<close>

text \<open>
  \<open>toLowerCase\<close> maps each code unit by the Unicode simple lower-case mapping; in the
  Latin-1 range that moves A--Z and U+00C0--U+00DE except U+00D7 up by 32.
\<close>

definition js_lower_char :: "char \<Rightarrow> char" where
  "js_lower_char c =
     (let n = (of_char c :: nat)
      in if (65 \<le> n \<and> n \<le> 90) \<or> (192 \<le> n \<and> n \<le> 222 \<and> n \<noteq> 215)
         then char_of (n + 32) else c)"

definition js_toLowerCase :: "js_string \<Rightarrow> js_string" where
  "js_toLowerCase s = map js_lower_char s"

section \<open>Searching\<close>

definition js_startsWith :: "js_string \<Rightarrow> js_string \<Rightarrow> bool" where
  "js_startsWith s p \<longleftrightarrow> take (length p) s = p"

definition js_endsWith :: "js_string \<Rightarrow> js_string \<Rightarrow> bool" where
  "js_endsWith s p \<longleftrightarrow> length p \<le> length s \<and> drop (length s - length p) s = p"

text \<open>\<open>s.indexOf(p)\<close>: the least position where \<open>p\<close> occurs, \<open>None\<close> for \<open>-1\<close>.\<close>

fun js_indexOf :: "js_string \<Rightarrow> js_string \<Rightarrow> nat option" where
  "js_indexOf [] p = (if p = [] then Some 0 else None)"
| "js_indexOf (c # cs) p =
     (if js_startsWith (c # cs) p then Some 0 else map_option Suc (js_indexOf cs p))"

definition js_includes :: "js_string \<Rightarrow> js_string \<Rightarrow> bool" where
  "js_includes s p \<longleftrightarrow> js_indexOf s p \<noteq> None"

text \<open>\<open>s.replace(p, r)\<close> with a string pattern replaces the first occurrence only.\<close>

definition js_replace :: "js_string \<Rightarrow> js_string \<Rightarrow> js_string \<Rightarrow> js_string" where
  "js_replace s p r =
     (case js_indexOf s p of
        None \<Rightarrow> s
      | Some i \<Rightarrow> take i s @ r @ drop (i + length p) s)"

section \<open>split and join\<close>

text \<open>
  \<open>s.split(sep)\<close> for a non-empty separator scans the positions of \<open>s\<close> from
  left to right (the specification's SplitMatcher loop): where \<open>sep\<close> matches, the
  piece collected so far (kept reversed in \<open>acc\<close>) is emitted and the scan resumes
  after the match; elsewhere one code unit moves into the piece.
\<close>

fun js_split_scan :: "js_string \<Rightarrow> js_string \<Rightarrow> js_string \<Rightarrow> js_string list" where
  "js_split_scan sep acc [] = [rev acc]"
| "js_split_scan sep acc (c # cs) =
     (if sep \<noteq> [] \<and> js_startsWith (c # cs) sep
      then rev acc # js_split_scan sep [] (drop (length sep) (c # cs))
      else js_split_scan sep (c # acc) cs)"

text \<open>\<open>s.split('')\<close> splits into single code units.\<close>

definition js_split :: "js_string \<Rightarrow> js_string \<Rightarrow> js_string list" where
  "js_split s sep = (if sep = [] then map (\<lambda>c. [c]) s else js_split_scan sep [] s)"

fun js_join :: "js_string list \<Rightarrow> js_string \<Rightarrow> js_string" where
  "js_join [] sep = []"
| "js_join [x] sep = x"
| "js_join (x # y # xs) sep = x @ sep @ js_join (y # xs) sep"

section \<open>Properties\<close>

lemma js_indexOf_Some:
  "js_indexOf s p = Some i \<Longrightarrow> i + length p \<le> length s \<and> take (length p) (drop i s) = p"
proof (induction s arbitrary: i)
  case Nil
  then show ?case by (simp split: if_splits)
next
  case (Cons c cs)
  then show ?case
    by (cases "js_startsWith (c # cs) p")
       (auto simp: js_startsWith_def dest: arg_cong[where f = length])
qed

lemma js_indexOf_first:
  "js_indexOf s p = Some i \<Longrightarrow> j < i \<Longrightarrow> \<not> js_startsWith (drop j s) p"
proof (induction s arbitrary: i j)
  case Nil
  then show ?case by (simp split: if_splits)
next
  case (Cons c cs)
  then show ?case
    by (cases j) (auto split: if_splits)
qed

lemma js_indexOf_complete:
  "j \<le> length s \<Longrightarrow> js_startsWith (drop j s) p \<Longrightarrow> js_indexOf s p \<noteq> None"
proof (induction s arbitrary: j)
  case Nil
  then show ?case by (simp add: js_startsWith_def)
next
  case (Cons c cs)
  then show ?case
    by (cases j) auto
qed

lemma js_replace_prefix:
  "js_startsWith s p \<Longrightarrow> js_replace s p r = r @ drop (length p) s"
  by (cases s) (auto simp: js_replace_def js_startsWith_def)

lemma rev_dropWhile_rev_prefix:
  "rev (dropWhile P (rev xs)) @ rev (takeWhile P (rev xs)) = xs"
  by (metis rev_append rev_rev_ident takeWhile_dropWhile_id)

lemma trimmed_js_trim: "trimmed (js_trim s)"
proof -
  let ?t = "dropWhile is_js_space s"
  let ?u = "dropWhile is_js_space (rev ?t)"
  show ?thesis
  proof (cases "?u = []")
    case True
    then show ?thesis by (simp add: trimmed_def js_trim_def)
  next
    case False
    have last_ok: "\<not> is_js_space (last (rev ?u))"
      using dropWhile_hd_not [OF False] False by (simp add: last_rev)
    have split: "rev ?u @ rev (takeWhile is_js_space (rev ?t)) = ?t"
      by (rule rev_dropWhile_rev_prefix)
    have "?t \<noteq> []" using False by (auto dest: set_dropWhileD)
    then have "\<not> is_js_space (hd ?t)" by (rule dropWhile_hd_not)
    moreover have "hd (rev ?u) = hd ?t"
      using split False by (metis Nil_is_rev_conv hd_append2)
    ultimately show ?thesis
      using last_ok by (simp add: trimmed_def js_trim_def)
  qed
qed

lemma js_trim_trimmed: "trimmed s \<Longrightarrow> js_trim s = s"
proof -
  assume "trimmed s"
  then have hd_ok: "s = [] \<or> \<not> is_js_space (hd s)"
    and last_ok: "s = [] \<or> \<not> is_js_space (last s)"
    by (auto simp: trimmed_def)
  have "dropWhile is_js_space s = s"
    using hd_ok by (rule dropWhile_idem_if_hd)
  moreover have "dropWhile is_js_space (rev s) = rev s"
    using last_ok by (intro dropWhile_idem_if_hd) (auto simp: hd_rev)
  ultimately show ?thesis by (simp add: js_trim_def)
qed

lemma js_trim_idem [simp]: "js_trim (js_trim s) = js_trim s"
  by (rule js_trim_trimmed [OF trimmed_js_trim])

lemma js_trim_Nil_iff: "js_trim s = [] \<longleftrightarrow> (\<forall>c \<in> set s. is_js_space c)"
proof -
  have "js_trim s = [] \<longleftrightarrow> (\<forall>c \<in> set (dropWhile is_js_space s). is_js_space c)"
    by (auto simp: js_trim_def dropWhile_all_iff dest: set_dropWhileD)
  also have "\<dots> \<longleftrightarrow> dropWhile is_js_space s = []"
    using dropWhile_hd_not [of is_js_space s]
    by (cases "dropWhile is_js_space s") (auto simp: dropWhile_all_iff dest: set_dropWhileD)
  also have "\<dots> \<longleftrightarrow> (\<forall>c \<in> set s. is_js_space c)"
    by (rule dropWhile_all_iff)
  finally show ?thesis .
qed

lemma js_lower_char_idem [simp]: "js_lower_char (js_lower_char c) = js_lower_char c"
  by (auto simp: js_lower_char_def Let_def)

lemma js_toLowerCase_idem [simp]: "js_toLowerCase (js_toLowerCase s) = js_toLowerCase s"
  by (simp add: js_toLowerCase_def)

lemma js_toLowerCase_append [simp]:
  "js_toLowerCase (xs @ ys) = js_toLowerCase xs @ js_toLowerCase ys"
  by (simp add: js_toLowerCase_def)

lemma js_split_scan_not_Nil: "js_split_scan sep acc s \<noteq> []"
  by (induction sep acc s rule: js_split_scan.induct) auto

lemma js_join_Cons:
  "js_join (x # xs) sep = (if xs = [] then x else x @ sep @ js_join xs sep)"
  by (cases xs) simp_all

lemma js_join_split_scan:
  "sep \<noteq> [] \<Longrightarrow> js_join (js_split_scan sep acc s) sep = rev acc @ s"
proof (induction sep acc s rule: js_split_scan.induct)
  case (1 sep acc)
  then show ?case by simp
next
  case (2 sep acc c cs)
  show ?case
  proof (cases "js_startsWith (c # cs) sep")
    case True
    have "sep @ drop (length sep) (c # cs) = c # cs"
      using True by (metis append_take_drop_id js_startsWith_def)
    with True "2.IH"(1) "2.prems" show ?thesis
      by (simp add: js_join_Cons js_split_scan_not_Nil)
  next
    case False
    with "2.IH"(2) "2.prems" show ?thesis by simp
  qed
qed


lemma js_startsWith_prefix: "js_startsWith s p \<longleftrightarrow> prefix p s"
proof
  assume "js_startsWith s p"
  then show "prefix p s" by (metis js_startsWith_def take_is_prefix)
next
  assume "prefix p s"
  then show "js_startsWith s p" by (auto simp: js_startsWith_def prefix_def)
qed

lemma js_includes_sublist: "js_includes s p \<longleftrightarrow> sublist p s"
proof (induction s)
  case Nil
  then show ?case by (cases p) (simp_all add: js_includes_def)
next
  case (Cons c cs)
  then show ?case
    by (auto simp: js_includes_def js_startsWith_prefix sublist_Cons_right)
qed

lemma sublist_drop_prefix:
  assumes "sublist p x" "p \<noteq> []"
  shows "\<exists>k < length x. prefix p (drop k x)"
proof -
  from assms(1) obtain ps ss where "x = ps @ p @ ss" by (auto simp: sublist_def)
  with assms(2) show ?thesis by (intro exI [of _ "length ps"]) auto
qed

text \<open>Every piece of \<open>split\<close> is free of the separator.\<close>

lemma no_sep_piece:
  assumes "sep \<noteq> []" "\<forall>k < length acc. \<not> prefix sep (drop k (rev acc) @ s)"
  shows "\<not> sublist sep (rev acc)"
proof
  assume "sublist sep (rev acc)"
  then obtain k where k: "k < length acc" and p: "prefix sep (drop k (rev acc))"
    using sublist_drop_prefix [OF _ assms(1)] by fastforce
  from p have "prefix sep (drop k (rev acc) @ s)" by (auto simp: prefix_def)
  with k assms(2) show False by blast
qed

lemma js_split_scan_no_sep:
  "sep \<noteq> [] \<Longrightarrow> (\<forall>k < length acc. \<not> prefix sep (drop k (rev acc) @ s)) \<Longrightarrow>
   x \<in> set (js_split_scan sep acc s) \<Longrightarrow> \<not> sublist sep x"
proof (induction sep acc s arbitrary: x rule: js_split_scan.induct)
  case (1 sep acc)
  then have "x = rev acc" by simp
  with no_sep_piece [OF "1.prems"(1,2)] show ?case by simp
next
  case (2 sep acc c cs)
  show ?case
  proof (cases "js_startsWith (c # cs) sep")
    case True
    have x: "x = rev acc \<or> x \<in> set (js_split_scan sep [] (drop (length sep) (c # cs)))"
      using "2.prems"(3) True "2.prems"(1) by simp
    show ?thesis
    proof (cases "x = rev acc")
      case True
      with no_sep_piece [OF "2.prems"(1,2)] show ?thesis by simp
    next
      case False
      with x have "x \<in> set (js_split_scan sep [] (drop (length sep) (c # cs)))" by blast
      with "2.IH"(1) [OF _ "2.prems"(1)] True "2.prems"(1) show ?thesis by simp
    qed
  next
    case False
    have inv: "\<forall>k < length (c # acc). \<not> prefix sep (drop k (rev (c # acc)) @ cs)"
    proof (intro allI impI)
      fix k assume k: "k < length (c # acc)"
      show "\<not> prefix sep (drop k (rev (c # acc)) @ cs)"
      proof (cases "k < length acc")
        case True
        then show ?thesis using "2.prems"(2) by simp
      next
        case False
        with k have "k = length acc" by simp
        then show ?thesis using \<open>\<not> js_startsWith (c # cs) sep\<close> by (simp add: js_startsWith_prefix)
      qed
    qed
    have "x \<in> set (js_split_scan sep (c # acc) cs)" using "2.prems"(3) False by simp
    with "2.IH"(2) [OF _ "2.prems"(1) inv] False show ?thesis by simp
  qed
qed

lemma js_split_no_sep: "sep \<noteq> [] \<Longrightarrow> x \<in> set (js_split s sep) \<Longrightarrow> \<not> sublist sep x"
  using js_split_scan_no_sep [of sep "[]" s x] by (simp add: js_split_def)

lemma sublist_js_join: "x \<in> set xs \<Longrightarrow> sublist x (js_join xs sep)"
proof (induction xs sep rule: js_join.induct)
  case (3 y z zs sep)
  have ext: "\<And>a J. sublist x J \<Longrightarrow> sublist x (a @ J)"
    by (auto simp: sublist_def) (metis append_assoc)
  show ?case
  proof (cases "x = y")
    case True
    then show ?thesis by (simp add: prefix_imp_sublist)
  next
    case False
    with 3 have "sublist x (js_join (z # zs) sep)" by simp
    then show ?thesis using ext [of "js_join (z # zs) sep" "y @ sep"] by simp
  qed
qed simp_all

lemma sublist_js_trim: "sublist (js_trim s) s"
proof -
  have "sublist (rev (dropWhile is_js_space (rev (dropWhile is_js_space s)))) (dropWhile is_js_space s)"
    by (rule prefix_imp_sublist) (metis prefixI rev_dropWhile_rev_prefix)
  moreover have "sublist (dropWhile is_js_space s) s"
    by (rule suffix_imp_sublist [OF suffix_dropWhile])
  ultimately show ?thesis by (auto simp: js_trim_def intro: sublist_order.order.trans)
qed

section \<open>Round trip and idempotence\<close>

text \<open>
  \<open>split\<close> with a non-empty separator followed by \<open>join\<close> with the same
  separator gives the string back: the pieces and the separators between them are
  exactly the input.
\<close>

theorem js_split_join:
  "sep \<noteq> [] \<Longrightarrow> js_join (js_split s sep) sep = s"
  by (simp add: js_split_def js_join_split_scan)

theorem js_split_join_witness:
  "js_split ''a---b---'' ''---'' = [''a'', ''b'', ''''] \<and>
   js_join (js_split ''a---b---'' ''---'') ''---'' = ''a---b---''"
  using js_split_join [of "''---''" "''a---b---''"]
  by (simp add: js_split_def js_startsWith_def)

text \<open>
  Trimming is idempotent (spec section 8), and a trimmed string has no white space
  at either end.
\<close>

theorem js_trim_idempotent:
  "js_trim (js_trim s) = js_trim s \<and> trimmed (js_trim s)"
  by (simp add: trimmed_js_trim)
end
