(* ===== verification/PasswordRecord.thy ===== *)
theory PasswordRecord
  imports JsString
begin

text \<open>
  The record model shared by both surfaces (\<open>src/options.js\<close>, \<open>src/popup.js\<close>):
  a stored credential is the object \<open>{site, user, pass}\<close> that the parsers build
  and the storage holds, the store is the array kept under the key \<open>passwords\<close>,
  and the duplicate test of the import loop compares the lower-cased site and user.
  Also here: the error outcomes of the import and export handlers with the status
  texts the code shows for them, and the decimal rendering of counts in those texts.
\<close>

record pw_record =
  site :: js_string
  user :: js_string
  pass :: js_string

type_synonym store = "pw_record list"

text \<open>
  \<open>chrome.storage.X.set({passwords: v}, callback)\<close>, with its outcome \<open>written\<close>
  as an input: an accepted write makes \<open>v\<close> the stored array; a refused one (the
  item exceeds \<open>QUOTA_BYTES_PER_ITEM\<close>, or the write-rate limits of
  \<open>chrome.storage.sync\<close> are reached) leaves the array as it was, and the callback
  runs all the same with \<open>chrome.runtime.lastError\<close> set, which no callback of the
  code reads.
\<close>

definition storage_set :: "bool \<Rightarrow> store \<Rightarrow> store \<Rightarrow> store" where
  "storage_set written old v = (if written then v else old)"

text \<open>
  A well-formed record as the import path admits it: every field non-empty and
  trimmed (the spec's invariant of PasswordRecord).
\<close>

definition normal_record :: "pw_record \<Rightarrow> bool" where
  "normal_record r \<longleftrightarrow>
     site r \<noteq> [] \<and> user r \<noteq> [] \<and> pass r \<noteq> [] \<and>
     trimmed (site r) \<and> trimmed (user r) \<and> trimmed (pass r)"

text \<open>The predicate of \<open>existingPasswords.some(existing => ...)\<close> in the import loop.\<close>

definition same_identity :: "pw_record \<Rightarrow> pw_record \<Rightarrow> bool" where
  "same_identity existing newPassword \<longleftrightarrow>
     js_toLowerCase (site existing) = js_toLowerCase (site newPassword) \<and>
     js_toLowerCase (user existing) = js_toLowerCase (user newPassword)"

definition identity :: "pw_record \<Rightarrow> js_string \<times> js_string" where
  "identity r = (js_toLowerCase (site r), js_toLowerCase (user r))"

definition distinct_identities :: "store \<Rightarrow> bool" where
  "distinct_identities s \<longleftrightarrow> distinct (map identity s)"

text \<open>
  Outcomes of the handlers that end in a status message of type \<open>error\<close>. The thrown
  \<open>Error\<close>s of the import \<open>onload\<close> handler are shown as
  \<open>Erro ao importar: <message>\<close>; a \<open>SyntaxError\<close> of \<open>JSON.parse\<close> carries the
  engine's message.
\<close>

datatype import_error =
    NoFileSelected
  | FileReadError
  | JsonSyntaxError js_string
  | JsonNotArray
  | UnsupportedFormat
  | NoValidPasswords
  | NothingToExport

fun error_message :: "import_error \<Rightarrow> js_string" where
  "error_message (JsonSyntaxError m) = m"
| "error_message JsonNotArray = ''Formato JSON inv'' @ [CHR 0xE1] @ ''lido: esperado um array de senhas''"
| "error_message UnsupportedFormat =
     ''Formato de arquivo n'' @ [CHR 0xE3] @ ''o suportado. Use arquivos .json ou .txt''"
| "error_message NoValidPasswords = ''Nenhuma senha v'' @ [CHR 0xE1] @ ''lida encontrada no arquivo''"
| "error_message _ = []"

fun status_text :: "import_error \<Rightarrow> js_string" where
  "status_text NoFileSelected = ''Selecione um arquivo primeiro.''"
| "status_text FileReadError = ''Erro ao ler o arquivo.''"
| "status_text NothingToExport = ''Nenhuma senha para exportar.''"
| "status_text e = ''Erro ao importar: '' @ error_message e"

text \<open>\<open>String(n)\<close> for a count: its decimal digits.\<close>

fun js_nat_toString :: "nat \<Rightarrow> js_string" where
  "js_nat_toString n =
     (if n < 10 then [char_of (48 + n)]
      else js_nat_toString (n div 10) @ [char_of (48 + n mod 10)])"

text \<open>The success message of the import handler (\<open>options.js\<close> lines 76--79).\<close>

definition import_message :: "nat \<Rightarrow> nat \<Rightarrow> js_string" where
  "import_message addedCount duplicateCount =
     js_nat_toString addedCount @ '' senhas importadas com sucesso.'' @
     (if 0 < duplicateCount
      then '' '' @ js_nat_toString duplicateCount @ '' duplicatas ignoradas.'' else [])"

section \<open>Properties\<close>

lemma storage_set_True [simp]: "storage_set True old v = v"
  by (simp add: storage_set_def)

lemma storage_set_False [simp]: "storage_set False old v = old"
  by (simp add: storage_set_def)

text \<open>A refused write keeps the old array, so every invariant of arrays survives a \<open>set\<close>.\<close>

lemma storage_set_inv: "P old \<Longrightarrow> P v \<Longrightarrow> P (storage_set written old v)"
  by (simp add: storage_set_def)

lemma same_identity_iff: "same_identity a b \<longleftrightarrow> identity a = identity b"
  by (simp add: same_identity_def identity_def)

lemma same_identity_sym: "same_identity a b \<longleftrightarrow> same_identity b a"
  by (auto simp: same_identity_def)

lemma same_identity_refl [simp]: "same_identity a a"
  by (simp add: same_identity_def)

lemma distinct_identities_Nil [simp]: "distinct_identities []"
  by (simp add: distinct_identities_def)

lemma distinct_identities_snoc:
  "distinct_identities (s @ [r]) \<longleftrightarrow>
     distinct_identities s \<and> \<not> (\<exists>e \<in> set s. same_identity e r)"
  by (auto simp: distinct_identities_def same_identity_iff image_iff)

lemma distinct_identities_take_drop:
  "distinct_identities s \<Longrightarrow> distinct_identities (take i s @ drop (Suc i) s)"
proof -
  assume "distinct_identities s"
  then have "distinct (map identity (take i s @ drop i s))"
    by (simp add: distinct_identities_def)
  then have "distinct (map identity (take i s) @ map identity (drop (Suc i) s))"
    by (cases "drop i s") (auto simp: drop_Suc drop_tl)
  then show ?thesis by (simp add: distinct_identities_def)
qed

end
