(* ===== verification/JsonFormat.thy ===== *)
theory JsonFormat
  imports PasswordRecord
begin

text \<open>
  The JSON import format: \<open>parseJsonFormat\<close> of \<open>src/options.js\<close> (lines
  101--121; \<open>src/popup.js\<close> lines 152--170 is the same code). \<open>JSON.parse\<close> is the
  platform's: the model takes it as a parameter of type \<open>json_parser\<close>, which either
  throws a \<open>SyntaxError\<close> with a message (\<open>Inl\<close>) or returns the decoded value
  (\<open>Inr\<close>). A decoded value is a \<open>json\<close> tree; an object keeps its members in source
  order and a property read returns the last member of that name, as \<open>JSON.parse\<close>
  does for repeated keys. The numeric value of a JSON number only matters to the code
  through its truthiness, so numbers are kept as integers. Also here: the value the
  export handler hands to \<open>JSON.stringify\<close>, and the round trip from it back through
  the import filter.
\<close>

datatype json =
    JNull
  | JBool bool
  | JNumber int
  | JString js_string
  | JArray "json list"
  | JObject "(js_string \<times> json) list"

type_synonym json_parser = "js_string \<Rightarrow> js_string + json"

text \<open>JavaScript truthiness of a decoded value (\<open>item && ...\<close>).\<close>

fun js_truthy :: "json \<Rightarrow> bool" where
  "js_truthy JNull = False"
| "js_truthy (JBool b) = b"
| "js_truthy (JNumber n) = (n \<noteq> 0)"
| "js_truthy (JString s) = (s \<noteq> [])"
| "js_truthy (JArray xs) = True"
| "js_truthy (JObject ms) = True"

text \<open>\<open>item.k\<close>: \<open>None\<close> is \<open>undefined\<close>; only objects have the properties read here.\<close>

fun js_get :: "json \<Rightarrow> js_string \<Rightarrow> json option" where
  "js_get (JObject ms) k = map_of (rev ms) k"
| "js_get v k = None"

text \<open>\<open>typeof item.k === 'string'\<close>, returning the string.\<close>

definition js_string_prop :: "json \<Rightarrow> js_string \<Rightarrow> js_string option" where
  "js_string_prop item k = (case js_get item k of Some (JString s) \<Rightarrow> Some s | _ \<Rightarrow> None)"

text \<open>The filter callback of \<open>data.filter(item => ...)\<close> (lines 108--116).\<close>

definition json_item_ok :: "json \<Rightarrow> bool" where
  "json_item_ok item \<longleftrightarrow>
     js_truthy item \<and>
     (case (js_string_prop item ''site'', js_string_prop item ''user'', js_string_prop item ''pass'') of
        (Some s, Some u, Some p) \<Rightarrow> js_trim s \<noteq> [] \<and> js_trim u \<noteq> [] \<and> js_trim p \<noteq> []
      | _ \<Rightarrow> False)"

text \<open>
  The map callback (lines 116--120). It only sees items that passed the filter, whose
  three fields are strings; the default \<open>[]\<close> is never read.
\<close>

definition json_string_field :: "json \<Rightarrow> js_string \<Rightarrow> js_string" where
  "json_string_field item k = (case js_string_prop item k of Some s \<Rightarrow> s | None \<Rightarrow> [])"

definition json_item_record :: "json \<Rightarrow> pw_record" where
  "json_item_record item =
     \<lparr>site = js_trim (json_string_field item ''site''),
      user = js_trim (json_string_field item ''user''),
      pass = js_trim (json_string_field item ''pass'')\<rparr>"

text \<open>Lines 104--120: everything after \<open>JSON.parse\<close>.\<close>

definition json_array_records :: "json \<Rightarrow> import_error + pw_record list" where
  "json_array_records data =
     (case data of
        JArray items \<Rightarrow> Inr (map json_item_record (filter json_item_ok items))
      | _ \<Rightarrow> Inl JsonNotArray)"

definition parseJsonFormat :: "json_parser \<Rightarrow> js_string \<Rightarrow> import_error + pw_record list" where
  "parseJsonFormat json_parse content =
     (case json_parse content of
        Inl msg \<Rightarrow> Inl (JsonSyntaxError msg)
      | Inr data \<Rightarrow> json_array_records data)"

text \<open>
  A stored record as a JSON object, members in the order \<open>site, user, pass\<close> in which
  the parsers and the popup's add handler create them; the export handler passes the
  array of them to \<open>JSON.stringify\<close> (\<open>options.js\<close> line 189).
\<close>

definition record_json :: "pw_record \<Rightarrow> json" where
  "record_json r =
     JObject [(''site'', JString (site r)), (''user'', JString (user r)), (''pass'', JString (pass r))]"

definition store_json :: "store \<Rightarrow> json" where
  "store_json s = JArray (map record_json s)"

section \<open>Properties\<close>

lemma js_string_prop_truthy: "js_string_prop item k = Some s \<Longrightarrow> js_truthy item"
  by (cases item) (auto simp: js_string_prop_def)

lemma json_item_ok_iff:
  "json_item_ok item \<longleftrightarrow>
     (\<exists>s u p. js_string_prop item ''site'' = Some s \<and> js_string_prop item ''user'' = Some u \<and>
              js_string_prop item ''pass'' = Some p \<and>
              js_trim s \<noteq> [] \<and> js_trim u \<noteq> [] \<and> js_trim p \<noteq> [])"
  by (auto simp: json_item_ok_def dest: js_string_prop_truthy split: option.splits)

lemma json_item_record_normal: "json_item_ok item \<Longrightarrow> normal_record (json_item_record item)"
  by (auto simp: json_item_ok_iff json_item_record_def json_string_field_def normal_record_def
                 trimmed_js_trim)

lemma js_string_prop_record_json [simp]:
  "js_string_prop (record_json r) ''site'' = Some (site r)"
  "js_string_prop (record_json r) ''user'' = Some (user r)"
  "js_string_prop (record_json r) ''pass'' = Some (pass r)"
  by (simp_all add: js_string_prop_def record_json_def)

lemma trimmed_nonempty_trim: "trimmed s \<Longrightarrow> s \<noteq> [] \<Longrightarrow> js_trim s \<noteq> []"
  by (simp add: js_trim_trimmed)

lemma record_json_item_ok: "normal_record r \<Longrightarrow> json_item_ok (record_json r)"
  by (simp add: json_item_ok_iff normal_record_def js_trim_trimmed)

lemma json_item_record_json: "normal_record r \<Longrightarrow> json_item_record (record_json r) = r"
  by (simp add: json_item_record_def json_string_field_def normal_record_def js_trim_trimmed)

lemma json_array_records_normal:
  "json_array_records data = Inr rs \<Longrightarrow> r \<in> set rs \<Longrightarrow> normal_record r"
  by (auto simp: json_array_records_def json_item_record_normal split: json.splits)

lemma parseJsonFormat_normal:
  "parseJsonFormat json_parse content = Inr rs \<Longrightarrow> r \<in> set rs \<Longrightarrow> normal_record r"
  by (auto simp: parseJsonFormat_def json_array_records_normal split: sum.splits)

lemma json_array_records_store_json:
  "list_all normal_record s \<Longrightarrow> json_array_records (store_json s) = Inr s"
proof -
  assume ok: "list_all normal_record s"
  then have "filter json_item_ok (map record_json s) = map record_json s"
    by (induction s) (simp_all add: record_json_item_ok)
  moreover have "map json_item_record (map record_json s) = s"
    using ok by (induction s) (simp_all add: json_item_record_json)
  ultimately show ?thesis
    by (simp add: json_array_records_def store_json_def)
qed

section \<open>Claims\<close>

text \<open>
  C6. On input that decodes to an array, \<open>parseJsonFormat\<close> succeeds and returns, in
  array order, exactly the elements that have string \<open>site\<close>, \<open>user\<close> and
  \<open>pass\<close> properties that are not blank, each as the record of the three trimmed
  strings; every other element is dropped. (The code's \<open>item &&\<close> test is implied.)
\<close>

theorem parseJsonFormat_keeps_credentials:
  "json_parse content = Inr (JArray items) \<Longrightarrow>
     parseJsonFormat json_parse content =
       Inr (map (\<lambda>item. \<lparr>site = js_trim (the (js_string_prop item ''site'')),
                         user = js_trim (the (js_string_prop item ''user'')),
                         pass = js_trim (the (js_string_prop item ''pass''))\<rparr>)
              (filter (\<lambda>item. \<exists>s u p. js_string_prop item ''site'' = Some s \<and>
                                     js_string_prop item ''user'' = Some u \<and>
                                     js_string_prop item ''pass'' = Some p \<and>
                                     js_trim s \<noteq> [] \<and> js_trim u \<noteq> [] \<and> js_trim p \<noteq> []) items))"
proof -
  assume parsed: "json_parse content = Inr (JArray items)"
  have rec: "json_item_ok item \<Longrightarrow>
      json_item_record item = \<lparr>site = js_trim (the (js_string_prop item ''site'')),
                               user = js_trim (the (js_string_prop item ''user'')),
                               pass = js_trim (the (js_string_prop item ''pass''))\<rparr>" for item
    by (auto simp: json_item_ok_iff json_item_record_def json_string_field_def)
  have "map json_item_record (filter json_item_ok items)
        = map (\<lambda>item. \<lparr>site = js_trim (the (js_string_prop item ''site'')),
                      user = js_trim (the (js_string_prop item ''user'')),
                      pass = js_trim (the (js_string_prop item ''pass''))\<rparr>) (filter json_item_ok items)"
    by (rule map_cong) (simp_all add: rec)
  with parsed show ?thesis
    by (simp add: parseJsonFormat_def json_array_records_def json_item_ok_iff [abs_def])
qed

theorem parseJsonFormat_keeps_credentials_witness:
  "parseJsonFormat (\<lambda>_. Inr (JArray [JObject [(''site'', JString '' a.com ''), (''user'', JString ''ann''), (''pass'', JString ''p1'')],
                    JNull, JObject [(''site'', JString ''b.com''), (''user'', JString ''bo'')],
                    JObject [(''site'', JString ''c.com''), (''user'', JString ''  ''), (''pass'', JString ''p3'')],
                    JString ''site''])) ''[...]''
     = Inr [\<lparr>site = ''a.com'', user = ''ann'', pass = ''p1''\<rparr>]"
  using parseJsonFormat_keeps_credentials
    [of "\<lambda>_. Inr (JArray [JObject [(''site'', JString '' a.com ''), (''user'', JString ''ann''), (''pass'', JString ''p1'')],
                    JNull, JObject [(''site'', JString ''b.com''), (''user'', JString ''bo'')],
                    JObject [(''site'', JString ''c.com''), (''user'', JString ''  ''), (''pass'', JString ''p3'')],
                    JString ''site''])" "''[...]''"]
  by (simp add: js_string_prop_def js_trim_def is_js_space_def)

text \<open>
  C7. \<open>parseJsonFormat\<close> fails in exactly two ways: with the parser's
  \<open>SyntaxError\<close> when the text is not JSON, and with the "expected an array" error when
  it decodes to anything but an array; malformed elements never make it fail.
\<close>

theorem parseJsonFormat_errors:
  "parseJsonFormat json_parse content = Inl e \<longleftrightarrow>
     (\<exists>msg. json_parse content = Inl msg \<and> e = JsonSyntaxError msg) \<or>
     (\<exists>v. json_parse content = Inr v \<and> (\<forall>items. v \<noteq> JArray items) \<and> e = JsonNotArray)"
  by (auto simp: parseJsonFormat_def json_array_records_def split: sum.splits json.splits)

theorem parseJsonFormat_errors_witness:
  "parseJsonFormat (\<lambda>_. Inr (JObject [(''site'', JString ''a'')])) ''{}'' = Inl JsonNotArray \<and>
   parseJsonFormat (\<lambda>_. Inl ''Unexpected token'') ''{'' = Inl (JsonSyntaxError ''Unexpected token'')"
  using parseJsonFormat_errors [of "\<lambda>_. Inr (JObject [(''site'', JString ''a'')])" "''{}''" JsonNotArray]
        parseJsonFormat_errors [of "\<lambda>_. Inl ''Unexpected token''" "''{''" "JsonSyntaxError ''Unexpected token''"]
  by auto

end
