(* ===== verification/TextFormat.thy ===== *)
theory TextFormat
  imports PasswordRecord
begin

text \<open>
  The delimited-text import format: \<open>parseTextFormat\<close> and \<open>isTextFormat\<close> of
  \<open>src/options.js\<close> (lines 123--179; \<open>src/popup.js\<close> lines 172--213 is the same
  code). The content is cut at every \<open>---\<close>; each non-blank piece is cut into
  lines, which are trimmed and, when non-empty, folded into four fields by their
  prefix; the site is the \<open>Website name:\<close> value, else the host name of the
  \<open>Website URL:\<close> value, else the raw URL. The URL parser is the platform's
  \<open>new URL(u).hostname\<close>, a parameter of type \<open>url_hostname\<close> (\<open>None\<close> when the
  constructor throws). The parser is shown equal to a declarative reference
  (\<open>text_entry_reference\<close>: each field is the value of the last line of its prefix).
\<close>

type_synonym url_hostname = "js_string \<Rightarrow> js_string option"

text \<open>The four \<open>let\<close> variables of the \<open>entries.forEach\<close> callback (lines 130--133).\<close>

record text_fields =
  websiteName :: js_string
  websiteUrl :: js_string
  login :: js_string
  password :: js_string

definition empty_fields :: text_fields where
  "empty_fields = \<lparr>websiteName = [], websiteUrl = [], login = [], password = []\<rparr>"

text \<open>One iteration of \<open>lines.forEach\<close> (lines 135--145).\<close>

definition text_line_step :: "text_fields \<Rightarrow> js_string \<Rightarrow> text_fields" where
  "text_line_step f line =
     (if js_startsWith line ''Website name:''
      then f\<lparr>websiteName := js_trim (js_replace line ''Website name:'' [])\<rparr>
      else if js_startsWith line ''Website URL:''
      then f\<lparr>websiteUrl := js_trim (js_replace line ''Website URL:'' [])\<rparr>
      else if js_startsWith line ''Login:''
      then f\<lparr>login := js_trim (js_replace line ''Login:'' [])\<rparr>
      else if js_startsWith line ''Password:''
      then f\<lparr>password := js_trim (js_replace line ''Password:'' [])\<rparr>
      else f)"

text \<open>\<open>entry.split('\n').map(line => line.trim()).filter(line => line)\<close> (line 128).\<close>

definition entry_lines :: "js_string \<Rightarrow> js_string list" where
  "entry_lines entry = filter (\<lambda>line. line \<noteq> []) (map js_trim (js_split entry ''\<newline>''))"

text \<open>Site resolution (lines 148--158).\<close>

definition resolve_site :: "url_hostname \<Rightarrow> text_fields \<Rightarrow> js_string" where
  "resolve_site url_host f =
     (let site0 = (if websiteName f \<noteq> [] then websiteName f else websiteUrl f)
      in if websiteUrl f \<noteq> [] \<and> websiteName f = []
         then (case url_host (websiteUrl f) of Some h \<Rightarrow> h | None \<Rightarrow> websiteUrl f)
         else site0)"

text \<open>The body of \<open>entries.forEach\<close> (lines 127--168): the record it pushes, if any.\<close>

definition parse_text_entry :: "url_hostname \<Rightarrow> js_string \<Rightarrow> pw_record option" where
  "parse_text_entry url_host entry =
     (let f = foldl text_line_step empty_fields (entry_lines entry);
          s = resolve_site url_host f
      in if s \<noteq> [] \<and> login f \<noteq> [] \<and> password f \<noteq> []
         then Some \<lparr>site = s, user = login f, pass = password f\<rparr> else None)"

text \<open>\<open>content.split('---').filter(entry => entry.trim())\<close> (line 125).\<close>

definition text_entries :: "js_string \<Rightarrow> js_string list" where
  "text_entries content = filter (\<lambda>entry. js_trim entry \<noteq> []) (js_split content ''---'')"

definition parseTextFormat :: "url_hostname \<Rightarrow> js_string \<Rightarrow> pw_record list" where
  "parseTextFormat url_host content =
     foldl (\<lambda>passwords entry.
              case parse_text_entry url_host entry of
                None \<Rightarrow> passwords
              | Some r \<Rightarrow> passwords @ [r])
       [] (text_entries content)"

definition isTextFormat :: "js_string \<Rightarrow> bool" where
  "isTextFormat content \<longleftrightarrow>
     js_includes content ''Website name:'' \<or> js_includes content ''Website URL:'' \<or>
     js_includes content ''Login:'' \<or> js_includes content ''Password:''"

text \<open>
  The contract the parser needs from the platform's URL API: a host name it returns
  has no white space at either end (WHATWG host names never contain white space).
\<close>

definition url_host_trimmed :: "url_hostname \<Rightarrow> bool" where
  "url_host_trimmed url_host \<longleftrightarrow> (\<forall>u h. url_host u = Some h \<longrightarrow> trimmed h)"

text \<open>
  A host-name function for the examples: \<open>http\<close> and \<open>https\<close> URLs with a
  non-empty host of no white space, lower-cased, up to the first \<open>/ ? # :\<close>;
  everything else throws. It agrees with the URL API on the URLs of the examples.
\<close>

definition sample_url_hostname :: url_hostname where
  "sample_url_hostname u =
     (let rest = (if js_startsWith u ''https://'' then Some (drop 8 u)
                  else if js_startsWith u ''http://'' then Some (drop 7 u) else None)
      in case rest of
           None \<Rightarrow> None
         | Some r \<Rightarrow>
             (let h = js_toLowerCase (takeWhile (\<lambda>c. c \<notin> set ''/?#:'') r)
              in if h = [] \<or> (\<exists>c \<in> set h. is_js_space c) then None else Some h))"

text \<open>All fields of the fold are trimmed: the invariant of the line loop.\<close>

definition fields_trimmed :: "text_fields \<Rightarrow> bool" where
  "fields_trimmed f \<longleftrightarrow>
     trimmed (websiteName f) \<and> trimmed (websiteUrl f) \<and> trimmed (login f) \<and> trimmed (password f)"

text \<open>
  A declarative reference for one entry: each field is the trimmed rest of the last
  line that starts with its prefix (empty when there is none), and the site is the
  name, else the URL's host name (or the URL when it does not parse).
\<close>

definition text_field :: "js_string list \<Rightarrow> js_string \<Rightarrow> js_string" where
  "text_field lines p =
     (let ls = filter (\<lambda>l. js_startsWith l p) lines
      in if ls = [] then [] else js_trim (drop (length p) (last ls)))"

definition text_entry_reference :: "url_hostname \<Rightarrow> js_string \<Rightarrow> pw_record option" where
  "text_entry_reference url_host entry =
     (let lines = entry_lines entry;
          name = text_field lines ''Website name:'';
          url = text_field lines ''Website URL:'';
          lg = text_field lines ''Login:'';
          pw = text_field lines ''Password:'';
          s = (if name \<noteq> [] then name
               else if url \<noteq> [] then (case url_host url of Some h \<Rightarrow> h | None \<Rightarrow> url)
               else [])
      in if s \<noteq> [] \<and> lg \<noteq> [] \<and> pw \<noteq> [] then Some \<lparr>site = s, user = lg, pass = pw\<rparr> else None)"

section \<open>Properties\<close>

lemma fields_trimmed_empty [simp]: "fields_trimmed empty_fields"
  by (simp add: fields_trimmed_def empty_fields_def trimmed_def)

lemma fields_trimmed_step:
  "fields_trimmed f \<Longrightarrow> fields_trimmed (text_line_step f line)"
  by (simp add: fields_trimmed_def text_line_step_def trimmed_js_trim)

lemma fields_trimmed_foldl:
  "fields_trimmed f \<Longrightarrow> fields_trimmed (foldl text_line_step f ls)"
  by (induction ls arbitrary: f) (auto intro: fields_trimmed_step)

lemma resolve_site_trimmed:
  "fields_trimmed f \<Longrightarrow> url_host_trimmed url_host \<Longrightarrow> trimmed (resolve_site url_host f)"
  by (auto simp: resolve_site_def fields_trimmed_def url_host_trimmed_def Let_def
           split: option.splits)

lemma parseTextFormat_map_filter:
  "parseTextFormat url_host content = List.map_filter (parse_text_entry url_host) (text_entries content)"
  using foldl_append_snoc_filter [of "parse_text_entry url_host" "[]"]
  by (simp add: parseTextFormat_def)

lemma parseTextFormat_length: "length (parseTextFormat url_host content) \<le> length (text_entries content)"
  by (simp add: parseTextFormat_map_filter List.map_filter_def)

lemma parse_text_entry_Some:
  "parse_text_entry url_host entry = Some r \<Longrightarrow>
     (\<exists>f. fields_trimmed f \<and> site r = resolve_site url_host f \<and> user r = login f \<and>
          pass r = password f \<and> site r \<noteq> [] \<and> user r \<noteq> [] \<and> pass r \<noteq> [])"
proof -
  assume r: "parse_text_entry url_host entry = Some r"
  let ?f = "foldl text_line_step empty_fields (entry_lines entry)"
  have "fields_trimmed ?f" by (simp add: fields_trimmed_foldl)
  with r show ?thesis
    by (auto simp: parse_text_entry_def Let_def split: if_splits)
qed

lemma sample_url_hostname_trimmed: "url_host_trimmed sample_url_hostname"
proof -
  have "trimmed h" if "h \<noteq> []" "\<forall>c \<in> set h. \<not> is_js_space c" for h
    using that by (auto simp: trimmed_def)
  then show ?thesis
    by (auto simp: url_host_trimmed_def sample_url_hostname_def Let_def split: option.splits if_splits)
qed

lemma parseTextFormat_normal:
  "url_host_trimmed url_host \<Longrightarrow> r \<in> set (parseTextFormat url_host content) \<Longrightarrow> normal_record r"
proof -
  assume uh: "url_host_trimmed url_host" and r: "r \<in> set (parseTextFormat url_host content)"
  then obtain e where "parse_text_entry url_host e = Some r"
    by (auto simp: parseTextFormat_map_filter set_map_filter_iff)
  then obtain f where f: "fields_trimmed f" "site r = resolve_site url_host f" "user r = login f"
    "pass r = password f" "site r \<noteq> []" "user r \<noteq> []" "pass r \<noteq> []"
    by (blast dest: parse_text_entry_Some)
  with resolve_site_trimmed [OF f(1) uh] show "normal_record r"
    by (simp add: normal_record_def fields_trimmed_def)
qed

lemmas text_format_eval =
  parseTextFormat_def text_entries_def parse_text_entry_def entry_lines_def js_split_def
  text_line_step_def resolve_site_def js_startsWith_def js_replace_def js_trim_def
  is_js_space_def empty_fields_def

lemma startsWith_hd: "js_startsWith l (c # p) \<Longrightarrow> l \<noteq> [] \<and> hd l = c"
  by (cases l) (auto simp: js_startsWith_def)

lemma login_line_not_other:
  "js_startsWith l ''Login:'' \<Longrightarrow>
     \<not> js_startsWith l ''Website name:'' \<and> \<not> js_startsWith l ''Website URL:''"
  by (auto dest!: startsWith_hd)

lemma login_text_line_step:
  "login (text_line_step f l) =
     (if js_startsWith l ''Login:'' then js_trim (drop 6 l) else login f)"
  by (auto simp: text_line_step_def js_replace_prefix numeral_eq_Suc dest: login_line_not_other)

lemma sublist_singleton_iff: "sublist [c] xs \<longleftrightarrow> c \<in> set xs"
proof
  assume "sublist [c] xs"
  then show "c \<in> set xs" by (auto simp: sublist_def)
next
  assume "c \<in> set xs"
  then obtain ps ss where "xs = ps @ c # ss" by (meson split_list)
  then show "sublist [c] xs" by (auto simp: sublist_def)
qed

lemma no_sep_sublist:
  "sublist v w \<Longrightarrow> \<not> sublist p w \<Longrightarrow> \<not> sublist p v"
  by (meson sublist_order.order.trans)

lemma split_piece_sublist: "sep \<noteq> [] \<Longrightarrow> x \<in> set (js_split s sep) \<Longrightarrow> sublist x s"
  using sublist_js_join [of x "js_split s sep" sep] by (simp add: js_split_join)

text \<open>A field value read from a line is a piece of that line.\<close>

lemma field_value_sublist:
  "js_startsWith line p \<Longrightarrow> sublist (js_trim (js_replace line p [])) line"
proof -
  assume "js_startsWith line p"
  then have "js_replace line p [] = drop (length p) line" by (simp add: js_replace_prefix)
  moreover have "sublist (drop (length p) line) line" by (rule suffix_imp_sublist) (simp add: suffix_drop)
  ultimately show ?thesis by (metis sublist_js_trim sublist_order.order.trans)
qed

lemma text_fold_values:
  assumes "\<forall>line \<in> set lines. \<not> sublist sep line \<and> c \<notin> set line"
    and "\<not> sublist sep (login f) \<and> c \<notin> set (login f)"
    and "\<not> sublist sep (password f) \<and> c \<notin> set (password f)"
  shows "\<not> sublist sep (login (foldl text_line_step f lines)) \<and> c \<notin> set (login (foldl text_line_step f lines)) \<and>
         \<not> sublist sep (password (foldl text_line_step f lines)) \<and> c \<notin> set (password (foldl text_line_step f lines))"
  using assms
proof (induction lines arbitrary: f)
  case Nil
  then show ?case by simp
next
  case (Cons line lines)
  have l: "\<not> sublist sep line" "c \<notin> set line" using Cons.prems(1) by auto
  have val: "\<And>p. js_startsWith line p \<Longrightarrow>
               \<not> sublist sep (js_trim (js_replace line p [])) \<and> c \<notin> set (js_trim (js_replace line p []))"
    using field_value_sublist l no_sep_sublist by (metis sublist_singleton_iff)
  have "\<not> sublist sep (login (text_line_step f line)) \<and> c \<notin> set (login (text_line_step f line)) \<and>
        \<not> sublist sep (password (text_line_step f line)) \<and> c \<notin> set (password (text_line_step f line))"
    using Cons.prems(2,3) val by (simp add: text_line_step_def)
  then show ?case using Cons.IH Cons.prems(1) by simp
qed

lemma entry_lines_values:
  assumes "\<not> sublist ''---'' entry" "line \<in> set (entry_lines entry)"
  shows "\<not> sublist ''---'' line \<and> CHR ''\<newline>'' \<notin> set line"
proof -
  obtain piece where piece: "piece \<in> set (js_split entry ''\<newline>'')" and line: "line = js_trim piece"
    using assms(2) by (auto simp: entry_lines_def)
  have "sublist piece entry" using split_piece_sublist [OF _ piece] by simp
  then have "\<not> sublist ''---'' piece" using assms(1) no_sep_sublist by blast
  moreover have "CHR ''\<newline>'' \<notin> set piece"
    using js_split_no_sep [OF _ piece] by (simp add: sublist_singleton_iff)
  ultimately show ?thesis
    using sublist_js_trim [of piece] no_sep_sublist line by (metis sublist_singleton_iff)
qed

lemma parseTextFormat_values:
  assumes "r \<in> set (parseTextFormat url_host content)"
  shows "\<not> sublist ''---'' (user r) \<and> CHR ''\<newline>'' \<notin> set (user r) \<and>
         \<not> sublist ''---'' (pass r) \<and> CHR ''\<newline>'' \<notin> set (pass r)"
proof -
  obtain entry where e: "entry \<in> set (text_entries content)" and p: "parse_text_entry url_host entry = Some r"
    using assms by (auto simp: parseTextFormat_map_filter set_map_filter_iff)
  have ne: "\<not> sublist ''---'' entry"
    using e js_split_no_sep [of "''---''" entry content] by (auto simp: text_entries_def)
  let ?f = "foldl text_line_step empty_fields (entry_lines entry)"
  have "\<not> sublist ''---'' (login ?f) \<and> CHR ''\<newline>'' \<notin> set (login ?f) \<and>
        \<not> sublist ''---'' (password ?f) \<and> CHR ''\<newline>'' \<notin> set (password ?f)"
    using entry_lines_values [OF ne] by (intro text_fold_values) (auto simp: empty_fields_def)
  moreover have "user r = login ?f" "pass r = password ?f"
    using p by (auto simp: parse_text_entry_def Let_def split: if_splits)
  ultimately show ?thesis by simp
qed

text \<open>The line loop keeps, for each field, the value of the last line of its prefix.\<close>

lemma startsWith_both:
  "js_startsWith l p \<Longrightarrow> js_startsWith l q \<Longrightarrow> prefix p q \<or> prefix q p"
  by (simp add: js_startsWith_prefix prefix_same_cases)

lemma fold_last_field:
  assumes step: "\<And>f l. sel (text_line_step f l) = (if js_startsWith l p then js_trim (drop n l) else sel f)"
  shows "sel (foldl text_line_step f ls) =
           (let ls' = filter (\<lambda>l. js_startsWith l p) ls
            in if ls' = [] then sel f else js_trim (drop n (last ls')))"
proof (induction ls rule: rev_induct)
  case Nil
  then show ?case by simp
next
  case (snoc l ls)
  then show ?case by (simp add: step Let_def)
qed

lemma websiteName_text_line_step:
  "websiteName (text_line_step f l) =
     (if js_startsWith l ''Website name:'' then js_trim (drop 13 l) else websiteName f)"
  by (simp add: text_line_step_def js_replace_prefix numeral_eq_Suc)

lemma websiteUrl_text_line_step:
  "websiteUrl (text_line_step f l) =
     (if js_startsWith l ''Website URL:'' then js_trim (drop 12 l) else websiteUrl f)"
  by (auto simp: text_line_step_def js_replace_prefix numeral_eq_Suc dest: startsWith_both)

lemma password_text_line_step:
  "password (text_line_step f l) =
     (if js_startsWith l ''Password:'' then js_trim (drop 9 l) else password f)"
  by (auto simp: text_line_step_def js_replace_prefix numeral_eq_Suc dest: startsWith_both)

lemma parse_text_entry_reference:
  "parse_text_entry url_host entry = text_entry_reference url_host entry"
proof -
  let ?ls = "entry_lines entry"
  let ?f = "foldl text_line_step empty_fields ?ls"
  have n: "websiteName ?f = text_field ?ls ''Website name:''"
    using fold_last_field [of websiteName "''Website name:''" 13 empty_fields ?ls, OF websiteName_text_line_step]
    by (simp add: text_field_def empty_fields_def Let_def numeral_eq_Suc)
  have u: "websiteUrl ?f = text_field ?ls ''Website URL:''"
    using fold_last_field [of websiteUrl "''Website URL:''" 12 empty_fields ?ls, OF websiteUrl_text_line_step]
    by (simp add: text_field_def empty_fields_def Let_def numeral_eq_Suc)
  have g: "login ?f = text_field ?ls ''Login:''"
    using fold_last_field [of login "''Login:''" 6 empty_fields ?ls, OF login_text_line_step]
    by (simp add: text_field_def empty_fields_def Let_def numeral_eq_Suc)
  have p: "password ?f = text_field ?ls ''Password:''"
    using fold_last_field [of password "''Password:''" 9 empty_fields ?ls, OF password_text_line_step]
    by (simp add: text_field_def empty_fields_def Let_def numeral_eq_Suc)
  show ?thesis
    by (simp add: parse_text_entry_def text_entry_reference_def resolve_site_def Let_def n u g p
             split: option.splits)
qed

text \<open>A record needs a \<open>Login:\<close> line, so a content that gives one contains that marker.\<close>

lemma text_fold_login_line:
  "login (foldl text_line_step f ls) \<noteq> login f \<Longrightarrow> \<exists>l \<in> set ls. js_startsWith l ''Login:''"
proof (induction ls arbitrary: f)
  case Nil
  then show ?case by simp
next
  case (Cons l ls)
  show ?case
  proof (cases "js_startsWith l ''Login:''")
    case True
    then show ?thesis by simp
  next
    case False
    then have "login (text_line_step f l) = login f" by (simp add: login_text_line_step)
    with Cons.prems Cons.IH [of "text_line_step f l"] show ?thesis by auto
  qed
qed

lemma parse_text_entry_login:
  assumes "parse_text_entry url_host entry = Some r"
  shows "sublist ''Login:'' entry"
proof -
  let ?f = "foldl text_line_step empty_fields (entry_lines entry)"
  have "login ?f \<noteq> login empty_fields"
    using assms by (auto simp: parse_text_entry_def Let_def empty_fields_def split: if_splits)
  then obtain l where l: "l \<in> set (entry_lines entry)" and sw: "js_startsWith l ''Login:''"
    using text_fold_login_line by blast
  obtain piece where piece: "piece \<in> set (js_split entry ''\<newline>'')" and lp: "l = js_trim piece"
    using l by (auto simp: entry_lines_def)
  have "sublist ''Login:'' l" using sw by (simp add: js_startsWith_prefix prefix_imp_sublist)
  also have "sublist l piece" using lp sublist_js_trim by simp
  also have "sublist piece entry" using split_piece_sublist [OF _ piece] by simp
  finally show ?thesis .
qed

lemma parseTextFormat_isTextFormat:
  assumes "parseTextFormat url_host content \<noteq> []"
  shows "isTextFormat content"
proof -
  obtain r where "r \<in> set (parseTextFormat url_host content)" using assms by (cases "parseTextFormat url_host content") auto
  then obtain entry where e: "entry \<in> set (text_entries content)" and p: "parse_text_entry url_host entry = Some r"
    by (auto simp: parseTextFormat_map_filter set_map_filter_iff)
  have "sublist ''Login:'' entry" using p by (rule parse_text_entry_login)
  also have "sublist entry content"
    using e split_piece_sublist [of "''---''" entry content] by (simp add: text_entries_def)
  finally show ?thesis by (simp add: isTextFormat_def js_includes_sublist)
qed

section \<open>Claims\<close>

text \<open>
  C8. Every record the text parser returns has non-empty, trimmed site, user and
  password, given that the URL API returns host names without surrounding white space.
\<close>

theorem parseTextFormat_records_normal:
  "url_host_trimmed url_host \<Longrightarrow> list_all normal_record (parseTextFormat url_host content)"
  by (simp add: list_all_iff parseTextFormat_normal)

theorem parseTextFormat_records_normal_witness:
  "url_host_trimmed sample_url_hostname \<and>
   list_all normal_record (parseTextFormat sample_url_hostname
     ''Website name:  Bank \<newline>Login:alice\<newline>Password: pw1 '')"
  using parseTextFormat_records_normal [OF sample_url_hostname_trimmed] sample_url_hostname_trimmed
  by simp

text \<open>
  Within one entry a later \<open>Login:\<close> line overrides an earlier one: after the
  line loop, \<open>login\<close> is the trimmed value of the last line that starts with
  \<open>Login:\<close>, or its previous value if there is none. (The other three prefixes are
  handled the same way.)
\<close>

theorem text_fold_last_login:
  "login (foldl text_line_step f ls) =
     (case filter (\<lambda>l. js_startsWith l ''Login:'') ls of
        [] \<Rightarrow> login f
      | ls' \<Rightarrow> js_trim (drop 6 (last ls')))"
proof (induction ls rule: rev_induct)
  case Nil
  then show ?case by simp
next
  case (snoc l ls)
  then show ?case
    by (auto simp: login_text_line_step split: list.splits)
qed

text \<open>
  The spec's URL example: an entry with \<open>Website URL: https://example.com/login\<close>
  and no \<open>Website name:\<close> gets the URL's host name \<open>example.com\<close> as its site.
\<close>

theorem parseTextFormat_url_hostname:
  "url_host ''https://example.com/login'' = Some ''example.com'' \<Longrightarrow>
   parseTextFormat url_host ''Website URL: https://example.com/login\<newline>Login: bob\<newline>Password: pw''
     = [\<lparr>site = ''example.com'', user = ''bob'', pass = ''pw''\<rparr>]"
  by (simp add: text_format_eval)

theorem parseTextFormat_url_hostname_witness:
  "sample_url_hostname ''https://example.com/login'' = Some ''example.com'' \<and>
   parseTextFormat sample_url_hostname ''Website URL: https://example.com/login\<newline>Login: bob\<newline>Password: pw''
     = [\<lparr>site = ''example.com'', user = ''bob'', pass = ''pw''\<rparr>]"
proof -
  have h: "sample_url_hostname ''https://example.com/login'' = Some ''example.com''"
    by (simp add: sample_url_hostname_def js_startsWith_def js_toLowerCase_def js_lower_char_def
                  is_js_space_def js_eval)
  show ?thesis using parseTextFormat_url_hostname [of sample_url_hostname, OF h] h by simp
qed

text \<open>
  The entry separator is the substring \<open>---\<close> anywhere, not a line of its own:
  a password containing \<open>---\<close> is cut there and the record is stored with the
  truncated password \<open>ab\<close> (the rest, \<open>cd\<close>, is a blank entry and dropped).
\<close>

theorem separator_inside_value:
  "parseTextFormat url_host ''Website name: Bank\<newline>Login: alice\<newline>Password: ab---cd''
     = [\<lparr>site = ''Bank'', user = ''alice'', pass = ''ab''\<rparr>]"
  by (simp add: text_format_eval)

text \<open>
  A URL that parses but has an empty host name (\<open>mailto:bob\<close>) gives the empty
  site, and the entry is dropped silently; the raw URL is used only when the URL
  constructor throws.
\<close>

theorem empty_hostname_drops_entry:
  "url_host ''mailto:bob'' = Some [] \<Longrightarrow>
   parseTextFormat url_host ''Website URL: mailto:bob\<newline>Login: bob\<newline>Password: pw'' = []"
  by (simp add: text_format_eval)

theorem empty_hostname_drops_entry_witness:
  "(if ''mailto:bob'' = ''mailto:bob'' then Some [] else None) = Some ([] :: js_string) \<and>
   parseTextFormat (\<lambda>u. if u = ''mailto:bob'' then Some [] else None)
     ''Website URL: mailto:bob\<newline>Login: bob\<newline>Password: pw'' = []"
  using empty_hostname_drops_entry [of "\<lambda>u. if u = ''mailto:bob'' then Some [] else None"]
  by simp

text \<open>
  C25. No user name or password imported from the text format contains the separator
  \<open>---\<close> or a line feed: the content is cut at every \<open>---\<close> and every entry at
  every line feed before a value is read, so such a password cannot be imported
  through this format (it is cut at the separator or the line break).
\<close>

theorem text_values_no_separator:
  "r \<in> set (parseTextFormat url_host content) \<Longrightarrow>
   \<not> js_includes (user r) ''---'' \<and> \<not> js_includes (pass r) ''---'' \<and>
   CHR ''\<newline>'' \<notin> set (user r) \<and> CHR ''\<newline>'' \<notin> set (pass r)"
  using parseTextFormat_values by (simp add: js_includes_sublist)

theorem text_values_no_separator_witness:
  "\<lparr>site = ''A'', user = ''b'', pass = ''c''\<rparr>
     \<in> set (parseTextFormat sample_url_hostname ''Website name: A\<newline>Login: b\<newline>Password: c'') \<and>
   \<not> js_includes ''b'' ''---'' \<and> \<not> js_includes ''c'' ''---''"
proof -
  have m: "\<lparr>site = ''A'', user = ''b'', pass = ''c''\<rparr>
     \<in> set (parseTextFormat sample_url_hostname ''Website name: A\<newline>Login: b\<newline>Password: c'')"
    by (simp add: text_format_eval)
  show ?thesis using text_values_no_separator [OF m] m by simp
qed

text \<open>
  C11. The text parser equals its declarative reference: the records it returns are,
  in order, those of the non-blank \<open>---\<close> pieces whose last \<open>Login:\<close> and
  \<open>Password:\<close> lines give non-empty values and whose last \<open>Website name:\<close> line,
  or else the host name of the last \<open>Website URL:\<close> line, gives a non-empty site.
\<close>

theorem parseTextFormat_reference:
  "parseTextFormat url_host content =
     List.map_filter (text_entry_reference url_host) (filter (\<lambda>e. js_trim e \<noteq> []) (js_split content ''---''))"
  by (simp add: parseTextFormat_map_filter text_entries_def parse_text_entry_reference [abs_def])

end
