(* ===== verification/Merge.thy ===== *)
theory Merge
  imports PasswordRecord "HOL-Library.Sublist"
begin

text \<open>
  The import merger: the body of the \<open>chrome.storage.sync.get\<close> callback of
  \<open>importPasswords\<close> in \<open>src/options.js\<close> (lines 55--72; \<open>src/popup.js\<close> lines
  102--116 is the same loop over \<open>chrome.storage.local\<close>). The loop state is the
  array \<open>existingPasswords\<close>, mutated by \<open>push\<close>, and the two counters; a candidate
  is compared with the array as it has grown so far, so a later candidate with the
  identity of an earlier admitted one is a duplicate too.
\<close>

record merge_state =
  existingPasswords :: store
  addedCount :: nat
  duplicateCount :: nat

text \<open>\<open>existingPasswords.some(existing => ...)\<close> (lines 61--64).\<close>

definition isDuplicate :: "store \<Rightarrow> pw_record \<Rightarrow> bool" where
  "isDuplicate existing newPassword \<longleftrightarrow> list_ex (\<lambda>e. same_identity e newPassword) existing"

text \<open>One iteration of \<open>importedData.forEach\<close> (lines 59--72).\<close>

definition merge_step :: "merge_state \<Rightarrow> pw_record \<Rightarrow> merge_state" where
  "merge_step st newPassword =
     (if \<not> isDuplicate (existingPasswords st) newPassword
      then st\<lparr>existingPasswords := existingPasswords st @ [newPassword],
              addedCount := Suc (addedCount st)\<rparr>
      else st\<lparr>duplicateCount := Suc (duplicateCount st)\<rparr>)"

definition merge_init :: "store \<Rightarrow> merge_state" where
  "merge_init existing = \<lparr>existingPasswords = existing, addedCount = 0, duplicateCount = 0\<rparr>"

text \<open>Lines 55--72: the counters start at 0 and the loop runs over all candidates.\<close>

definition import_merge :: "store \<Rightarrow> pw_record list \<Rightarrow> merge_state" where
  "import_merge existing importedData = foldl merge_step (merge_init existing) importedData"

text \<open>
  A declarative reference for the import loop: candidate \<open>i\<close> is added exactly when
  its identity is neither stored nor that of an earlier candidate.
\<close>

definition new_candidates :: "store \<Rightarrow> pw_record list \<Rightarrow> pw_record list" where
  "new_candidates existing cs =
     map snd (filter (\<lambda>(i, c). identity c \<notin> set (map identity (existing @ take i cs)))
                     (zip [0..<length cs] cs))"

definition merge_reference :: "store \<Rightarrow> pw_record list \<Rightarrow> merge_state" where
  "merge_reference existing cs =
     \<lparr>existingPasswords = existing @ new_candidates existing cs,
      addedCount = length (new_candidates existing cs),
      duplicateCount = length cs - length (new_candidates existing cs)\<rparr>"

section \<open>Properties\<close>

lemma isDuplicate_iff: "isDuplicate s r \<longleftrightarrow> identity r \<in> set (map identity s)"
proof -
  have "(\<exists>e \<in> set s. identity e = identity r) \<longleftrightarrow> (\<exists>e \<in> set s. identity r = identity e)"
    by (blast intro: sym)
  then show ?thesis
    by (simp add: isDuplicate_def list_ex_iff same_identity_iff image_iff)
qed

lemma merge_fold_shape:
  "\<exists>added. existingPasswords (foldl merge_step st cs) = existingPasswords st @ added \<and>
           subseq added cs \<and>
           addedCount (foldl merge_step st cs) = addedCount st + length added \<and>
           duplicateCount (foldl merge_step st cs) + length added = duplicateCount st + length cs"
proof (induction cs arbitrary: st)
  case Nil
  then show ?case by simp
next
  case (Cons c cs)
  obtain added where IH:
    "existingPasswords (foldl merge_step (merge_step st c) cs) = existingPasswords (merge_step st c) @ added"
    "subseq added cs"
    "addedCount (foldl merge_step (merge_step st c) cs) = addedCount (merge_step st c) + length added"
    "duplicateCount (foldl merge_step (merge_step st c) cs) + length added
       = duplicateCount (merge_step st c) + length cs"
    using Cons.IH by blast
  show ?case
  proof (cases "isDuplicate (existingPasswords st) c")
    case True
    then have "merge_step st c = st\<lparr>duplicateCount := Suc (duplicateCount st)\<rparr>"
      by (simp add: merge_step_def)
    with IH show ?thesis
      by (intro exI [of _ added]) (simp add: list_emb_Cons)
  next
    case False
    then have "merge_step st c = st\<lparr>existingPasswords := existingPasswords st @ [c],
                                    addedCount := Suc (addedCount st)\<rparr>"
      by (simp add: merge_step_def)
    with IH show ?thesis
      by (intro exI [of _ "c # added"]) simp
  qed
qed

lemma merge_fold_identities:
  "set (map identity (existingPasswords (foldl merge_step st cs)))
     = set (map identity (existingPasswords st)) \<union> set (map identity cs)"
proof (induction cs arbitrary: st)
  case Nil
  then show ?case by simp
next
  case (Cons c cs)
  have "set (map identity (existingPasswords (merge_step st c)))
          = set (map identity (existingPasswords st)) \<union> {identity c}"
    by (auto simp: merge_step_def isDuplicate_iff)
  with Cons.IH [of "merge_step st c"] show ?case by auto
qed

lemma merge_fold_distinct:
  "distinct_identities (existingPasswords st) \<Longrightarrow>
     distinct_identities (existingPasswords (foldl merge_step st cs))"
proof (induction cs arbitrary: st)
  case Nil
  then show ?case by simp
next
  case (Cons c cs)
  have "distinct_identities (existingPasswords (merge_step st c))"
    using Cons.prems
    by (auto simp: merge_step_def distinct_identities_snoc isDuplicate_def list_ex_iff)
  then show ?case by (simp add: Cons.IH)
qed

lemma merge_fold_all_duplicates:
  "(\<forall>c \<in> set cs. identity c \<in> set (map identity (existingPasswords st))) \<Longrightarrow>
     foldl merge_step st cs = st\<lparr>duplicateCount := duplicateCount st + length cs\<rparr>"
proof (induction cs arbitrary: st)
  case Nil
  then show ?case by simp
next
  case (Cons c cs)
  then have "merge_step st c = st\<lparr>duplicateCount := Suc (duplicateCount st)\<rparr>"
    by (simp add: merge_step_def isDuplicate_iff)
  with Cons show ?case by simp
qed

lemma merge_fold_all_new:
  "distinct_identities (existingPasswords st @ cs) \<Longrightarrow>
     foldl merge_step st cs
       = st\<lparr>existingPasswords := existingPasswords st @ cs, addedCount := addedCount st + length cs\<rparr>"
proof (induction cs arbitrary: st)
  case Nil
  then show ?case by simp
next
  case (Cons c cs)
  then have "\<not> isDuplicate (existingPasswords st) c"
    by (auto simp: distinct_identities_def isDuplicate_iff)
  then have "merge_step st c
               = st\<lparr>existingPasswords := existingPasswords st @ [c], addedCount := Suc (addedCount st)\<rparr>"
    by (simp add: merge_step_def)
  with Cons show ?case by simp
qed

lemma import_merge_unfold:
  "import_merge existing cs = foldl merge_step (merge_init existing) cs"
  by (simp add: import_merge_def)

text \<open>The counts of the loop: what it adds is what it appends; every candidate is counted once.\<close>

lemma import_merge_counts:
  "length (existingPasswords (import_merge s cs)) = length s + addedCount (import_merge s cs) \<and>
   addedCount (import_merge s cs) + duplicateCount (import_merge s cs) = length cs"
  using merge_fold_shape [of "merge_init s" cs] by (auto simp: import_merge_unfold merge_init_def)

lemma new_candidates_snoc:
  "new_candidates s (xs @ [c]) =
     new_candidates s xs @ (if identity c \<in> set (map identity (s @ xs)) then [] else [c])"
proof -
  have z: "zip [0..<length (xs @ [c])] (xs @ [c]) = zip [0..<length xs] xs @ [(length xs, c)]"
    by simp
  have f: "filter (\<lambda>(i, d). identity d \<notin> set (map identity (s @ take i (xs @ [c])))) (zip [0..<length xs] xs)
         = filter (\<lambda>(i, d). identity d \<notin> set (map identity (s @ take i xs))) (zip [0..<length xs] xs)"
    by (rule filter_cong) (auto dest: set_zip_leftD)
  show ?thesis
    by (simp only: new_candidates_def z filter_append f) simp
qed

lemma new_candidates_length: "length (new_candidates s cs) \<le> length cs"
  unfolding new_candidates_def length_map
  using length_filter_le [of _ "zip [0..<length cs] cs"] by simp

lemma import_merge_reference_fold:
  "foldl merge_step (merge_init s) cs = merge_reference s cs"
proof (induction cs rule: rev_induct)
  case Nil
  then show ?case by (simp add: merge_init_def merge_reference_def new_candidates_def)
next
  case (snoc c xs)
  have ids: "set (map identity (existingPasswords (foldl merge_step (merge_init s) xs)))
               = set (map identity s) \<union> set (map identity xs)"
    using merge_fold_identities [of "merge_init s" xs] by (simp add: merge_init_def)
  have dup: "isDuplicate (s @ new_candidates s xs) c \<longleftrightarrow> identity c \<in> set (map identity (s @ xs))"
    using ids snoc.IH by (simp add: isDuplicate_iff merge_reference_def)
  have le: "length (new_candidates s xs) \<le> length xs" by (rule new_candidates_length)
  have "foldl merge_step (merge_init s) (xs @ [c]) = merge_step (merge_reference s xs) c"
    using snoc.IH by simp
  also have "\<dots> = merge_reference s (xs @ [c])"
    using dup le
    by (cases "identity c \<in> set (map identity (s @ xs))")
       (simp_all add: merge_step_def merge_reference_def new_candidates_snoc Suc_diff_le)
  finally show ?case .
qed

section \<open>Claims\<close>

text \<open>
  C1. The import loop leaves the stored array as the old array followed by a
  subsequence of the candidates (in input order), \<open>addedCount\<close> is the length of that
  subsequence and \<open>duplicateCount\<close> the number of the other candidates.
\<close>

theorem import_merge_shape:
  "\<exists>added. existingPasswords (import_merge s cs) = s @ added \<and> subseq added cs \<and>
      addedCount (import_merge s cs) = length added \<and>
      duplicateCount (import_merge s cs) = length cs - length added"
proof -
  obtain added where "existingPasswords (import_merge s cs) = s @ added" "subseq added cs"
    "addedCount (import_merge s cs) = length added"
    "duplicateCount (import_merge s cs) + length added = length cs"
    using merge_fold_shape [of "merge_init s" cs] by (auto simp: import_merge_unfold merge_init_def)
  then show ?thesis
    by (intro exI [of _ added]) simp
qed

text \<open>
  C2. Abstractly, the import adds identities: the set of lower-cased (site, user)
  pairs of the stored array after the import is the union of the pairs before and the
  pairs of the candidates.
\<close>

theorem import_merge_identities:
  "set (map identity (existingPasswords (import_merge s cs)))
     = set (map identity s) \<union> set (map identity cs)"
  using merge_fold_identities [of "merge_init s" cs] by (simp add: import_merge_unfold merge_init_def)

text \<open>
  C3. The import keeps the store free of duplicate identities: if no two stored records
  share a case-insensitive (site, user) pair, none do after the import, whatever the
  candidates (also when they repeat each other).
\<close>

theorem import_merge_keeps_distinct:
  "distinct_identities s \<Longrightarrow> distinct_identities (existingPasswords (import_merge s cs))"
  using merge_fold_distinct [of "merge_init s" cs] by (simp add: import_merge_unfold merge_init_def)

theorem import_merge_keeps_distinct_witness:
  "distinct_identities [\<lparr>site = ''a.com'', user = ''ann'', pass = ''1''\<rparr>] \<and>
   existingPasswords (import_merge [\<lparr>site = ''a.com'', user = ''ann'', pass = ''1''\<rparr>]
       [\<lparr>site = ''A.com'', user = ''Ann'', pass = ''2''\<rparr>, \<lparr>site = ''b.com'', user = ''bo'', pass = ''3''\<rparr>,
        \<lparr>site = ''b.com'', user = ''BO'', pass = ''4''\<rparr>])
     = [\<lparr>site = ''a.com'', user = ''ann'', pass = ''1''\<rparr>, \<lparr>site = ''b.com'', user = ''bo'', pass = ''3''\<rparr>] \<and>
   distinct_identities (existingPasswords (import_merge [\<lparr>site = ''a.com'', user = ''ann'', pass = ''1''\<rparr>]
       [\<lparr>site = ''A.com'', user = ''Ann'', pass = ''2''\<rparr>, \<lparr>site = ''b.com'', user = ''bo'', pass = ''3''\<rparr>,
        \<lparr>site = ''b.com'', user = ''BO'', pass = ''4''\<rparr>]))"
proof -
  have d: "distinct_identities [\<lparr>site = ''a.com'', user = ''ann'', pass = ''1''\<rparr>]"
    by (simp add: distinct_identities_def)
  show ?thesis
    using import_merge_keeps_distinct [OF d]
    by (simp add: d import_merge_def merge_init_def merge_step_def isDuplicate_def same_identity_def
                  distinct_identities_def identity_def js_toLowerCase_def js_lower_char_def js_eval)
qed

text \<open>
  C4. Importing the same candidates a second time adds nothing: the stored array is
  unchanged, \<open>addedCount\<close> is 0 and every candidate counts as a duplicate.
\<close>

theorem import_merge_twice:
  "import_merge (existingPasswords (import_merge s cs)) cs
     = \<lparr>existingPasswords = existingPasswords (import_merge s cs), addedCount = 0,
        duplicateCount = length cs\<rparr>"
proof -
  let ?r = "existingPasswords (import_merge s cs)"
  have "\<forall>c \<in> set cs. identity c \<in> set (map identity ?r)"
    using merge_fold_identities [of "merge_init s" cs] by (simp add: import_merge_unfold merge_init_def)
  then show ?thesis
    using merge_fold_all_duplicates [of cs "merge_init ?r"]
    by (simp add: import_merge_unfold merge_init_def)
qed

text \<open>
  The duplicate test ignores case in both fields: a candidate
  \<open>{site: "Example.com", user: "Bob"}\<close> is a duplicate of the stored
  \<open>{site: "example.com", user: "bob"}\<close>, and the stored password is kept.
\<close>

theorem import_merge_case_insensitive:
  "import_merge [\<lparr>site = ''example.com'', user = ''bob'', pass = ''old''\<rparr>]
                [\<lparr>site = ''Example.com'', user = ''Bob'', pass = ''new''\<rparr>]
     = \<lparr>existingPasswords = [\<lparr>site = ''example.com'', user = ''bob'', pass = ''old''\<rparr>],
        addedCount = 0, duplicateCount = 1\<rparr>"
  by (simp add: import_merge_def merge_init_def merge_step_def isDuplicate_def same_identity_def
                js_toLowerCase_def js_lower_char_def js_eval)

text \<open>
  C14. Candidates whose identities are pairwise distinct and new to the store are all
  added, in order, and nothing counts as a duplicate.
\<close>

theorem import_merge_fresh:
  "distinct_identities (s @ cs) \<Longrightarrow>
     import_merge s cs = \<lparr>existingPasswords = s @ cs, addedCount = length cs, duplicateCount = 0\<rparr>"
  using merge_fold_all_new [of "merge_init s" cs] by (simp add: import_merge_unfold merge_init_def)

theorem import_merge_fresh_witness:
  "distinct_identities ([\<lparr>site = ''a.com'', user = ''ann'', pass = ''1''\<rparr>] @
                        [\<lparr>site = ''b.com'', user = ''bo'', pass = ''2''\<rparr>]) \<and>
   import_merge [\<lparr>site = ''a.com'', user = ''ann'', pass = ''1''\<rparr>] [\<lparr>site = ''b.com'', user = ''bo'', pass = ''2''\<rparr>]
     = \<lparr>existingPasswords = [\<lparr>site = ''a.com'', user = ''ann'', pass = ''1''\<rparr>,
                             \<lparr>site = ''b.com'', user = ''bo'', pass = ''2''\<rparr>],
        addedCount = 1, duplicateCount = 0\<rparr>"
proof -
  have d: "distinct_identities ([\<lparr>site = ''a.com'', user = ''ann'', pass = ''1''\<rparr>] @
                                [\<lparr>site = ''b.com'', user = ''bo'', pass = ''2''\<rparr>])"
    by (simp add: distinct_identities_def identity_def js_toLowerCase_def js_lower_char_def js_eval)
  show ?thesis
    using import_merge_fresh [OF d] d by simp
qed

text \<open>
  C13. The import loop meets its declarative specification: the array it writes is the
  stored array followed by exactly those candidates whose case-insensitive identity
  (lower-cased site and user) is neither stored nor that of an earlier candidate, in
  file order; \<open>addedCount\<close> is their number and \<open>duplicateCount\<close> the number of the
  others.
\<close>

theorem import_merge_spec: "import_merge existing importedData = merge_reference existing importedData"
  by (simp add: import_merge_def import_merge_reference_fold)

end
