(* ===== verification/JsNumber.thy ===== *)
theory JsNumber
  imports PasswordRecord
begin

text \<open>
  Numbers as text: the decimal digits of \<open>String(n)\<close> (\<open>js_nat_toString\<close>, in
  PasswordRecord) read back, hexadecimal digits, and \<open>parseInt(string)\<close> with no
  radix, which \<open>options.js\<close> applies to the \<open>data-idx\<close> attribute of a row's
  buttons (lines 240 and 257). A string with no digit where digits are expected gives
  \<open>NaN\<close>, here \<open>None\<close>.
\<close>

definition is_digit :: "char \<Rightarrow> bool" where
  "is_digit c \<longleftrightarrow> 48 \<le> (of_char c :: nat) \<and> (of_char c :: nat) \<le> 57"

definition hex_val :: "char \<Rightarrow> nat option" where
  "hex_val c =
     (if is_digit c then Some (of_char c - 48)
      else if 97 \<le> (of_char c :: nat) \<and> (of_char c :: nat) \<le> 102 then Some (of_char c - 87)
      else if 65 \<le> (of_char c :: nat) \<and> (of_char c :: nat) \<le> 70 then Some (of_char c - 55)
      else None)"

fun hex_acc :: "nat \<Rightarrow> js_string \<Rightarrow> nat option" where
  "hex_acc a [] = Some a"
| "hex_acc a (c # cs) = (case hex_val c of None \<Rightarrow> None | Some d \<Rightarrow> hex_acc (16 * a + d) cs)"

definition digits_val :: "js_string \<Rightarrow> nat" where
  "digits_val ds = foldl (\<lambda>a c. 10 * a + (of_char c - 48)) 0 ds"

text \<open>
  \<open>parseInt(string)\<close>: leading white space is skipped, a sign is read, a \<open>0x\<close> or
  \<open>0X\<close> prefix selects radix 16 (else radix 10), and the longest prefix of digits of
  the radix is the value.
\<close>

definition js_parseInt :: "js_string \<Rightarrow> int option" where
  "js_parseInt s =
     (let s1 = dropWhile is_js_space s;
          neg = (s1 \<noteq> [] \<and> hd s1 = CHR ''-'');
          s2 = (if s1 \<noteq> [] \<and> (hd s1 = CHR ''-'' \<or> hd s1 = CHR ''+'') then tl s1 else s1);
          hex = (take 2 s2 = ''0x'' \<or> take 2 s2 = ''0X'');
          s3 = (if hex then drop 2 s2 else s2);
          z = takeWhile (\<lambda>c. if hex then hex_val c \<noteq> None else is_digit c) s3;
          v = (if hex then foldl (\<lambda>a c. 16 * a + (case hex_val c of Some d \<Rightarrow> d | None \<Rightarrow> 0)) 0 z
               else digits_val z)
      in if z = [] then None else Some (if neg then - int v else int v))"

text \<open>
  \<open>a[k]\<close> for a string key \<open>k\<close> of an array: \<open>k\<close> names an element only when it is
  the canonical decimal text of an index (\<open>String(Number(k)) === k\<close>: digits with no
  leading zero, or \<open>0\<close>); any other key (\<open>01\<close>, \<open> 1\<close>, \<open>1.0\<close>) is not an index.
\<close>

definition js_array_index :: "js_string \<Rightarrow> nat option" where
  "js_array_index k =
     (if k \<noteq> [] \<and> list_all is_digit k \<and> (hd k = CHR ''0'' \<longrightarrow> k = ''0'') then Some (digits_val k) else None)"

section \<open>Lemmas\<close>

lemma js_nat_toString_digits:
  "js_nat_toString n \<noteq> [] \<and> list_all is_digit (js_nat_toString n) \<and>
   digits_val (js_nat_toString n) = n"
proof (induction n rule: js_nat_toString.induct)
  case (1 n)
  show ?case
  proof (cases "n < 10")
    case True
    then show ?thesis
      by (subst (1 2 3) js_nat_toString.simps) (simp add: is_digit_def digits_val_def of_char_of)
  next
    case False
    then have "js_nat_toString n = js_nat_toString (n div 10) @ [char_of (48 + n mod 10)]"
      by (subst js_nat_toString.simps) simp
    with False 1 show ?thesis
      by (simp add: is_digit_def digits_val_def of_char_of del: js_nat_toString.simps)
  qed
qed

lemma js_nat_toString_hd_zero: "hd (js_nat_toString n) = CHR ''0'' \<longleftrightarrow> n = 0"
proof (induction n rule: js_nat_toString.induct)
  case (1 n)
  show ?case
  proof (cases "n < 10")
    case True
    have "char_of (48 + n) = CHR ''0'' \<longleftrightarrow> of_char (char_of (48 + n) :: char) = (of_char (CHR ''0'') :: nat)"
      by (metis char_of_char)
    with True show ?thesis
      by (subst js_nat_toString.simps) (simp add: of_char_of)
  next
    case False
    then have "js_nat_toString n = js_nat_toString (n div 10) @ [char_of (48 + n mod 10)]"
      by (subst js_nat_toString.simps) simp
    with False 1 js_nat_toString_digits [of "n div 10"] show ?thesis
      by (simp del: js_nat_toString.simps)
  qed
qed

text \<open>The index a row's buttons carry, \<open>${idx}\<close>, is read back as an array key.\<close>

lemma js_array_index_toString: "js_array_index (js_nat_toString n) = Some n"
proof -
  have z: "hd (js_nat_toString n) = CHR ''0'' \<Longrightarrow> js_nat_toString n = ''0''"
    using js_nat_toString_hd_zero [of n] by simp
  with js_nat_toString_digits [of n] show ?thesis
    by (simp add: js_array_index_def del: js_nat_toString.simps)
qed

text \<open>Conversely, the only key naming index \<open>n\<close> is the decimal text of \<open>n\<close>.\<close>

lemma digits_val_snoc: "digits_val (xs @ [c]) = 10 * digits_val xs + (of_char c - 48)"
  by (simp add: digits_val_def)

lemma digits_fold_mono: "(a :: nat) \<le> foldl (\<lambda>a c. 10 * a + (of_char c - 48)) a cs"
proof (induction cs arbitrary: a)
  case Nil
  then show ?case by simp
next
  case (Cons c cs)
  have "a \<le> 10 * a + (of_char c - 48)" by simp
  also have "\<dots> \<le> foldl (\<lambda>a c. 10 * a + (of_char c - 48)) (10 * a + (of_char c - 48)) cs"
    by (rule Cons.IH)
  finally show ?case by simp
qed

lemma digits_val_pos:
  assumes "xs \<noteq> []" "is_digit (hd xs)" "hd xs \<noteq> CHR ''0''"
  shows "0 < digits_val xs"
proof -
  obtain c cs where xs: "xs = c # cs" using assms(1) by (cases xs) auto
  have "of_char c \<noteq> (48 :: nat)"
  proof
    assume "of_char c = (48 :: nat)"
    then have "c = char_of (48 :: nat)" by (metis char_of_char)
    with assms(3) xs show False by (simp add: js_eval)
  qed
  with assms(2) xs have "0 < (of_char c - 48 :: nat)" by (simp add: is_digit_def)
  also have "\<dots> \<le> digits_val xs"
    using digits_fold_mono [of "of_char c - 48" cs] by (simp add: xs digits_val_def)
  finally show ?thesis .
qed

lemma digit_char: "is_digit c \<Longrightarrow> char_of (48 + (of_char c - 48 :: nat)) = c"
  by (simp add: is_digit_def char_of_char)

lemma js_nat_toString_digits_val:
  "k \<noteq> [] \<Longrightarrow> list_all is_digit k \<Longrightarrow> (hd k = CHR ''0'' \<longrightarrow> k = ''0'') \<Longrightarrow>
     js_nat_toString (digits_val k) = k"
proof (induction k rule: rev_induct)
  case Nil
  then show ?case by simp
next
  case (snoc c ks)
  have c: "is_digit c" and ds: "list_all is_digit ks" using snoc.prems(2) by simp_all
  have d: "of_char c - 48 < (10 :: nat)" using c unfolding is_digit_def by arith
  show ?case
  proof (cases "ks = []")
    case True
    with d c show ?thesis by (simp add: digits_val_def digit_char)
  next
    case False
    have h0: "hd ks \<noteq> CHR ''0''"
      using snoc.prems(3) False by auto
    have hd: "is_digit (hd ks)" using ds False by (cases ks) simp_all
    have pos: "0 < digits_val ks" by (rule digits_val_pos [OF False hd h0])
    have ih: "js_nat_toString (digits_val ks) = ks"
      using snoc.IH [OF False ds] h0 by simp
    let ?n = "10 * digits_val ks + (of_char c - 48)"
    have "\<not> ?n < 10" using pos by simp
    then have "js_nat_toString ?n = js_nat_toString (?n div 10) @ [char_of (48 + ?n mod 10)]"
      by (subst js_nat_toString.simps) simp
    also have "?n div 10 = digits_val ks" using d by simp
    also have "?n mod 10 = of_char c - 48" using d by simp
    finally show ?thesis using ih c by (simp add: digits_val_snoc digit_char del: js_nat_toString.simps)
  qed
qed

lemma js_array_index_iff: "js_array_index k = Some n \<longleftrightarrow> k = js_nat_toString n"
proof
  assume "js_array_index k = Some n"
  then have "k \<noteq> []" "list_all is_digit k" "hd k = CHR ''0'' \<longrightarrow> k = ''0''" "n = digits_val k"
    by (auto simp: js_array_index_def split: if_splits)
  then show "k = js_nat_toString n" using js_nat_toString_digits_val by simp
next
  assume "k = js_nat_toString n"
  then show "js_array_index k = Some n" by (simp add: js_array_index_toString del: js_nat_toString.simps)
qed

text \<open>The index a row's buttons carry, \<open>${idx}\<close>, is read back by \<open>parseInt\<close>.\<close>

lemma js_parseInt_toString: "js_parseInt (js_nat_toString n) = Some (int n)"
proof -
  let ?s = "js_nat_toString n"
  have d: "?s \<noteq> []" "list_all is_digit ?s" "digits_val ?s = n"
    using js_nat_toString_digits by blast+
  have hd: "is_digit (hd ?s)" using d(1,2) by (cases ?s) (simp_all del: js_nat_toString.simps)
  then have ws: "dropWhile is_js_space ?s = ?s" and sg: "hd ?s \<noteq> CHR ''-'' \<and> hd ?s \<noteq> CHR ''+''"
    by (auto simp: dropWhile_idem_if_hd is_digit_def is_js_space_def simp del: js_nat_toString.simps)
  have nx: "\<not> (take 2 ?s = ''0x'' \<or> take 2 ?s = ''0X'')"
  proof
    assume "take 2 ?s = ''0x'' \<or> take 2 ?s = ''0X''"
    then have "CHR ''x'' \<in> set ?s \<or> CHR ''X'' \<in> set ?s" by (metis in_set_takeD list.set_intros)
    with d(2) show False by (auto simp: list_all_iff is_digit_def simp del: js_nat_toString.simps)
  qed
  have tw: "takeWhile is_digit ?s = ?s" using d(2) by (simp add: list_all_iff del: js_nat_toString.simps)
  show ?thesis
    using d ws sg nx tw by (simp add: js_parseInt_def Let_def del: js_nat_toString.simps takeWhile_eq_all_conv)
qed

end
