(* ===== verification/OptionsPage.thy ===== *)
theory OptionsPage
  imports JsonFormat TextFormat Merge JsNumber
begin

text \<open>
  The options page, \<open>src/options.js\<close>: its state (the \<open>passwords\<close> array of
  \<open>chrome.storage.sync\<close>, the selected file, the import button and the status line)
  and its handlers: the file input's \<open>change\<close> listener, \<open>importPasswords\<close> with
  the \<open>FileReader\<close> outcome as input, \<open>exportPasswords\<close> with the ISO date of
  \<open>new Date()\<close> as input, \<open>deletePassword\<close>, \<open>showStatus\<close> and its five-second
  timer, and the list that \<open>renderPasswords\<close> draws with \<open>escapeHtml\<close>. Each
  storage handler is a read--compute--write chain; here it is one atomic step on the
  page state (interleavings are in the theory Concurrency).
\<close>

datatype read_result = ReadOk js_string | ReadFailed

datatype import_format = FormatJson | FormatText

text \<open>Format choice by the lower-cased file name, then by content (lines 39--47).\<close>

definition select_format :: "js_string \<Rightarrow> js_string \<Rightarrow> import_format option" where
  "select_format fileName content =
     (let name = js_toLowerCase fileName
      in if js_endsWith name ''.json'' then Some FormatJson
         else if js_endsWith name ''.txt'' \<or> isTextFormat content then Some FormatText
         else None)"

text \<open>Lines 35--51: parse with the chosen parser, then refuse an empty result.\<close>

definition parse_import ::
  "json_parser \<Rightarrow> url_hostname \<Rightarrow> js_string \<Rightarrow> js_string \<Rightarrow> import_error + pw_record list" where
  "parse_import json_parse url_host fileName content =
     (let parsed = (case select_format fileName content of
                      None \<Rightarrow> Inl UnsupportedFormat
                    | Some FormatJson \<Rightarrow> parseJsonFormat json_parse content
                    | Some FormatText \<Rightarrow> Inr (parseTextFormat url_host content))
      in case parsed of
           Inl e \<Rightarrow> Inl e
         | Inr importedData \<Rightarrow> if importedData = [] then Inl NoValidPasswords else Inr importedData)"

text \<open>
  \<open>importPasswords\<close> (lines 25--99) as a function of the selected file's name, the
  reader's outcome and the stored array: the error it shows, or the merge result it
  writes back.
\<close>

definition import_pipeline ::
  "json_parser \<Rightarrow> url_hostname \<Rightarrow> js_string option \<Rightarrow> read_result \<Rightarrow> store
     \<Rightarrow> import_error + merge_state" where
  "import_pipeline json_parse url_host file rd existing =
     (case file of
        None \<Rightarrow> Inl NoFileSelected
      | Some fileName \<Rightarrow>
          (case rd of
             ReadFailed \<Rightarrow> Inl FileReadError
           | ReadOk content \<Rightarrow>
               (case parse_import json_parse url_host fileName content of
                  Inl e \<Rightarrow> Inl e
                | Inr importedData \<Rightarrow> Inr (import_merge existing importedData))))"

record options_page =
  sync_passwords :: store
  import_file :: "js_string option"
  importBtn_disabled :: bool
  import_status :: js_string
  status_class :: js_string
  status_timers :: nat
  rendered_passwords :: store

definition options_initial :: "store \<Rightarrow> options_page" where
  "options_initial s =
     \<lparr>sync_passwords = s, import_file = None, importBtn_disabled = True,
      import_status = [], status_class = [], status_timers = 0, rendered_passwords = s\<rparr>"

text \<open>\<open>showStatus\<close> (lines 281--290): set the text and class, start a timer.\<close>

definition showStatus :: "js_string \<Rightarrow> js_string \<Rightarrow> options_page \<Rightarrow> options_page" where
  "showStatus message type pg =
     pg\<lparr>import_status := message, status_class := ''status '' @ type,
        status_timers := Suc (status_timers pg)\<rparr>"

text \<open>The timer's callback: it clears whatever the status line shows now.\<close>

definition status_timeout :: "options_page \<Rightarrow> options_page" where
  "status_timeout pg =
     (if status_timers pg = 0 then pg
      else pg\<lparr>import_status := [], status_class := [], status_timers := status_timers pg - 1\<rparr>)"

text \<open>
  \<open>renderPasswords\<close> (lines 210--267) as page state: the array the list is drawn from,
  read from storage; the buttons of the list index this array. What the list shows is
  \<open>renderPasswords\<close> below.
\<close>

definition options_renderPasswords :: "options_page \<Rightarrow> options_page" where
  "options_renderPasswords pg = pg\<lparr>rendered_passwords := sync_passwords pg\<rparr>"

text \<open>The file input's \<open>change\<close> listener (lines 16--19).\<close>

definition file_change :: "js_string option \<Rightarrow> options_page \<Rightarrow> options_page" where
  "file_change files pg =
     pg\<lparr>import_file := files, importBtn_disabled := (files = None), import_status := []\<rparr>"

definition importPasswords ::
  "json_parser \<Rightarrow> url_hostname \<Rightarrow> read_result \<Rightarrow> bool \<Rightarrow> options_page \<Rightarrow> options_page" where
  "importPasswords json_parse url_host rd written pg =
     (case import_pipeline json_parse url_host (import_file pg) rd (sync_passwords pg) of
        Inl e \<Rightarrow> showStatus (status_text e) ''error'' pg
      | Inr st \<Rightarrow>
          (options_renderPasswords
             (showStatus (import_message (addedCount st) (duplicateCount st)) ''success''
                (pg\<lparr>sync_passwords := storage_set written (sync_passwords pg) (existingPasswords st)\<rparr>)))
            \<lparr>import_file := None, importBtn_disabled := True\<rparr>)"

text \<open>
  \<open>exportPasswords\<close> (lines 181--208): the download it starts (file name and the
  value given to \<open>JSON.stringify\<close>), or none. The file name takes the date part of
  \<open>toISOString()\<close>, \<open>split('T')[0]\<close>.
\<close>

definition export_filename :: "js_string \<Rightarrow> js_string" where
  "export_filename isoDate = ''senhas_backup_'' @ hd (js_split isoDate ''T'') @ ''.json''"

definition exportPasswords ::
  "js_string \<Rightarrow> options_page \<Rightarrow> options_page \<times> (js_string \<times> json) option" where
  "exportPasswords isoDate pg =
     (if sync_passwords pg = [] then (showStatus (status_text NothingToExport) ''error'' pg, None)
      else (showStatus (js_nat_toString (length (sync_passwords pg)) @ '' senhas exportadas com sucesso.'')
              ''success'' pg,
            Some (export_filename isoDate, store_json (sync_passwords pg))))"

text \<open>\<open>passwords.splice(index, 1)\<close>: removes the element at \<open>index\<close>, if there is one.\<close>

definition js_splice1 :: "'a list \<Rightarrow> nat \<Rightarrow> 'a list" where
  "js_splice1 xs index = take index xs @ drop (Suc index) xs"

definition deletePassword :: "nat \<Rightarrow> bool \<Rightarrow> options_page \<Rightarrow> options_page" where
  "deletePassword index written pg =
     options_renderPasswords
       (showStatus (''Senha exclu'' @ [CHR 0xED] @ ''da com sucesso.'') ''success''
          (pg\<lparr>sync_passwords := storage_set written (sync_passwords pg) (js_splice1 (sync_passwords pg) index)\<rparr>))"

text \<open>
  \<open>escapeHtml\<close> (lines 292--296): the HTML serialisation of a text node escapes
  \<open>&\<close>, NO-BREAK SPACE, \<open><\<close> and \<open>>\<close>.
\<close>

fun html_escape_char :: "char \<Rightarrow> js_string" where
  "html_escape_char c =
     (if c = CHR ''&'' then ''&amp;''
      else if c = CHR 0xA0 then ''&nbsp;''
      else if c = CHR ''<'' then ''&lt;''
      else if c = CHR ''>'' then ''&gt;''
      else [c])"

definition escapeHtml :: "js_string \<Rightarrow> js_string" where
  "escapeHtml text = concat (map html_escape_char text)"

text \<open>
  What the browser shows for such a text in \<open>innerHTML\<close>: the HTML tokenizer's data
  state turns the character references \<open>escapeHtml\<close> emits back into their
  characters. On a text with no \<open><\<close> and no other \<open>&\<close> this is the tokenizer's
  whole effect; other references are left as they are here.
\<close>

fun html_text_decode :: "js_string \<Rightarrow> js_string" where
  "html_text_decode [] = []"
| "html_text_decode (c # cs) =
     (if c = CHR ''&'' \<and> take 4 cs = ''amp;'' then CHR ''&'' # html_text_decode (drop 4 cs)
      else if c = CHR ''&'' \<and> take 5 cs = ''nbsp;'' then CHR 0xA0 # html_text_decode (drop 5 cs)
      else if c = CHR ''&'' \<and> take 3 cs = ''lt;'' then CHR ''<'' # html_text_decode (drop 3 cs)
      else if c = CHR ''&'' \<and> take 3 cs = ''gt;'' then CHR ''>'' # html_text_decode (drop 3 cs)
      else c # html_text_decode cs)"

text \<open>What \<open>renderPasswords\<close> (lines 210--267) draws: a notice, or one row per record
  with the escaped site and user and the \<open>data-idx\<close> text its buttons carry
  (\<open>${idx}\<close>, the decimal digits of the row index).\<close>

datatype options_view = NoPasswordsNotice | PasswordRows "(js_string \<times> js_string \<times> js_string) list"

definition renderPasswords :: "store \<Rightarrow> options_view" where
  "renderPasswords s =
     (if s = [] then NoPasswordsNotice
      else PasswordRows (map (\<lambda>(item, idx). (escapeHtml (site item), escapeHtml (user item), js_nat_toString idx))
                           (zip s [0..<length s])))"

text \<open>
  A button's click reads its row back with \<open>parseInt(this.getAttribute('data-idx'))\<close>
  (lines 240 and 257) and indexes the snapshot the list was drawn from
  (\<open>data.passwords[idx]\<close>): \<open>undefined\<close>, here \<open>None\<close>, unless the number is
  an index of the snapshot.
\<close>

definition row_index :: "store \<Rightarrow> js_string \<Rightarrow> nat option" where
  "row_index snapshot attr =
     (case js_parseInt attr of
        None \<Rightarrow> None
      | Some i \<Rightarrow> if 0 \<le> i \<and> nat i < length snapshot then Some (nat i) else None)"

text \<open>The password a copy button copies (lines 240--242).\<close>

definition copy_password :: "store \<Rightarrow> js_string \<Rightarrow> js_string option" where
  "copy_password snapshot attr = map_option (\<lambda>idx. pass (snapshot ! idx)) (row_index snapshot attr)"

text \<open>
  A click on a copy button (lines 238--253): the password is written to the clipboard;
  when the write fails (\<open>clip_ok\<close> false) the status line shows an error. Reading
  \<open>.pass\<close> of \<open>undefined\<close> throws before anything happens. The button's own
  "Copiado!" label is not page state.
\<close>

definition copy_click :: "js_string \<Rightarrow> bool \<Rightarrow> options_page \<Rightarrow> options_page" where
  "copy_click attr clip_ok pg =
     (if copy_password (rendered_passwords pg) attr \<noteq> None \<and> \<not> clip_ok
      then showStatus ''Erro ao copiar senha.'' ''error'' pg else pg)"

text \<open>
  A click on a delete button (lines 256--263): the \<open>confirm\<close> question names the
  site of the row of the snapshot; \<open>None\<close> when there is no such row (reading
  \<open>password.site\<close> would throw). A confirmed click calls \<open>deletePassword idx\<close>,
  which splices \<open>idx\<close> of a fresh read of the store.
\<close>

definition delete_prompt :: "store \<Rightarrow> js_string \<Rightarrow> js_string option" where
  "delete_prompt snapshot attr =
     map_option (\<lambda>idx. ''Tem certeza que deseja excluir a senha para '' @ site (snapshot ! idx) @ ''?'')
       (row_index snapshot attr)"

definition delete_click :: "js_string \<Rightarrow> bool \<Rightarrow> bool \<Rightarrow> options_page \<Rightarrow> options_page" where
  "delete_click attr ok written pg =
     (case row_index (rendered_passwords pg) attr of
        None \<Rightarrow> pg
      | Some idx \<Rightarrow> if ok then deletePassword idx written pg else pg)"

text \<open>The invariant of the options store: well-formed records, distinct identities.\<close>

definition options_store_ok :: "store \<Rightarrow> bool" where
  "options_store_ok s \<longleftrightarrow> list_all normal_record s \<and> distinct_identities s"

text \<open>
  How many records a file can give: at most one per non-blank \<open>---\<close> piece of a text
  file, at most one per element of a JSON array.
\<close>

definition import_entry_count :: "json_parser \<Rightarrow> js_string \<Rightarrow> js_string \<Rightarrow> nat" where
  "import_entry_count json_parse fileName content =
     (case select_format fileName content of
        Some FormatText \<Rightarrow> length (text_entries content)
      | _ \<Rightarrow> (case json_parse content of Inr (JArray items) \<Rightarrow> length items | _ \<Rightarrow> 0))"

text \<open>
  One user action or timer on the options page and the handler it runs: the listeners
  of \<open>setupEventListeners\<close> (lines 14--23), the list's buttons (lines 236--265) and
  the status timer (lines 286--289).
\<close>

datatype options_event =
    OptionsFileChange "js_string option"
  | OptionsImport read_result bool
  | OptionsExport js_string
  | OptionsDelete js_string bool bool
  | OptionsCopy js_string bool
  | OptionsStatusTimeout

fun options_handle :: "json_parser \<Rightarrow> url_hostname \<Rightarrow> options_event \<Rightarrow> options_page \<Rightarrow> options_page" where
  "options_handle jp uh (OptionsFileChange f) pg = file_change f pg"
| "options_handle jp uh (OptionsImport rd written) pg = importPasswords jp uh rd written pg"
| "options_handle jp uh (OptionsExport isoDate) pg = fst (exportPasswords isoDate pg)"
| "options_handle jp uh (OptionsDelete attr ok written) pg = delete_click attr ok written pg"
| "options_handle jp uh (OptionsCopy attr ok) pg = copy_click attr ok pg"
| "options_handle jp uh OptionsStatusTimeout pg = status_timeout pg"

text \<open>The status line is blank whenever no \<open>showStatus\<close> timer is pending.\<close>

definition status_idle :: "options_page \<Rightarrow> bool" where
  "status_idle pg \<longleftrightarrow> status_timers pg = 0 \<longrightarrow> import_status pg = [] \<and> status_class pg = []"

section \<open>Properties\<close>

lemma copy_click_store [simp]: "sync_passwords (copy_click idx clip_ok pg) = sync_passwords pg"
  by (simp add: copy_click_def showStatus_def)

lemma import_merge_set:
  "set (existingPasswords (import_merge s cs)) \<subseteq> set s \<union> set cs"
proof -
  obtain added where "existingPasswords (import_merge s cs) = s @ added" "subseq added cs"
    using merge_fold_shape [of "merge_init s" cs] by (auto simp: import_merge_def merge_init_def)
  then show ?thesis by (auto dest: list_emb_set)
qed


lemma parse_import_normal:
  "url_host_trimmed url_host \<Longrightarrow> parse_import json_parse url_host fileName content = Inr rs \<Longrightarrow>
     r \<in> set rs \<Longrightarrow> normal_record r"
  by (auto simp: parse_import_def Let_def parseTextFormat_normal parseJsonFormat_normal
           split: option.splits import_format.splits sum.splits if_splits)

lemma parse_import_not_Nil:
  "parse_import json_parse url_host fileName content = Inr rs \<Longrightarrow> rs \<noteq> []"
  by (auto simp: parse_import_def Let_def split: sum.splits if_splits)

lemma parse_import_length:
  "parse_import json_parse url_host fileName content = Inr rs \<Longrightarrow>
     length rs \<le> import_entry_count json_parse fileName content"
  using parseTextFormat_length [of url_host content]
  by (auto simp: parse_import_def import_entry_count_def parseJsonFormat_def json_array_records_def Let_def
           split: option.splits import_format.splits sum.splits if_splits json.splits)

lemma import_pipeline_Inr:
  "import_pipeline json_parse url_host file rd existing = Inr st \<Longrightarrow>
     \<exists>fileName content rs. file = Some fileName \<and> rd = ReadOk content \<and>
        parse_import json_parse url_host fileName content = Inr rs \<and> st = import_merge existing rs"
  by (auto simp: import_pipeline_def split: option.splits read_result.splits sum.splits)

lemma importPasswords_store:
  "sync_passwords (importPasswords json_parse url_host rd written pg)
     = (case import_pipeline json_parse url_host (import_file pg) rd (sync_passwords pg) of
          Inl e \<Rightarrow> sync_passwords pg
        | Inr st \<Rightarrow> storage_set written (sync_passwords pg) (existingPasswords st))"
  by (simp add: importPasswords_def options_renderPasswords_def showStatus_def split: sum.splits)

lemma js_splice1_length:
  "index < length xs \<Longrightarrow> length (js_splice1 xs index) = length xs - 1"
  by (simp add: js_splice1_def)

lemma js_splice1_out_of_range: "length xs \<le> index \<Longrightarrow> js_splice1 xs index = xs"
  by (simp add: js_splice1_def)

lemma html_escape_char_no_angle:
  "CHR ''<'' \<notin> set (html_escape_char c) \<and> CHR ''>'' \<notin> set (html_escape_char c)"
  by auto

lemma escapeHtml_no_angle:
  "CHR ''<'' \<notin> set (escapeHtml t) \<and> CHR ''>'' \<notin> set (escapeHtml t)"
  using html_escape_char_no_angle by (auto simp: escapeHtml_def simp del: html_escape_char.simps)

lemma html_text_decode_escape_char:
  "html_text_decode (html_escape_char c @ rest) = c # html_text_decode rest"
  by (simp add: js_eval)

text \<open>The list shows exactly the text it was given.\<close>

lemma html_text_decode_escapeHtml: "html_text_decode (escapeHtml s) = s"
  by (induction s) (simp_all add: escapeHtml_def html_text_decode_escape_char del: html_escape_char.simps)

lemma renderPasswords_rows:
  "renderPasswords s = PasswordRows rows \<Longrightarrow>
     length rows = length s \<and>
     (\<forall>i < length rows. rows ! i = (escapeHtml (site (s ! i)), escapeHtml (user (s ! i)), js_nat_toString i))"
  by (auto simp: renderPasswords_def split: if_splits simp del: js_nat_toString.simps)

lemma row_index_toString: "i < length s \<Longrightarrow> row_index s (js_nat_toString i) = Some i"
  by (simp add: row_index_def js_parseInt_toString del: js_nat_toString.simps)

lemma status_timeout_funpow:
  "n \<le> status_timers pg \<Longrightarrow>
   status_timers ((status_timeout ^^ n) pg) = status_timers pg - n \<and>
   (0 < n \<longrightarrow> import_status ((status_timeout ^^ n) pg) = [] \<and>
                status_class ((status_timeout ^^ n) pg) = [])"
proof (induction n)
  case 0
  then show ?case by simp
next
  case (Suc n)
  then show ?case by (auto simp: status_timeout_def)
qed

lemma options_store_ok_import:
  assumes "url_host_trimmed uh" "options_store_ok (sync_passwords pg)"
  shows "options_store_ok (sync_passwords (importPasswords jp uh rd written pg))"
proof (cases "import_pipeline jp uh (import_file pg) rd (sync_passwords pg)")
  case (Inl e)
  with assms(2) show ?thesis by (simp add: importPasswords_store)
next
  case (Inr st)
  then obtain n c rs where rs: "parse_import jp uh n c = Inr rs"
    and st: "st = import_merge (sync_passwords pg) rs"
    by (blast dest: import_pipeline_Inr)
  have "list_all normal_record (existingPasswords st)"
    using import_merge_set [of "sync_passwords pg" rs] parse_import_normal [OF assms(1) rs] assms(2)
    by (auto simp: st options_store_ok_def list_all_iff)
  moreover have "distinct_identities (existingPasswords st)"
    using assms(2) merge_fold_distinct [of "merge_init (sync_passwords pg)" rs]
    by (simp add: st options_store_ok_def import_merge_def merge_init_def)
  ultimately have "options_store_ok (existingPasswords st)" by (simp add: options_store_ok_def)
  with assms(2) Inr show ?thesis by (simp add: importPasswords_store storage_set_inv)
qed

lemma options_store_ok_splice:
  "options_store_ok s \<Longrightarrow> options_store_ok (js_splice1 s idx)"
  by (auto simp: options_store_ok_def js_splice1_def list_all_iff
           dest: in_set_takeD in_set_dropD intro: distinct_identities_take_drop)

lemma options_store_ok_delete:
  "options_store_ok (sync_passwords pg) \<Longrightarrow> options_store_ok (sync_passwords (deletePassword idx written pg))"
  by (simp add: deletePassword_def options_renderPasswords_def showStatus_def options_store_ok_splice storage_set_inv)

lemma status_idle_showStatus [simp]: "status_idle (showStatus message type pg)"
  by (simp add: status_idle_def showStatus_def)

text \<open>The page-level invariants every handler keeps.\<close>

lemma options_handle_store_ok:
  "url_host_trimmed uh \<Longrightarrow> options_store_ok (sync_passwords pg) \<Longrightarrow>
     options_store_ok (sync_passwords (options_handle jp uh e pg))"
  by (cases e)
     (auto simp: options_store_ok_import options_store_ok_delete file_change_def showStatus_def
                 delete_click_def exportPasswords_def status_timeout_def split: option.splits)

lemma options_handle_status_idle:
  assumes idle: "status_idle pg"
  shows "status_idle (options_handle jp uh e pg)"
  using idle
proof (cases e)
  case (OptionsImport rd written)
  then show ?thesis
    by (simp add: importPasswords_def options_renderPasswords_def status_idle_def showStatus_def split: sum.splits)
next
  case (OptionsExport isoDate)
  then show ?thesis by (simp add: exportPasswords_def)
next
  case (OptionsDelete attr ok written)
  with idle show ?thesis
    by (simp add: delete_click_def deletePassword_def options_renderPasswords_def status_idle_def showStatus_def
             split: option.splits)
next
  case OptionsStatusTimeout
  with idle show ?thesis by (simp add: status_idle_def status_timeout_def)
next
  case (OptionsCopy attr ok)
  with idle show ?thesis by (simp add: copy_click_def)
qed (simp_all add: status_idle_def file_change_def)

text \<open>No handler writes the store without redrawing the list.\<close>

lemma options_handle_fresh:
  assumes fresh: "rendered_passwords pg = sync_passwords pg"
  shows "rendered_passwords (options_handle jp uh e pg) = sync_passwords (options_handle jp uh e pg)"
  using fresh
proof (cases e)
  case (OptionsImport rd written)
  with fresh show ?thesis
    by (simp add: importPasswords_def options_renderPasswords_def showStatus_def split: sum.splits)
next
  case (OptionsDelete attr ok written)
  with fresh show ?thesis
    by (simp add: delete_click_def deletePassword_def options_renderPasswords_def showStatus_def
             split: option.splits)
qed (simp_all add: file_change_def exportPasswords_def showStatus_def copy_click_def status_timeout_def)

section \<open>Claims\<close>

text \<open>
  C19. The counts of a successful import are bounded by the file: the store grows by
  exactly the added count, and added plus duplicates (the two numbers of the success
  message) is at least one and at most the number of entries of the file (non-blank
  \<open>---\<close> pieces of a text file, elements of a JSON array).
\<close>

theorem import_counts_bounded:
  "import_pipeline json_parse url_host (Some fileName) (ReadOk content) s = Inr st \<Longrightarrow>
   length (existingPasswords st) = length s + addedCount st \<and>
   0 < addedCount st + duplicateCount st \<and>
   addedCount st + duplicateCount st \<le> import_entry_count json_parse fileName content"
proof -
  assume "import_pipeline json_parse url_host (Some fileName) (ReadOk content) s = Inr st"
  then obtain rs where p: "parse_import json_parse url_host fileName content = Inr rs"
    and st: "st = import_merge s rs"
    by (auto dest: import_pipeline_Inr)
  have "rs \<noteq> []" using p by (rule parse_import_not_Nil)
  moreover have "length rs \<le> import_entry_count json_parse fileName content"
    using p by (rule parse_import_length)
  ultimately show ?thesis
    using import_merge_counts [of s rs] st by simp
qed

theorem import_counts_bounded_witness:
  "import_pipeline (\<lambda>_. Inl []) sample_url_hostname (Some ''a.txt'')
     (ReadOk ''Website name: A\<newline>Login: b\<newline>Password: c---Website name: a\<newline>Login: B\<newline>Password: d'') []
     = Inr \<lparr>existingPasswords = [\<lparr>site = ''A'', user = ''b'', pass = ''c''\<rparr>], addedCount = 1, duplicateCount = 1\<rparr> \<and>
   2 \<le> import_entry_count (\<lambda>_. Inl []) ''a.txt''
     ''Website name: A\<newline>Login: b\<newline>Password: c---Website name: a\<newline>Login: B\<newline>Password: d''"
proof -
  have p: "import_pipeline (\<lambda>_. Inl []) sample_url_hostname (Some ''a.txt'')
     (ReadOk ''Website name: A\<newline>Login: b\<newline>Password: c---Website name: a\<newline>Login: B\<newline>Password: d'') []
     = Inr \<lparr>existingPasswords = [\<lparr>site = ''A'', user = ''b'', pass = ''c''\<rparr>], addedCount = 1, duplicateCount = 1\<rparr>"
    by (simp add: import_pipeline_def parse_import_def select_format_def js_endsWith_def
                  js_toLowerCase_def js_lower_char_def js_eval text_format_eval
                  import_merge_def merge_init_def merge_step_def isDuplicate_def same_identity_def)
  show ?thesis using import_counts_bounded [OF p] p by simp
qed

text \<open>
  C12. A refused write is reported as a success: when the \<open>set\<close> of an import is
  refused (item quota or write-rate limit), its callback still shows "N senhas
  importadas com sucesso." as a success and redraws the list, while the store, and so
  the list, are unchanged; the user is told the records were imported.
\<close>

theorem refused_write_reports_success:
  "import_pipeline json_parse url_host (import_file pg) rd (sync_passwords pg) = Inr st \<Longrightarrow>
   sync_passwords (importPasswords json_parse url_host rd False pg) = sync_passwords pg \<and>
   rendered_passwords (importPasswords json_parse url_host rd False pg) = sync_passwords pg \<and>
   import_status (importPasswords json_parse url_host rd False pg)
     = import_message (addedCount st) (duplicateCount st) \<and>
   status_class (importPasswords json_parse url_host rd False pg) = ''status success''"
  by (simp add: importPasswords_def options_renderPasswords_def showStatus_def)

theorem refused_write_reports_success_witness:
  "import_pipeline (\<lambda>_. Inl []) sample_url_hostname (Some ''a.txt'')
     (ReadOk ''Website name: A\<newline>Login: b\<newline>Password: c'') []
     = Inr \<lparr>existingPasswords = [\<lparr>site = ''A'', user = ''b'', pass = ''c''\<rparr>], addedCount = 1, duplicateCount = 0\<rparr> \<and>
   sync_passwords (importPasswords (\<lambda>_. Inl []) sample_url_hostname
     (ReadOk ''Website name: A\<newline>Login: b\<newline>Password: c'') False
     (file_change (Some ''a.txt'') (options_initial []))) = [] \<and>
   import_status (importPasswords (\<lambda>_. Inl []) sample_url_hostname
     (ReadOk ''Website name: A\<newline>Login: b\<newline>Password: c'') False
     (file_change (Some ''a.txt'') (options_initial []))) = import_message 1 0"
proof -
  have p: "import_pipeline (\<lambda>_. Inl []) sample_url_hostname (Some ''a.txt'')
     (ReadOk ''Website name: A\<newline>Login: b\<newline>Password: c'') []
     = Inr \<lparr>existingPasswords = [\<lparr>site = ''A'', user = ''b'', pass = ''c''\<rparr>], addedCount = 1, duplicateCount = 0\<rparr>"
    by (simp add: import_pipeline_def parse_import_def select_format_def js_endsWith_def
                  js_toLowerCase_def js_lower_char_def js_eval text_format_eval
                  import_merge_def merge_init_def merge_step_def isDuplicate_def)
  have pg: "import_file (file_change (Some ''a.txt'') (options_initial [])) = Some ''a.txt'' \<and>
            sync_passwords (file_change (Some ''a.txt'') (options_initial [])) = []"
    by (simp add: file_change_def options_initial_def)
  show ?thesis
    using refused_write_reports_success [of "\<lambda>_. Inl []" sample_url_hostname
            "file_change (Some ''a.txt'') (options_initial [])"] p pg
    by simp
qed

text \<open>
  C23. The format check refuses no importable text: when a file's name ends neither in
  \<open>.json\<close> nor in \<open>.txt\<close> and the content shows none of the four field markers,
  so that the import stops with "Formato de arquivo n\'ao suportado", the text parser
  would have found no record in it either.
\<close>

theorem unsupported_format_no_records:
  "select_format fileName content = None \<Longrightarrow> parseTextFormat url_host content = []"
  using parseTextFormat_isTextFormat [of url_host content]
  by (auto simp: select_format_def Let_def split: if_splits)

theorem unsupported_format_no_records_witness:
  "select_format ''export.csv'' ''site,user,pass'' = None \<and>
   parseTextFormat sample_url_hostname ''site,user,pass'' = []"
proof -
  have s: "select_format ''export.csv'' ''site,user,pass'' = None"
    by (simp add: select_format_def js_endsWith_def js_toLowerCase_def js_lower_char_def
                  isTextFormat_def js_includes_def js_startsWith_def js_eval)
  show ?thesis using unsupported_format_no_records [OF s, of sample_url_hostname] s by simp
qed

text \<open>
  C9. A file whose parse yields no record, in either format (a text file with no
  complete block, or a JSON file whose parse is the empty list), is refused before
  storage is touched: the page shows "Nenhuma senha v\'alida encontrada no arquivo" as
  an error, and the store and the file selection are unchanged.
\<close>

theorem import_refuses_empty:
  "import_file pg = Some fileName \<Longrightarrow>
   select_format fileName content = Some FormatText \<and> parseTextFormat url_host content = [] \<or>
   select_format fileName content = Some FormatJson \<and> parseJsonFormat json_parse content = Inr [] \<Longrightarrow>
   importPasswords json_parse url_host (ReadOk content) written pg
     = showStatus (status_text NoValidPasswords) ''error'' pg"
  by (auto simp add: importPasswords_def options_renderPasswords_def import_pipeline_def parse_import_def)

theorem import_refuses_empty_witness:
  "import_file (file_change (Some ''notes.txt'') (options_initial [])) = Some ''notes.txt'' \<and>
   select_format ''notes.txt'' ''Login: bob'' = Some FormatText \<and>
   parseTextFormat sample_url_hostname ''Login: bob'' = [] \<and>
   sync_passwords (importPasswords (\<lambda>_. Inl []) sample_url_hostname (ReadOk ''Login: bob'') True
                     (file_change (Some ''notes.txt'') (options_initial []))) = []"
proof -
  have f: "import_file (file_change (Some ''notes.txt'') (options_initial [])) = Some ''notes.txt''"
    by (simp add: file_change_def options_initial_def)
  have sel: "select_format ''notes.txt'' ''Login: bob'' = Some FormatText"
    by (simp add: select_format_def js_endsWith_def js_toLowerCase_def js_lower_char_def js_eval)
  have p: "parseTextFormat sample_url_hostname ''Login: bob'' = []"
    by (simp add: text_format_eval)
  show ?thesis
    using import_refuses_empty [OF f, of "''Login: bob''" sample_url_hostname "\<lambda>_. Inl []"] f sel p
    by (simp add: showStatus_def file_change_def options_initial_def)
qed

text \<open>C15. Export of an empty store starts no download and shows an error.\<close>

theorem export_empty_store:
  "sync_passwords pg = [] \<Longrightarrow>
   exportPasswords isoDate pg = (showStatus ''Nenhuma senha para exportar.'' ''error'' pg, None)"
  by (simp add: exportPasswords_def)

theorem export_empty_store_witness:
  "sync_passwords (options_initial []) = [] \<and>
   exportPasswords ''2024-05-01T00:00:00.000Z'' (options_initial [])
     = (showStatus ''Nenhuma senha para exportar.'' ''error'' (options_initial []), None)"
  using export_empty_store [of "options_initial []" "''2024-05-01T00:00:00.000Z''"]
  by (simp add: options_initial_def)

text \<open>
  C16. Export of a store of N records downloads a JSON array of N objects whose
  \<open>site\<close>, \<open>user\<close> and \<open>pass\<close> are those of the stored records, verbatim and in
  order.
\<close>

theorem export_store_verbatim:
  "sync_passwords pg \<noteq> [] \<Longrightarrow>
   \<exists>items. snd (exportPasswords isoDate pg) = Some (export_filename isoDate, JArray items) \<and>
     length items = length (sync_passwords pg) \<and>
     (\<forall>i < length items.
        js_string_prop (items ! i) ''site'' = Some (site (sync_passwords pg ! i)) \<and>
        js_string_prop (items ! i) ''user'' = Some (user (sync_passwords pg ! i)) \<and>
        js_string_prop (items ! i) ''pass'' = Some (pass (sync_passwords pg ! i)))"
  by (simp add: exportPasswords_def store_json_def)

theorem export_store_verbatim_witness:
  "sync_passwords (options_initial [\<lparr>site = ''a.com'', user = ''ann'', pass = '' p1''\<rparr>]) \<noteq> [] \<and>
   snd (exportPasswords ''2024-05-01T00:00:00.000Z'' (options_initial [\<lparr>site = ''a.com'', user = ''ann'', pass = '' p1''\<rparr>]))
     = Some (''senhas_backup_2024-05-01.json'',
             JArray [JObject [(''site'', JString ''a.com''), (''user'', JString ''ann''), (''pass'', JString '' p1'')]])"
proof -
  have ne: "sync_passwords (options_initial [\<lparr>site = ''a.com'', user = ''ann'', pass = '' p1''\<rparr>]) \<noteq> []"
    by (simp add: options_initial_def)
  obtain items where "snd (exportPasswords ''2024-05-01T00:00:00.000Z''
      (options_initial [\<lparr>site = ''a.com'', user = ''ann'', pass = '' p1''\<rparr>]))
        = Some (export_filename ''2024-05-01T00:00:00.000Z'', JArray items)"
    using export_store_verbatim [OF ne] by blast
  then show ?thesis
    using ne by (simp add: exportPasswords_def store_json_def record_json_def export_filename_def
                           js_split_def js_startsWith_def options_initial_def)
qed

text \<open>
  Deleting row \<open>idx\<close> of the store removes exactly that record: the records
  before it keep their positions, the ones after it move up by one, and the store is
  one shorter.
\<close>

theorem deletePassword_removes_row:
  "idx < length (sync_passwords pg) \<Longrightarrow>
   length (sync_passwords (deletePassword idx True pg)) = length (sync_passwords pg) - 1 \<and>
   (\<forall>j < idx. sync_passwords (deletePassword idx True pg) ! j = sync_passwords pg ! j) \<and>
   (\<forall>j. idx \<le> j \<longrightarrow> j < length (sync_passwords pg) - 1 \<longrightarrow>
          sync_passwords (deletePassword idx True pg) ! j = sync_passwords pg ! Suc j)"
  by (auto simp: deletePassword_def options_renderPasswords_def showStatus_def js_splice1_def nth_append min_def)

theorem deletePassword_removes_row_witness:
  "1 < length (sync_passwords (options_initial [\<lparr>site = ''a'', user = ''x'', pass = ''1''\<rparr>,
      \<lparr>site = ''b'', user = ''y'', pass = ''2''\<rparr>, \<lparr>site = ''c'', user = ''z'', pass = ''3''\<rparr>])) \<and>
   sync_passwords (deletePassword 1 True (options_initial [\<lparr>site = ''a'', user = ''x'', pass = ''1''\<rparr>,
      \<lparr>site = ''b'', user = ''y'', pass = ''2''\<rparr>, \<lparr>site = ''c'', user = ''z'', pass = ''3''\<rparr>]))
     = [\<lparr>site = ''a'', user = ''x'', pass = ''1''\<rparr>, \<lparr>site = ''c'', user = ''z'', pass = ''3''\<rparr>]"
  using deletePassword_removes_row [of 1 "options_initial [\<lparr>site = ''a'', user = ''x'', pass = ''1''\<rparr>,
      \<lparr>site = ''b'', user = ''y'', pass = ''2''\<rparr>, \<lparr>site = ''c'', user = ''z'', pass = ''3''\<rparr>]"]
  by (simp add: options_initial_def deletePassword_def options_renderPasswords_def showStatus_def js_splice1_def)

text \<open>
  C18. The options page's rows carry no markup from the data and show the data as it
  is: the site and user texts of every row are HTML-escaped, contain no \<open><\<close> or
  \<open>>\<close>, and the browser displays them as the site and user of a stored record.
\<close>

theorem options_rows_escaped:
  "renderPasswords s = PasswordRows rows \<Longrightarrow> (a, b, k) \<in> set rows \<Longrightarrow>
     CHR ''<'' \<notin> set a \<and> CHR ''>'' \<notin> set a \<and> CHR ''<'' \<notin> set b \<and> CHR ''>'' \<notin> set b \<and>
     (\<exists>r \<in> set s. html_text_decode a = site r \<and> html_text_decode b = user r)"
proof -
  assume r: "renderPasswords s = PasswordRows rows" and m: "(a, b, k) \<in> set rows"
  obtain i where i: "i < length rows" "rows ! i = (a, b, k)" using m by (auto simp: in_set_conv_nth)
  have len: "length rows = length s"
    and row: "rows ! i = (escapeHtml (site (s ! i)), escapeHtml (user (s ! i)), js_nat_toString i)"
    using renderPasswords_rows [OF r] i(1) by blast+
  have a: "a = escapeHtml (site (s ! i))" and b: "b = escapeHtml (user (s ! i))"
    using row i(2) by (simp_all del: js_nat_toString.simps)
  have "s ! i \<in> set s" using i(1) len by simp
  with a b show ?thesis by (auto simp: escapeHtml_no_angle html_text_decode_escapeHtml)
qed

theorem options_rows_escaped_witness:
  "renderPasswords [\<lparr>site = ''<img src=x>'', user = ''bob'', pass = ''1''\<rparr>]
     = PasswordRows [(''&lt;img src=x&gt;'', ''bob'', ''0'')] \<and>
   html_text_decode ''&lt;img src=x&gt;'' = ''<img src=x>''"
proof -
  have r: "renderPasswords [\<lparr>site = ''<img src=x>'', user = ''bob'', pass = ''1''\<rparr>]
     = PasswordRows [(''&lt;img src=x&gt;'', ''bob'', ''0'')]"
    by (simp add: renderPasswords_def escapeHtml_def js_eval)
  show ?thesis using options_rows_escaped [OF r, of "''&lt;img src=x&gt;''" "''bob''" "''0''"] r by simp
qed

text \<open>
  Format choice: a \<open>.json\<close> name in any letter case selects the JSON parser, a
  \<open>.txt\<close> name the text parser, and another name the text parser only when the
  content contains one of the four prefixes.
\<close>

theorem select_format_examples:
  "select_format ''Backup.JSON'' content = Some FormatJson \<and>
   select_format ''notes.TXT'' content = Some FormatText \<and>
   select_format ''export.csv'' ''site,user,pass'' = None \<and>
   select_format ''export.csv'' ''x Login: bob'' = Some FormatText"
  by (simp add: select_format_def js_endsWith_def js_toLowerCase_def js_lower_char_def
                isTextFormat_def js_includes_def js_startsWith_def js_eval)

text \<open>The download is named after the UTC date of \<open>toISOString()\<close>.\<close>

theorem export_filename_example:
  "export_filename ''2024-05-01T12:30:00.000Z'' = ''senhas_backup_2024-05-01.json''"
  by (simp add: export_filename_def js_split_def js_startsWith_def)

text \<open>
  C28. Row \<open>i\<close> of the options list shows the escaped site and user of record
  \<open>i\<close>, and its copy button copies that record's password.
\<close>

theorem render_copy_row:
  "renderPasswords s = PasswordRows rows \<Longrightarrow> i < length rows \<Longrightarrow>
     rows ! i = (escapeHtml (site (s ! i)), escapeHtml (user (s ! i)), js_nat_toString i) \<and>
     copy_password s (snd (snd (rows ! i))) = Some (pass (s ! i))"
proof -
  assume r: "renderPasswords s = PasswordRows rows" and i: "i < length rows"
  then have row: "rows ! i = (escapeHtml (site (s ! i)), escapeHtml (user (s ! i)), js_nat_toString i)"
    and len: "length rows = length s"
    using renderPasswords_rows by blast+
  have "row_index s (js_nat_toString i) = Some i" using i len by (simp add: row_index_toString del: js_nat_toString.simps)
  with row show ?thesis by (simp add: copy_password_def)
qed

theorem render_copy_row_witness:
  "renderPasswords [\<lparr>site = ''a'', user = ''x'', pass = ''1''\<rparr>, \<lparr>site = ''b'', user = ''y'', pass = ''2''\<rparr>]
     = PasswordRows [(''a'', ''x'', ''0''), (''b'', ''y'', ''1'')] \<and>
   copy_password [\<lparr>site = ''a'', user = ''x'', pass = ''1''\<rparr>, \<lparr>site = ''b'', user = ''y'', pass = ''2''\<rparr>] ''1''
     = Some ''2''"
proof -
  have r: "renderPasswords [\<lparr>site = ''a'', user = ''x'', pass = ''1''\<rparr>, \<lparr>site = ''b'', user = ''y'', pass = ''2''\<rparr>]
     = PasswordRows [(''a'', ''x'', ''0''), (''b'', ''y'', ''1'')]"
    by (simp add: renderPasswords_def escapeHtml_def upt_rec js_eval)
  have "1 < length [(''a'', ''x'', ''0''), (''b'', ''y'', ''1'')]" by simp
  from conjunct2 [OF render_copy_row [OF r this]] r show ?thesis by simp
qed

text \<open>
  C31. Status timer race: every \<open>showStatus\<close> starts its own five-second timer that
  blanks whatever the status line shows when it fires. If a timer is still pending when
  a new message is shown, the next timer to fire (started earlier, with the same delay)
  blanks the new message, while the new message's own timer is still pending: the
  message is shown for less than its five seconds.
\<close>

theorem status_cleared_early:
  "0 < status_timers pg \<Longrightarrow>
   import_status (status_timeout (showStatus message type pg)) = [] \<and>
   status_class (status_timeout (showStatus message type pg)) = [] \<and>
   status_timers (status_timeout (showStatus message type pg)) = status_timers pg"
  by (simp add: status_timeout_def showStatus_def)

theorem status_cleared_early_witness:
  "0 < status_timers (showStatus ''a'' ''error'' (options_initial [])) \<and>
   import_status (status_timeout (showStatus ''b'' ''success'' (showStatus ''a'' ''error'' (options_initial [])))) = [] \<and>
   status_timers (status_timeout (showStatus ''b'' ''success'' (showStatus ''a'' ''error'' (options_initial [])))) = 1"
  using status_cleared_early [of "showStatus ''a'' ''error'' (options_initial [])" "''b''" "''success''"]
  by (simp add: showStatus_def options_initial_def)

text \<open>
  Stale delete index: the delete button carries the row index of the array the
  list was drawn from, and \<open>deletePassword\<close> splices that index of a fresh read. When
  the store changed after the list was drawn and the page was not redrawn (here a
  sync from another device, or a second options tab, removed \<open>a.com\<close>; the page
  has no \<open>chrome.storage.onChanged\<close> listener), confirming the deletion of
  \<open>a.com\<close> in row 0 deletes \<open>b.com\<close>.
\<close>

theorem stale_delete_index:
  "renderPasswords (rendered_passwords ((options_initial [\<lparr>site = ''a.com'', user = ''ann'', pass = ''1''\<rparr>,
       \<lparr>site = ''b.com'', user = ''bob'', pass = ''2''\<rparr>])\<lparr>sync_passwords := [\<lparr>site = ''b.com'', user = ''bob'', pass = ''2''\<rparr>]\<rparr>))
     = PasswordRows [(''a.com'', ''ann'', ''0''), (''b.com'', ''bob'', ''1'')] \<and>
   delete_prompt (rendered_passwords ((options_initial [\<lparr>site = ''a.com'', user = ''ann'', pass = ''1''\<rparr>,
       \<lparr>site = ''b.com'', user = ''bob'', pass = ''2''\<rparr>])\<lparr>sync_passwords := [\<lparr>site = ''b.com'', user = ''bob'', pass = ''2''\<rparr>]\<rparr>)) ''0''
     = Some ''Tem certeza que deseja excluir a senha para a.com?'' \<and>
   sync_passwords (delete_click ''0'' True True ((options_initial [\<lparr>site = ''a.com'', user = ''ann'', pass = ''1''\<rparr>,
       \<lparr>site = ''b.com'', user = ''bob'', pass = ''2''\<rparr>])\<lparr>sync_passwords := [\<lparr>site = ''b.com'', user = ''bob'', pass = ''2''\<rparr>]\<rparr>)) = []"
  by (simp add: renderPasswords_def escapeHtml_def delete_prompt_def delete_click_def deletePassword_def
                options_renderPasswords_def showStatus_def js_splice1_def options_initial_def row_index_def
                js_parseInt_def Let_def is_js_space_def is_digit_def digits_val_def js_eval upt_rec)

end
