(* ===== verification/Popup.thy ===== *)
theory Popup
  imports OptionsPage
begin

text \<open>
  The popup, \<open>src/popup.js\<close>: its state (the \<open>passwords\<close> array of
  \<open>chrome.storage.local\<close>, the module variables \<open>allPasswords\<close> and
  \<open>currentSearch\<close>, the import controls and the status line) and its handlers: the
  add button with its three \<open>prompt\<close> results (\<open>None\<close> when cancelled),
  \<open>renderPasswords\<close>, the search box, \<open>showPasswordsFiltered\<close> with the row HTML
  it writes and the copy button of each row, and the file import, whose body is the
  same code as the options page's (\<open>import_pipeline\<close>) on the local partition.
\<close>

record popup_page =
  local_passwords :: store
  allPasswords :: store
  currentSearch :: js_string
  popup_file :: "js_string option"
  popupImportBtn_disabled :: bool
  popup_status :: js_string
  popup_status_type :: js_string
  popup_timers :: nat

definition popup_initial :: "store \<Rightarrow> popup_page" where
  "popup_initial s =
     \<lparr>local_passwords = s, allPasswords = s, currentSearch = [], popup_file = None,
      popupImportBtn_disabled = True, popup_status = [], popup_status_type = [], popup_timers = 0\<rparr>"

text \<open>\<open>renderPasswords\<close> (lines 19--24): reload \<open>allPasswords\<close> from storage.\<close>

definition popup_renderPasswords :: "popup_page \<Rightarrow> popup_page" where
  "popup_renderPasswords pg = pg\<lparr>allPasswords := local_passwords pg\<rparr>"

text \<open>
  The add button's prompts (lines 2--5): the record the click would store, when all
  three prompts were answered with non-empty text (\<open>site && user && pass\<close>; a
  cancelled prompt returns \<open>null\<close>, modelled as \<open>None\<close>).
\<close>

definition add_input :: "js_string option \<Rightarrow> js_string option \<Rightarrow> js_string option \<Rightarrow> pw_record option" where
  "add_input site_in user_in pass_in =
     (case (site_in, user_in, pass_in) of
        (Some s, Some u, Some p) \<Rightarrow>
          if s \<noteq> [] \<and> u \<noteq> [] \<and> p \<noteq> [] then Some \<lparr>site = s, user = u, pass = p\<rparr> else None
      | _ \<Rightarrow> None)"

text \<open>
  The add button (lines 1--14): the record is appended as typed (no trim, no duplicate
  check) to the array read back from storage, and the list is redrawn.
\<close>

definition add_password ::
  "js_string option \<Rightarrow> js_string option \<Rightarrow> js_string option \<Rightarrow> bool \<Rightarrow> popup_page \<Rightarrow> popup_page" where
  "add_password site_in user_in pass_in written pg =
     (case add_input site_in user_in pass_in of
        Some r \<Rightarrow>
          popup_renderPasswords
            (pg\<lparr>local_passwords := storage_set written (local_passwords pg) (local_passwords pg @ [r])\<rparr>)
      | None \<Rightarrow> pg)"

text \<open>The filter of \<open>showPasswordsFiltered\<close> (lines 29--36).\<close>

definition popup_filtered :: "store \<Rightarrow> js_string \<Rightarrow> store" where
  "popup_filtered all search_text =
     (let search = js_toLowerCase (js_trim search_text)
      in if search \<noteq> []
         then filter (\<lambda>item. js_includes (js_toLowerCase (site item)) search \<or>
                             js_includes (js_toLowerCase (user item)) search) all
         else all)"

text \<open>The \<open>innerHTML\<close> of one row (line 44): site and user are inserted as they are.\<close>

definition popup_row_html :: "pw_record \<Rightarrow> nat \<Rightarrow> js_string" where
  "popup_row_html item idx =
     ''<b>'' @ site item @ ''</b> | '' @ user item @ '' <button data-idx=\"'' @
     js_nat_toString idx @ ''\" class=\"copy\">Copiar</button>''"

datatype popup_view = NoMatchNotice | PopupRows "js_string list"

definition showPasswordsFiltered :: "store \<Rightarrow> js_string \<Rightarrow> popup_view" where
  "showPasswordsFiltered all search_text =
     (let filtered = popup_filtered all search_text
      in if filtered = [] then NoMatchNotice
         else PopupRows (map (\<lambda>(item, idx). popup_row_html item idx)
                           (zip filtered [0..<length filtered])))"

text \<open>
  The copy button of a row (lines 47--56): \<open>filtered[idx].pass\<close> with \<open>idx\<close> the
  \<open>data-idx\<close> attribute as a string (no \<open>parseInt\<close>), a property key of the
  \<open>filtered\<close> array the button's closure holds. A key that names no element gives
  \<open>undefined\<close>, and reading \<open>.pass\<close> of it throws: \<open>None\<close>.
\<close>

definition popup_copy :: "store \<Rightarrow> js_string \<Rightarrow> js_string \<Rightarrow> js_string option" where
  "popup_copy all search_text attr =
     (let filtered = popup_filtered all search_text
      in case js_array_index attr of
           Some idx \<Rightarrow> if idx < length filtered then Some (pass (filtered ! idx)) else None
         | None \<Rightarrow> None)"

text \<open>The search box's \<open>input\<close> listener (lines 59--65).\<close>

definition search_input :: "js_string \<Rightarrow> popup_page \<Rightarrow> popup_page" where
  "search_input v pg = pg\<lparr>currentSearch := v\<rparr>"

text \<open>\<open>showPopupStatus\<close> (lines 139--150) and its timer.\<close>

definition showPopupStatus :: "js_string \<Rightarrow> js_string \<Rightarrow> popup_page \<Rightarrow> popup_page" where
  "showPopupStatus message type pg =
     pg\<lparr>popup_status := message, popup_status_type := type, popup_timers := Suc (popup_timers pg)\<rparr>"

definition popup_status_timeout :: "popup_page \<Rightarrow> popup_page" where
  "popup_status_timeout pg =
     (if popup_timers pg = 0 then pg
      else pg\<lparr>popup_status := [], popup_status_type := [], popup_timers := popup_timers pg - 1\<rparr>)"

definition popup_file_change :: "js_string option \<Rightarrow> popup_page \<Rightarrow> popup_page" where
  "popup_file_change files pg =
     pg\<lparr>popup_file := files, popupImportBtn_disabled := (files = None), popup_status := []\<rparr>"

text \<open>The import button (lines 79--137) on \<open>chrome.storage.local\<close>.\<close>

definition popup_import ::
  "json_parser \<Rightarrow> url_hostname \<Rightarrow> read_result \<Rightarrow> bool \<Rightarrow> popup_page \<Rightarrow> popup_page" where
  "popup_import json_parse url_host rd written pg =
     (case import_pipeline json_parse url_host (popup_file pg) rd (local_passwords pg) of
        Inl e \<Rightarrow> showPopupStatus (status_text e) ''error'' pg
      | Inr st \<Rightarrow>
          (popup_renderPasswords
             (showPopupStatus (import_message (addedCount st) (duplicateCount st)) ''success''
                (pg\<lparr>local_passwords := storage_set written (local_passwords pg) (existingPasswords st)\<rparr>)))
            \<lparr>popup_file := None, popupImportBtn_disabled := True\<rparr>)"

text \<open>
  The popup's state invariant: the list it draws from is the stored array, and every
  stored record has a non-empty site, user and password (the add button checks all
  three, the import only stores parsed records).
\<close>

definition popup_ok :: "popup_page \<Rightarrow> bool" where
  "popup_ok pg \<longleftrightarrow>
     allPasswords pg = local_passwords pg \<and>
     list_all (\<lambda>r. site r \<noteq> [] \<and> user r \<noteq> [] \<and> pass r \<noteq> []) (local_passwords pg)"

text \<open>The popup's status line is blank whenever no \<open>showPopupStatus\<close> timer is pending.\<close>

definition popup_status_idle :: "popup_page \<Rightarrow> bool" where
  "popup_status_idle pg \<longleftrightarrow> popup_timers pg = 0 \<longrightarrow> popup_status pg = [] \<and> popup_status_type pg = []"

text \<open>
  One user action or timer in the popup and the handler it runs: the add button
  (line 1), the search box (lines 59--65), the file input and the import button
  (lines 73--79) and the status timer (lines 146--149).
\<close>

datatype popup_event =
    PopupAdd "js_string option" "js_string option" "js_string option" bool
  | PopupSearch js_string
  | PopupFileChange "js_string option"
  | PopupImport read_result bool
  | PopupStatusTimeout

fun popup_handle :: "json_parser \<Rightarrow> url_hostname \<Rightarrow> popup_event \<Rightarrow> popup_page \<Rightarrow> popup_page" where
  "popup_handle jp uh (PopupAdd s u p written) pg = add_password s u p written pg"
| "popup_handle jp uh (PopupSearch v) pg = search_input v pg"
| "popup_handle jp uh (PopupFileChange f) pg = popup_file_change f pg"
| "popup_handle jp uh (PopupImport rd written) pg = popup_import jp uh rd written pg"
| "popup_handle jp uh PopupStatusTimeout pg = popup_status_timeout pg"

section \<open>Properties\<close>

lemma popup_status_timeout_funpow:
  "n \<le> popup_timers pg \<Longrightarrow>
   popup_timers ((popup_status_timeout ^^ n) pg) = popup_timers pg - n \<and>
   (0 < n \<longrightarrow> popup_status ((popup_status_timeout ^^ n) pg) = [] \<and>
                popup_status_type ((popup_status_timeout ^^ n) pg) = [])"
proof (induction n)
  case 0
  then show ?case by simp
next
  case (Suc n)
  then show ?case by (auto simp: popup_status_timeout_def)
qed

lemma popup_status_idle_show [simp]: "popup_status_idle (showPopupStatus message type pg)"
  by (simp add: popup_status_idle_def showPopupStatus_def)

lemma popup_status_idle_import:
  "popup_status_idle pg \<Longrightarrow> popup_status_idle (popup_import json_parse url_host rd written pg)"
  by (simp add: popup_import_def popup_status_idle_def showPopupStatus_def popup_renderPasswords_def
           split: sum.splits)

lemma popup_ok_add: "popup_ok pg \<Longrightarrow> popup_ok (add_password s u p written pg)"
  by (auto simp: popup_ok_def add_password_def add_input_def popup_renderPasswords_def storage_set_def split: option.splits)

lemma popup_ok_local:
  "popup_ok pg \<Longrightarrow> local_passwords pg' = local_passwords pg \<Longrightarrow> allPasswords pg' = allPasswords pg \<Longrightarrow>
   popup_ok pg'"
  by (simp add: popup_ok_def)

lemma popup_ok_import:
  assumes uh: "url_host_trimmed url_host" and ok: "popup_ok pg"
  shows "popup_ok (popup_import json_parse url_host rd written pg)"
proof (cases "import_pipeline json_parse url_host (popup_file pg) rd (local_passwords pg)")
  case (Inl e)
  with ok show ?thesis by (simp add: popup_import_def showPopupStatus_def popup_ok_def)
next
  case (Inr st)
  then obtain n c rs where rs: "parse_import json_parse url_host n c = Inr rs"
    and st: "st = import_merge (local_passwords pg) rs"
    by (blast dest: import_pipeline_Inr)
  have "\<forall>r \<in> set (existingPasswords st). site r \<noteq> [] \<and> user r \<noteq> [] \<and> pass r \<noteq> []"
  proof
    fix r assume "r \<in> set (existingPasswords st)"
    then have "r \<in> set (local_passwords pg) \<or> r \<in> set rs"
      using import_merge_set [of "local_passwords pg" rs] st by blast
    then show "site r \<noteq> [] \<and> user r \<noteq> [] \<and> pass r \<noteq> []"
      using ok parse_import_normal [OF uh rs] by (auto simp: popup_ok_def list_all_iff normal_record_def)
  qed
  with Inr ok show ?thesis
    by (simp add: popup_import_def popup_renderPasswords_def showPopupStatus_def popup_ok_def list_all_iff storage_set_def)
qed

lemma popup_filtered_subseq: "subseq (popup_filtered all q) all"
  by (simp add: popup_filtered_def Let_def)

lemma popup_filtered_matches:
  "item \<in> set (popup_filtered all q) \<Longrightarrow> js_toLowerCase (js_trim q) \<noteq> [] \<Longrightarrow>
     js_includes (js_toLowerCase (site item)) (js_toLowerCase (js_trim q)) \<or>
     js_includes (js_toLowerCase (user item)) (js_toLowerCase (js_trim q))"
  by (auto simp: popup_filtered_def Let_def)

lemma popup_view_nth:
  "showPasswordsFiltered all q = PopupRows rows \<Longrightarrow> idx < length rows \<Longrightarrow>
     idx < length (popup_filtered all q) \<and>
     rows ! idx = popup_row_html (popup_filtered all q ! idx) idx"
  by (auto simp: showPasswordsFiltered_def Let_def split: if_splits)

lemma popup_view_length:
  "showPasswordsFiltered all q = PopupRows rows \<Longrightarrow> length rows = length (popup_filtered all q)"
  by (auto simp: showPasswordsFiltered_def Let_def split: if_splits)

text \<open>The popup-level invariants every handler keeps.\<close>

lemma popup_handle_ok:
  assumes uh: "url_host_trimmed uh" and ok: "popup_ok pg"
  shows "popup_ok (popup_handle jp uh e pg)"
proof (cases e)
  case (PopupAdd s u p written)
  with ok show ?thesis by (simp add: popup_ok_add)
next
  case (PopupImport rd written)
  with uh ok show ?thesis by (simp add: popup_ok_import)
next
  case (PopupSearch v)
  with ok show ?thesis by (simp add: search_input_def popup_ok_def)
next
  case (PopupFileChange f)
  with ok show ?thesis by (simp add: popup_file_change_def popup_ok_def)
next
  case PopupStatusTimeout
  with ok show ?thesis by (simp add: popup_status_timeout_def popup_ok_def)
qed

lemma popup_handle_status_idle:
  assumes idle: "popup_status_idle pg"
  shows "popup_status_idle (popup_handle jp uh e pg)"
  using idle
proof (cases e)
  case (PopupImport rd written)
  with idle show ?thesis by (simp add: popup_status_idle_import)
qed (simp_all add: add_password_def add_input_def popup_renderPasswords_def search_input_def popup_file_change_def
                   popup_status_timeout_def popup_status_idle_def split: option.splits)

section \<open>Claims\<close>

text \<open>
  The popup writes site and user into \<open>innerHTML\<close> without escaping: every
  row's HTML is \<open><b>\<close>, the site verbatim, \<open></b> | \<close>, the user verbatim, then the
  button. A site or user holding markup (from an imported file) is rendered as markup,
  unlike on the options page.
\<close>

theorem popup_row_unescaped:
  "\<exists>rest. popup_row_html item idx = ''<b>'' @ site item @ ''</b> | '' @ user item @ rest"
  by (simp add: popup_row_html_def)

text \<open>
  C20. The copy button of a row copies the password of the record drawn in that row:
  the row's \<open>data-idx\<close> text, used as a key of the filtered list, names the row's
  index there, and \<open>filtered[idx]\<close> is read, so the worry of the source comment
  (line 49) does not materialise. A key selects a row only when it is exactly the
  decimal text of one of the row indices.
\<close>

theorem popup_copy_matches_row:
  "showPasswordsFiltered all q = PopupRows rows \<Longrightarrow> idx < length rows \<Longrightarrow>
     (\<exists>item \<in> set all. rows ! idx = popup_row_html item idx \<and>
        popup_copy all q (js_nat_toString idx) = Some (pass item)) \<and>
     (popup_copy all q k \<noteq> None \<longleftrightarrow> (\<exists>i < length rows. k = js_nat_toString i))"
proof -
  assume v: "showPasswordsFiltered all q = PopupRows rows" and i: "idx < length rows"
  from popup_view_nth [OF v i] have
    lt: "idx < length (popup_filtered all q)" and
    row: "rows ! idx = popup_row_html (popup_filtered all q ! idx) idx" by auto
  have "popup_filtered all q ! idx \<in> set (popup_filtered all q)"
    using lt by simp
  then have "popup_filtered all q ! idx \<in> set all"
    by (auto simp: popup_filtered_def Let_def split: if_splits)
  with lt row have first: "\<exists>item \<in> set all. rows ! idx = popup_row_html item idx \<and>
        popup_copy all q (js_nat_toString idx) = Some (pass item)"
    by (auto simp: popup_copy_def Let_def js_array_index_toString simp del: js_nat_toString.simps)
  have "popup_copy all q k \<noteq> None \<longleftrightarrow> (\<exists>i. js_array_index k = Some i \<and> i < length rows)"
    using popup_view_length [OF v] by (auto simp: popup_copy_def Let_def split: option.splits)
  also have "\<dots> \<longleftrightarrow> (\<exists>i < length rows. k = js_nat_toString i)"
    by (auto simp: js_array_index_iff simp del: js_nat_toString.simps)
  finally show ?thesis using first by blast
qed

theorem popup_copy_matches_row_witness:
  "showPasswordsFiltered [\<lparr>site = ''a.com'', user = ''ann'', pass = ''1''\<rparr>,
                          \<lparr>site = ''b.com'', user = ''bo'', pass = ''2''\<rparr>] '' B.C''
     = PopupRows [popup_row_html \<lparr>site = ''b.com'', user = ''bo'', pass = ''2''\<rparr> 0] \<and>
   popup_copy [\<lparr>site = ''a.com'', user = ''ann'', pass = ''1''\<rparr>,
               \<lparr>site = ''b.com'', user = ''bo'', pass = ''2''\<rparr>] '' B.C'' ''0'' = Some ''2''"
proof -
  have f: "popup_filtered [\<lparr>site = ''a.com'', user = ''ann'', pass = ''1''\<rparr>,
                           \<lparr>site = ''b.com'', user = ''bo'', pass = ''2''\<rparr>] '' B.C''
             = [\<lparr>site = ''b.com'', user = ''bo'', pass = ''2''\<rparr>]"
    by (simp add: popup_filtered_def js_trim_def is_js_space_def js_toLowerCase_def js_lower_char_def
                  js_includes_def js_startsWith_def js_eval)
  have v: "showPasswordsFiltered [\<lparr>site = ''a.com'', user = ''ann'', pass = ''1''\<rparr>,
                          \<lparr>site = ''b.com'', user = ''bo'', pass = ''2''\<rparr>] '' B.C''
     = PopupRows [popup_row_html \<lparr>site = ''b.com'', user = ''bo'', pass = ''2''\<rparr> 0]"
    by (simp add: showPasswordsFiltered_def f)
  show ?thesis
    using popup_copy_matches_row [OF v, of 0] v by (auto simp: popup_row_html_def js_eval)
qed

text \<open>
  C21. The search filter keeps the order of the list and keeps exactly the records
  whose lower-cased site or user contains the trimmed, lower-cased search text; a blank
  search keeps everything.
\<close>

theorem popup_filter_sound:
  "subseq (popup_filtered all q) all \<and>
   set (popup_filtered all q) =
     {item \<in> set all. js_toLowerCase (js_trim q) = [] \<or>
        js_includes (js_toLowerCase (site item)) (js_toLowerCase (js_trim q)) \<or>
        js_includes (js_toLowerCase (user item)) (js_toLowerCase (js_trim q))}"
  by (auto simp: popup_filtered_def Let_def)

text \<open>
  C22. The popup's add button appends the record exactly as typed when all three
  prompts return non-empty text (no trimming, no duplicate check) and refreshes the
  list; any other answers (a cancelled or an empty prompt, site, user or password)
  leave the page and the store unchanged.
\<close>

theorem add_password_appends:
  "s \<noteq> [] \<Longrightarrow> u \<noteq> [] \<Longrightarrow> p \<noteq> [] \<Longrightarrow>
     local_passwords (add_password (Some s) (Some u) (Some p) True pg)
       = local_passwords pg @ [\<lparr>site = s, user = u, pass = p\<rparr>] \<and>
     allPasswords (add_password (Some s) (Some u) (Some p) True pg)
       = local_passwords pg @ [\<lparr>site = s, user = u, pass = p\<rparr>] \<and>
     (add_password site_in user_in pass_in written pg \<noteq> pg \<longrightarrow>
        (\<exists>s' u' p'. site_in = Some s' \<and> user_in = Some u' \<and> pass_in = Some p' \<and>
                    s' \<noteq> [] \<and> u' \<noteq> [] \<and> p' \<noteq> []))"
  by (auto simp add: add_password_def add_input_def popup_renderPasswords_def split: option.splits)

theorem add_password_appends_witness:
  "local_passwords (add_password (Some '' Bank '') (Some ''ann'') (Some ''pw'') True (popup_initial []))
     = [\<lparr>site = '' Bank '', user = ''ann'', pass = ''pw''\<rparr>]"
  using add_password_appends [of "'' Bank ''" "''ann''" "''pw''" "popup_initial []"]
  by (simp add: popup_initial_def)

text \<open>
  The manual add path breaks the duplicate-free convention the import keeps: on a
  store holding \<open>example.com\<close>/\<open>bob\<close>, adding \<open>Example.com\<close>/\<open>bob\<close> gives two
  records of the same identity.
\<close>

theorem add_password_breaks_distinct:
  "distinct_identities (local_passwords (popup_initial [\<lparr>site = ''example.com'', user = ''bob'', pass = ''x''\<rparr>])) \<and>
   \<not> distinct_identities (local_passwords (add_password (Some ''Example.com'') (Some ''bob'') (Some ''y'') True
        (popup_initial [\<lparr>site = ''example.com'', user = ''bob'', pass = ''x''\<rparr>])))"
  by (simp add: popup_initial_def add_password_def add_input_def popup_renderPasswords_def distinct_identities_def
                identity_def js_toLowerCase_def js_lower_char_def js_eval)

end
