(* ===== verification/Concurrency.thy ===== *)
theory Concurrency
  imports Popup
begin

text \<open>
  The asynchronous storage protocol of the handlers (spec section 5). A handler that
  changes the store calls \<open>chrome.storage.X.get\<close>; the backend answers the queued
  requests in order; the \<open>get\<close> callback computes the new array from the value it was
  given and calls \<open>set\<close>, which is queued behind the requests already waiting. The
  user can start another handler at any time, so the \<open>get\<close> of a second handler may be
  answered before the \<open>set\<close> of the first is applied. The import
  (\<open>options.js\<close> 54--75), the delete (269--274) and the popup's add
  (\<open>popup.js\<close> 6--9) follow this pattern; the parse of an import happens before its
  \<open>get\<close> and is an argument of the operation here. The lemmas show that one operation
  at a time applies exactly its \<open>op_effect\<close> (\<open>drain_issue_serial\<close>), that updates
  can be lost when two operations overlap (the last \<open>set\<close> wins), that any
  interleaving is a serial run of a subsequence of the started operations, that the
  options store's invariant and the popup's non-empty fields survive every
  interleaving of the operations the pages can start, and that \<open>drain\<close>, the
  backend run to an empty queue, terminates.
  A \<open>set\<close> at the head of the queue may also be refused (\<open>refuse\<close>: over the
  item quota or the write-rate limit); the array then stays as it was.
\<close>

datatype storage_op = OpImport "pw_record list" | OpDelete nat | OpAdd pw_record

datatype storage_request = Get storage_op | SetValue store

record storage_sys =
  stored :: store
  requests :: "storage_request list"

text \<open>What the \<open>get\<close> callback of each handler computes from the array it is given.\<close>

fun op_effect :: "storage_op \<Rightarrow> store \<Rightarrow> store" where
  "op_effect (OpImport importedData) s = existingPasswords (import_merge s importedData)"
| "op_effect (OpDelete index) s = js_splice1 s index"
| "op_effect (OpAdd r) s = s @ [r]"

text \<open>A handler starts: its \<open>get\<close> is queued.\<close>

definition issue :: "storage_op \<Rightarrow> storage_sys \<Rightarrow> storage_sys" where
  "issue op st = st\<lparr>requests := requests st @ [Get op]\<rparr>"

text \<open>
  The backend answers the first queued request: a \<open>get\<close> runs its callback, which
  queues the \<open>set\<close> of the value it computed; a \<open>set\<close> replaces the array.
\<close>

fun serve :: "storage_sys \<Rightarrow> storage_sys option" where
  "serve st =
     (case requests st of
        [] \<Rightarrow> None
      | Get op # rest \<Rightarrow> Some (st\<lparr>requests := rest @ [SetValue (op_effect op (stored st))]\<rparr>)
      | SetValue v # rest \<Rightarrow> Some \<lparr>stored = v, requests = rest\<rparr>)"

text \<open>
  The backend refuses the \<open>set\<close> at the head of the queue: the array is unchanged
  (the callback runs, with \<open>chrome.runtime.lastError\<close> set, and reads nothing).
\<close>

fun refuse :: "storage_sys \<Rightarrow> storage_sys option" where
  "refuse st =
     (case requests st of
        SetValue v # rest \<Rightarrow> Some (st\<lparr>requests := rest\<rparr>)
      | _ \<Rightarrow> None)"

fun request_weight :: "storage_request \<Rightarrow> nat" where
  "request_weight (Get op) = 2"
| "request_weight (SetValue v) = 1"

definition pending_work :: "storage_sys \<Rightarrow> nat" where
  "pending_work st = sum_list (map request_weight (requests st))"

text \<open>The backend runs until its queue is empty (no further user action).\<close>

function drain :: "storage_sys \<Rightarrow> storage_sys" where
  "drain st = (case serve st of None \<Rightarrow> st | Some st' \<Rightarrow> drain st')"
  by pat_completeness auto
termination
  by (relation "measure pending_work")
     (auto simp: pending_work_def split: list.splits storage_request.splits)

text \<open>
  The states reachable from an empty store when the user may start any operation that
  \<open>allowed\<close> admits and the backend serves requests in between.
\<close>

inductive async_reach :: "(storage_op \<Rightarrow> bool) \<Rightarrow> storage_sys \<Rightarrow> bool"
  for allowed :: "storage_op \<Rightarrow> bool" where
  init: "async_reach allowed \<lparr>stored = [], requests = []\<rparr>"
| start: "async_reach allowed st \<Longrightarrow> allowed op \<Longrightarrow> async_reach allowed (issue op st)"
| answer: "async_reach allowed st \<Longrightarrow> serve st = Some st' \<Longrightarrow> async_reach allowed st'"
| refused: "async_reach allowed st \<Longrightarrow> refuse st = Some st' \<Longrightarrow> async_reach allowed st'"

text \<open>
  The operations on \<open>chrome.storage.sync\<close>: imports of parsed records (which are
  well-formed, \<open>parse_import_normal\<close>) and deletes; the options page has no add.
\<close>

fun sync_op :: "storage_op \<Rightarrow> bool" where
  "sync_op (OpImport importedData) = list_all normal_record importedData"
| "sync_op (OpDelete index) = True"
| "sync_op (OpAdd r) = False"

text \<open>
  The operations of the popup on \<open>chrome.storage.local\<close>: adds of records whose three
  prompts were answered (non-empty, \<open>popup.js\<close> line 5) and imports of parsed records;
  the popup has no delete.
\<close>

fun popup_op :: "storage_op \<Rightarrow> bool" where
  "popup_op (OpImport importedData) = list_all normal_record importedData"
| "popup_op (OpDelete index) = False"
| "popup_op (OpAdd r) = (site r \<noteq> [] \<and> user r \<noteq> [] \<and> pass r \<noteq> [])"

text \<open>
  The operations the two pages can actually start, from their handlers' inputs. The
  popup starts an add of the record its prompts give (\<open>add_input\<close>, \<open>popup.js\<close>
  2--5) and an import of the records \<open>parse_import\<close> returns for the chosen file
  (lines 79--98); the options page starts imports the same way and deletes of any row.
  \<open>popup_op\<close> and \<open>sync_op\<close> above are their abstract contracts
  (\<open>popup_request_op\<close>, \<open>sync_request_op\<close>).
\<close>

inductive popup_request :: "json_parser \<Rightarrow> url_hostname \<Rightarrow> storage_op \<Rightarrow> bool"
  for json_parse :: json_parser and url_host :: url_hostname where
  add: "add_input site_in user_in pass_in = Some r \<Longrightarrow> popup_request json_parse url_host (OpAdd r)"
| import: "parse_import json_parse url_host fileName content = Inr rs \<Longrightarrow>
           popup_request json_parse url_host (OpImport rs)"

inductive sync_request :: "json_parser \<Rightarrow> url_hostname \<Rightarrow> storage_op \<Rightarrow> bool"
  for json_parse :: json_parser and url_host :: url_hostname where
  import: "parse_import json_parse url_host fileName content = Inr rs \<Longrightarrow>
           sync_request json_parse url_host (OpImport rs)"
| delete: "sync_request json_parse url_host (OpDelete index)"

text \<open>
  An invariant \<open>I\<close> of stored arrays, lifted to the system: the store and every queued
  value satisfy it, and every queued \<open>get\<close> is of an allowed operation.
\<close>

definition queue_inv :: "(storage_op \<Rightarrow> bool) \<Rightarrow> (store \<Rightarrow> bool) \<Rightarrow> storage_sys \<Rightarrow> bool" where
  "queue_inv allowed I st \<longleftrightarrow>
     I (stored st) \<and>
     list_all (\<lambda>r. case r of Get op \<Rightarrow> allowed op | SetValue v \<Rightarrow> I v) (requests st)"

text \<open>
  Traces: the reachable states together with the operations started so far, in the
  order they were started.
\<close>

inductive async_trace :: "storage_sys \<Rightarrow> storage_op list \<Rightarrow> bool" where
  trace_init: "async_trace \<lparr>stored = [], requests = []\<rparr> []"
| trace_issue: "async_trace st ops \<Longrightarrow> async_trace (issue op st) (ops @ [op])"
| trace_answer: "async_trace st ops \<Longrightarrow> serve st = Some st' \<Longrightarrow> async_trace st' ops"
| trace_refused: "async_trace st ops \<Longrightarrow> refuse st = Some st' \<Longrightarrow> async_trace st' ops"

text \<open>The operations whose \<open>get\<close> is still queued, in queue order.\<close>

fun pending_gets :: "storage_request list \<Rightarrow> storage_op list" where
  "pending_gets [] = []"
| "pending_gets (Get op # rs) = op # pending_gets rs"
| "pending_gets (SetValue v # rs) = pending_gets rs"

text \<open>Running operations one at a time, each reading what the previous one wrote.\<close>

definition serial_run :: "storage_op list \<Rightarrow> store" where
  "serial_run ops = foldl (\<lambda>s op. op_effect op s) [] ops"

section \<open>Properties\<close>

declare drain.simps [simp del]

lemma drain_Nil: "requests st = [] \<Longrightarrow> drain st = st"
  by (simp add: drain.simps)

lemma drain_serve: "serve st = Some st' \<Longrightarrow> drain st = drain st'"
  by (simp add: drain.simps)

lemma drain_empty_queue: "requests (drain st) = []"
proof (induction st rule: drain.induct)
  case (1 st)
  show ?case
  proof (cases "serve st")
    case None
    then show ?thesis
      by (simp add: drain.simps split: list.splits storage_request.splits)
  next
    case (Some st')
    with "1.IH" show ?thesis by (simp add: drain_serve)
  qed
qed

lemma op_effect_ok:
  "sync_op op \<Longrightarrow> options_store_ok s \<Longrightarrow> options_store_ok (op_effect op s)"
proof (cases op)
  case (OpImport cs)
  assume "sync_op op" "options_store_ok s"
  with OpImport show ?thesis
    using import_merge_set [of s cs] merge_fold_distinct [of "merge_init s" cs]
    by (auto simp: options_store_ok_def list_all_iff import_merge_def merge_init_def)
next
  case (OpDelete i)
  assume "options_store_ok s"
  with OpDelete show ?thesis
    by (auto simp: options_store_ok_def js_splice1_def list_all_iff
             dest: in_set_takeD in_set_dropD intro: distinct_identities_take_drop)
qed simp

text \<open>
  Invariant transfer: a property of stored arrays that holds of the empty array and that
  every allowed operation preserves holds under every interleaving.
\<close>

lemma async_reach_inv:
  assumes step: "\<And>op s. allowed op \<Longrightarrow> I s \<Longrightarrow> I (op_effect op s)" and empty: "I []"
  shows "async_reach allowed st \<Longrightarrow> queue_inv allowed I st"
proof (induction rule: async_reach.induct)
  case init
  show ?case using empty by (simp add: queue_inv_def)
next
  case (start st op)
  then show ?case by (simp add: queue_inv_def issue_def)
next
  case (answer st st')
  show ?case
  proof (cases "requests st")
    case Nil
    with answer show ?thesis by simp
  next
    case (Cons r rest)
    with answer show ?thesis by (cases r) (auto simp: queue_inv_def step)
  qed
next
  case (refused st st')
  then obtain v rest where "requests st = SetValue v # rest" and "st' = st\<lparr>requests := rest\<rparr>"
    by (auto split: list.splits storage_request.splits)
  with refused.IH show ?case by (simp add: queue_inv_def)
qed

lemma popup_op_effect:
  "popup_op op \<Longrightarrow> list_all (\<lambda>r. site r \<noteq> [] \<and> user r \<noteq> [] \<and> pass r \<noteq> []) s \<Longrightarrow>
   list_all (\<lambda>r. site r \<noteq> [] \<and> user r \<noteq> [] \<and> pass r \<noteq> []) (op_effect op s)"
proof (cases op)
  case (OpImport cs)
  assume "popup_op op" "list_all (\<lambda>r. site r \<noteq> [] \<and> user r \<noteq> [] \<and> pass r \<noteq> []) s"
  with OpImport show ?thesis
    using import_merge_set [of s cs] by (auto simp: list_all_iff normal_record_def)
qed simp_all

lemma drain_issue_serial:
  "requests st = [] \<Longrightarrow> drain (issue op st) = \<lparr>stored = op_effect op (stored st), requests = []\<rparr>"
proof -
  assume e: "requests st = []"
  have "serve (issue op st) = Some (st\<lparr>requests := [SetValue (op_effect op (stored st))]\<rparr>)"
    using e by (simp add: issue_def)
  moreover have "serve (st\<lparr>requests := [SetValue (op_effect op (stored st))]\<rparr>)
                   = Some \<lparr>stored = op_effect op (stored st), requests = []\<rparr>"
    by simp
  ultimately show ?thesis
    by (simp add: drain_serve drain_Nil)
qed

lemma async_reach_drain: "async_reach allowed st \<Longrightarrow> async_reach allowed (drain st)"
proof (induction st rule: drain.induct)
  case (1 st)
  show ?case
  proof (cases "serve st")
    case None
    with "1.prems" show ?thesis by (simp add: drain.simps)
  next
    case (Some st')
    with "1.prems" have "async_reach allowed st'" by (rule async_reach.answer)
    with "1.IH" Some show ?thesis by (simp add: drain_serve)
  qed
qed

lemma async_reach_mono:
  "async_reach A st \<Longrightarrow> (\<And>op. A op \<Longrightarrow> B op) \<Longrightarrow> async_reach B st"
  by (induction rule: async_reach.induct) (auto intro: async_reach.intros)

lemma popup_request_op:
  "url_host_trimmed url_host \<Longrightarrow> popup_request json_parse url_host op \<Longrightarrow> popup_op op"
  by (auto elim!: popup_request.cases simp: add_input_def list_all_iff intro: parse_import_normal
           split: option.splits if_splits)

lemma sync_request_op:
  "url_host_trimmed url_host \<Longrightarrow> sync_request json_parse url_host op \<Longrightarrow> sync_op op"
  by (auto elim!: sync_request.cases simp: list_all_iff intro: parse_import_normal)

lemma sync_request_store_ok:
  "url_host_trimmed url_host \<Longrightarrow> async_reach (sync_request json_parse url_host) st \<Longrightarrow>
   options_store_ok (stored st)"
  using async_reach_inv [of sync_op options_store_ok, OF op_effect_ok]
        async_reach_mono [of "sync_request json_parse url_host" st sync_op] sync_request_op
  by (simp add: queue_inv_def options_store_ok_def)


lemma pending_gets_append [simp]: "pending_gets (rs @ rs') = pending_gets rs @ pending_gets rs'"
  by (induction rs rule: pending_gets.induct) simp_all

lemma serial_run_snoc: "serial_run (sub @ [op]) = op_effect op (serial_run sub)"
  by (simp add: serial_run_def)

lemma async_trace_drain: "async_trace st ops \<Longrightarrow> async_trace (drain st) ops"
proof (induction st rule: drain.induct)
  case (1 st)
  show ?case
  proof (cases "serve st")
    case None
    with "1.prems" show ?thesis by (simp add: drain.simps)
  next
    case (Some st')
    with "1.prems" have "async_trace st' ops" by (rule async_trace.trace_answer)
    with "1.IH" Some show ?thesis by (simp add: drain_serve)
  qed
qed

text \<open>
  The invariant of traces: the started operations are those whose \<open>get\<close> was
  answered (\<open>P\<close>) followed by those still queued; the store and every queued value are
  serial runs of subsequences of \<open>P\<close>.
\<close>

lemma async_trace_serial:
  "async_trace st ops \<Longrightarrow>
   \<exists>P. ops = P @ pending_gets (requests st) \<and>
       (\<exists>sub. subseq sub P \<and> stored st = serial_run sub) \<and>
       (\<forall>v. SetValue v \<in> set (requests st) \<longrightarrow> (\<exists>sub. subseq sub P \<and> v = serial_run sub))"
proof (induction rule: async_trace.induct)
  case trace_init
  then show ?case by (auto simp: serial_run_def)
next
  case (trace_issue st ops op)
  then show ?case by (auto simp: issue_def)
next
  case (trace_answer st ops st')
  then obtain P sub where ops: "ops = P @ pending_gets (requests st)"
    and sub: "subseq sub P" "stored st = serial_run sub"
    and sets: "\<forall>v. SetValue v \<in> set (requests st) \<longrightarrow> (\<exists>sub. subseq sub P \<and> v = serial_run sub)"
    by blast
  show ?case
  proof (cases "requests st")
    case Nil
    with trace_answer.hyps(2) show ?thesis by simp
  next
    case (Cons r rest)
    show ?thesis
    proof (cases r)
      case (Get op)
      have st': "st' = st\<lparr>requests := rest @ [SetValue (op_effect op (stored st))]\<rparr>"
        using trace_answer.hyps(2) Cons Get by simp
      have "ops = (P @ [op]) @ pending_gets (requests st')" using ops Cons Get st' by simp
      moreover have "\<exists>sub. subseq sub (P @ [op]) \<and> stored st' = serial_run sub"
        using sub st' by (intro exI [of _ sub]) (simp add: subseq_rev_drop_many)
      moreover have "\<forall>v. SetValue v \<in> set (requests st') \<longrightarrow> (\<exists>sub. subseq sub (P @ [op]) \<and> v = serial_run sub)"
      proof (intro allI impI)
        fix v assume "SetValue v \<in> set (requests st')"
        then have "SetValue v \<in> set rest \<or> v = op_effect op (stored st)" using st' by auto
        then show "\<exists>sub. subseq sub (P @ [op]) \<and> v = serial_run sub"
        proof
          assume "SetValue v \<in> set rest"
          then obtain sub' where "subseq sub' P" "v = serial_run sub'" using sets Cons by auto
          then show ?thesis by (intro exI [of _ sub']) (simp add: subseq_rev_drop_many)
        next
          assume "v = op_effect op (stored st)"
          then have "v = serial_run (sub @ [op])" using sub(2) by (simp add: serial_run_snoc)
          moreover have "subseq (sub @ [op]) (P @ [op])" using sub(1) by (simp add: list_emb_append_mono)
          ultimately show ?thesis by blast
        qed
      qed
      ultimately show ?thesis by blast
    next
      case (SetValue v)
      have st': "st' = \<lparr>stored = v, requests = rest\<rparr>" using trace_answer.hyps(2) Cons SetValue by simp
      have "ops = P @ pending_gets (requests st')" using ops Cons SetValue st' by simp
      moreover have "\<exists>sub. subseq sub P \<and> stored st' = serial_run sub"
        using sets Cons SetValue st' by simp
      moreover have "\<forall>v. SetValue v \<in> set (requests st') \<longrightarrow> (\<exists>sub. subseq sub P \<and> v = serial_run sub)"
        using sets Cons st' by simp
      ultimately show ?thesis by blast
    qed
  qed
next
  case (trace_refused st ops st')
  then obtain P sub where ops: "ops = P @ pending_gets (requests st)"
    and sub: "subseq sub P" "stored st = serial_run sub"
    and sets: "\<forall>v. SetValue v \<in> set (requests st) \<longrightarrow> (\<exists>sub. subseq sub P \<and> v = serial_run sub)"
    by blast
  obtain v rest where q: "requests st = SetValue v # rest" and st': "st' = st\<lparr>requests := rest\<rparr>"
    using trace_refused.hyps(2) by (auto split: list.splits storage_request.splits)
  have "ops = P @ pending_gets (requests st')" using ops q st' by simp
  moreover have "\<exists>sub. subseq sub P \<and> stored st' = serial_run sub" using sub st' by auto
  moreover have "\<forall>v. SetValue v \<in> set (requests st') \<longrightarrow> (\<exists>sub. subseq sub P \<and> v = serial_run sub)"
    using sets q st' by simp
  ultimately show ?case by blast
qed

section \<open>Claims\<close>

text \<open>
  C29. The options store's invariant holds under every interleaving of imports and
  deletes: whatever order the backend answers overlapping handlers in, the stored array
  holds well-formed records with distinct identities, whichever writes the storage
  refuses. Overlap can lose an update, but never introduce a duplicate or a malformed
  record.
\<close>

theorem async_store_invariant:
  "async_reach sync_op st \<Longrightarrow> options_store_ok (stored st)"
  using async_reach_inv [of sync_op options_store_ok, OF op_effect_ok]
  by (simp add: queue_inv_def options_store_ok_def)

theorem async_store_invariant_witness:
  "async_reach sync_op (issue (OpDelete 0) (issue (OpImport [\<lparr>site = ''a'', user = ''x'', pass = ''1''\<rparr>])
      \<lparr>stored = [], requests = []\<rparr>)) \<and>
   options_store_ok (stored (issue (OpDelete 0) (issue (OpImport [\<lparr>site = ''a'', user = ''x'', pass = ''1''\<rparr>])
      \<lparr>stored = [], requests = []\<rparr>)))"
proof -
  have n: "sync_op (OpImport [\<lparr>site = ''a'', user = ''x'', pass = ''1''\<rparr>])"
    by (simp add: normal_record_def trimmed_def is_js_space_def)
  have r: "async_reach sync_op (issue (OpDelete 0) (issue (OpImport [\<lparr>site = ''a'', user = ''x'', pass = ''1''\<rparr>])
      \<lparr>stored = [], requests = []\<rparr>))"
    by (intro async_reach.start async_reach.init n) simp
  show ?thesis using async_store_invariant [OF r] r by simp
qed

text \<open>
  C30. Lost update (last write wins): when a delete of row \<open>idx\<close> and an import are
  started one after the other before the backend answers, the import's \<open>get\<close> reads
  the array before the delete's \<open>set\<close> is applied, so the import's \<open>set\<close> writes
  the deleted record back: the store ends as the import alone would leave it, still
  holding record \<open>idx\<close>. Run one after the other, the import starts from the array
  without it.
\<close>

theorem lost_update:
  "idx < length s \<Longrightarrow>
   drain (issue (OpImport rs) (issue (OpDelete idx) \<lparr>stored = s, requests = []\<rparr>))
     = \<lparr>stored = existingPasswords (import_merge s rs), requests = []\<rparr> \<and>
   s ! idx \<in> set (stored (drain (issue (OpImport rs) (issue (OpDelete idx) \<lparr>stored = s, requests = []\<rparr>)))) \<and>
   stored (drain (issue (OpImport rs) (drain (issue (OpDelete idx) \<lparr>stored = s, requests = []\<rparr>))))
     = existingPasswords (import_merge (js_splice1 s idx) rs)"
proof -
  assume i: "idx < length s"
  let ?st = "issue (OpImport rs) (issue (OpDelete idx) \<lparr>stored = s, requests = []\<rparr>)"
  let ?v = "existingPasswords (import_merge s rs)"
  have "drain ?st = drain \<lparr>stored = s, requests = [Get (OpImport rs), SetValue (js_splice1 s idx)]\<rparr>"
    by (rule drain_serve) (simp add: issue_def)
  also have "\<dots> = drain \<lparr>stored = s, requests = [SetValue (js_splice1 s idx), SetValue ?v]\<rparr>"
    by (rule drain_serve) simp
  also have "\<dots> = drain \<lparr>stored = js_splice1 s idx, requests = [SetValue ?v]\<rparr>"
    by (rule drain_serve) simp
  also have "\<dots> = drain \<lparr>stored = ?v, requests = []\<rparr>"
    by (rule drain_serve) simp
  also have "\<dots> = \<lparr>stored = ?v, requests = []\<rparr>"
    by (simp add: drain_Nil)
  finally have lost: "drain ?st = \<lparr>stored = ?v, requests = []\<rparr>" .
  obtain added where "?v = s @ added"
    using merge_fold_shape [of "merge_init s" rs] by (auto simp: import_merge_def merge_init_def)
  then have kept: "s ! idx \<in> set ?v" using i by simp
  have "stored (drain (issue (OpImport rs) (drain (issue (OpDelete idx) \<lparr>stored = s, requests = []\<rparr>))))
          = existingPasswords (import_merge (js_splice1 s idx) rs)"
    by (simp add: drain_issue_serial)
  with lost kept show ?thesis by simp
qed

theorem lost_update_witness:
  "0 < length [\<lparr>site = ''a'', user = ''x'', pass = ''1''\<rparr>, \<lparr>site = ''b'', user = ''y'', pass = ''2''\<rparr>] \<and>
   stored (drain (issue (OpImport [\<lparr>site = ''c'', user = ''z'', pass = ''3''\<rparr>])
      (issue (OpDelete 0) \<lparr>stored = [\<lparr>site = ''a'', user = ''x'', pass = ''1''\<rparr>, \<lparr>site = ''b'', user = ''y'', pass = ''2''\<rparr>],
                           requests = []\<rparr>)))
     = [\<lparr>site = ''a'', user = ''x'', pass = ''1''\<rparr>, \<lparr>site = ''b'', user = ''y'', pass = ''2''\<rparr>,
        \<lparr>site = ''c'', user = ''z'', pass = ''3''\<rparr>]"
  using lost_update [of 0 "[\<lparr>site = ''a'', user = ''x'', pass = ''1''\<rparr>, \<lparr>site = ''b'', user = ''y'', pass = ''2''\<rparr>]"
                        "[\<lparr>site = ''c'', user = ''z'', pass = ''3''\<rparr>]"]
  by (simp add: import_merge_def merge_init_def merge_step_def isDuplicate_def same_identity_def
                js_toLowerCase_def js_lower_char_def js_eval)

text \<open>
  C24. Overlapping handlers lose whole operations, never parts of one: after any
  interleaving of started imports, deletes and adds with the backend's answers and
  refusals, the stored array is what running some of the started operations one at a
  time, in the order they were started, leaves (a serial run of a subsequence).
\<close>

theorem interleaving_serial_subset:
  "async_trace st ops \<Longrightarrow> \<exists>sub. subseq sub ops \<and> stored st = serial_run sub"
proof -
  assume "async_trace st ops"
  then obtain P sub where "ops = P @ pending_gets (requests st)" "subseq sub P" "stored st = serial_run sub"
    using async_trace_serial by blast
  then show ?thesis by (intro exI [of _ sub]) (simp add: subseq_rev_drop_many)
qed

theorem interleaving_serial_subset_witness:
  "async_trace (drain (issue (OpAdd \<lparr>site = ''b'', user = ''y'', pass = ''2''\<rparr>)
                  (issue (OpAdd \<lparr>site = ''a'', user = ''x'', pass = ''1''\<rparr>) \<lparr>stored = [], requests = []\<rparr>)))
     [OpAdd \<lparr>site = ''a'', user = ''x'', pass = ''1''\<rparr>, OpAdd \<lparr>site = ''b'', user = ''y'', pass = ''2''\<rparr>] \<and>
   (\<exists>sub. subseq sub [OpAdd \<lparr>site = ''a'', user = ''x'', pass = ''1''\<rparr>, OpAdd \<lparr>site = ''b'', user = ''y'', pass = ''2''\<rparr>] \<and>
      stored (drain (issue (OpAdd \<lparr>site = ''b'', user = ''y'', pass = ''2''\<rparr>)
                  (issue (OpAdd \<lparr>site = ''a'', user = ''x'', pass = ''1''\<rparr>) \<lparr>stored = [], requests = []\<rparr>)))
        = serial_run sub) \<and>
   stored (drain (issue (OpAdd \<lparr>site = ''b'', user = ''y'', pass = ''2''\<rparr>)
                  (issue (OpAdd \<lparr>site = ''a'', user = ''x'', pass = ''1''\<rparr>) \<lparr>stored = [], requests = []\<rparr>)))
     = serial_run [OpAdd \<lparr>site = ''b'', user = ''y'', pass = ''2''\<rparr>]"
proof -
  let ?a = "\<lparr>site = ''a'', user = ''x'', pass = ''1''\<rparr>" and ?b = "\<lparr>site = ''b'', user = ''y'', pass = ''2''\<rparr>"
  let ?S = "issue (OpAdd ?b) (issue (OpAdd ?a) \<lparr>stored = [], requests = []\<rparr>)"
  have t0: "async_trace ?S [OpAdd ?a, OpAdd ?b]"
    using async_trace.trace_issue [OF async_trace.trace_issue [OF async_trace.trace_init]] by simp
  have t: "async_trace (drain ?S) [OpAdd ?a, OpAdd ?b]" by (rule async_trace_drain [OF t0])
  have d: "stored (drain ?S) = serial_run [OpAdd ?b]" by code_simp
  show ?thesis using interleaving_serial_subset [OF t] t d by blast
qed

text \<open>
  C27. The popup's store keeps non-empty fields under every interleaving: whatever order
  the backend answers overlapping adds (of the records the add button's prompts give)
  and imports (of the records the import's parser returns) on \<open>chrome.storage.local\<close>
  in, and whichever writes it refuses, every stored record has a non-empty site, user
  and password (overlap may lose an add, never store a blank record).
\<close>

theorem popup_async_invariant:
  "url_host_trimmed url_host \<Longrightarrow> async_reach (popup_request json_parse url_host) st \<Longrightarrow>
   list_all (\<lambda>r. site r \<noteq> [] \<and> user r \<noteq> [] \<and> pass r \<noteq> []) (stored st)"
proof -
  assume uh: "url_host_trimmed url_host" and r: "async_reach (popup_request json_parse url_host) st"
  have "async_reach popup_op st"
    using async_reach_mono [OF r] popup_request_op [OF uh] by blast
  then show ?thesis
    using async_reach_inv [of popup_op "list_all (\<lambda>r. site r \<noteq> [] \<and> user r \<noteq> [] \<and> pass r \<noteq> [])",
                           OF popup_op_effect]
    by (simp add: queue_inv_def)
qed

theorem popup_async_invariant_witness:
  "url_host_trimmed sample_url_hostname \<and>
   async_reach (popup_request (\<lambda>_. Inl []) sample_url_hostname)
     (drain (issue (OpAdd \<lparr>site = ''b'', user = ''y'', pass = ''2''\<rparr>)
              (issue (OpAdd \<lparr>site = ''a'', user = ''x'', pass = ''1''\<rparr>) \<lparr>stored = [], requests = []\<rparr>))) \<and>
   list_all (\<lambda>r. site r \<noteq> [] \<and> user r \<noteq> [] \<and> pass r \<noteq> [])
     (stored (drain (issue (OpAdd \<lparr>site = ''b'', user = ''y'', pass = ''2''\<rparr>)
               (issue (OpAdd \<lparr>site = ''a'', user = ''x'', pass = ''1''\<rparr>) \<lparr>stored = [], requests = []\<rparr>)))) \<and>
   stored (drain (issue (OpAdd \<lparr>site = ''b'', user = ''y'', pass = ''2''\<rparr>)
               (issue (OpAdd \<lparr>site = ''a'', user = ''x'', pass = ''1''\<rparr>) \<lparr>stored = [], requests = []\<rparr>)))
     = [\<lparr>site = ''b'', user = ''y'', pass = ''2''\<rparr>]"
proof -
  let ?S = "issue (OpAdd \<lparr>site = ''b'', user = ''y'', pass = ''2''\<rparr>)
              (issue (OpAdd \<lparr>site = ''a'', user = ''x'', pass = ''1''\<rparr>) \<lparr>stored = [], requests = []\<rparr>)"
  let ?R = "popup_request (\<lambda>_. Inl []) sample_url_hostname"
  have a: "?R (OpAdd \<lparr>site = ''a'', user = ''x'', pass = ''1''\<rparr>)"
    by (rule popup_request.add [of "Some ''a''" "Some ''x''" "Some ''1''"]) (simp add: add_input_def)
  have b: "?R (OpAdd \<lparr>site = ''b'', user = ''y'', pass = ''2''\<rparr>)"
    by (rule popup_request.add [of "Some ''b''" "Some ''y''" "Some ''2''"]) (simp add: add_input_def)
  have r0: "async_reach ?R ?S"
    by (intro async_reach.start async_reach.init a b)
  have r: "async_reach ?R (drain ?S)" by (rule async_reach_drain [OF r0])
  have d: "stored (drain ?S) = [\<lparr>site = ''b'', user = ''y'', pass = ''2''\<rparr>]" by code_simp
  show ?thesis
    using popup_async_invariant [OF sample_url_hostname_trimmed r] sample_url_hostname_trimmed r d by simp
qed

end
