(* ===== verification/JsonText.thy ===== *)
theory JsonText
  imports JsonFormat JsNumber
begin

text \<open>
  The text layer of the JSON import and export: \<open>JSON.stringify(v, null, 2)\<close>
  (\<open>options.js\<close> line 189) as \<open>json_stringify\<close> and \<open>JSON.parse\<close> (line 102) as
  \<open>json_parse\<close>, both on Latin-1 code units, following ECMAScript's
  \<open>SerializeJSONProperty\<close>/\<open>QuoteJSONString\<close> and the JSON grammar.
\<close>

section \<open>JSON.stringify with a two-space indent\<close>

definition hex_digit :: "nat \<Rightarrow> char" where
  "hex_digit n = (if n < 10 then char_of (48 + n) else char_of (87 + n))"

definition json_quote_char :: "char \<Rightarrow> js_string" where
  "json_quote_char c =
     (if c = CHR 0x08 then [CHR 0x5C, CHR ''b'']
      else if c = CHR 0x09 then [CHR 0x5C, CHR ''t'']
      else if c = CHR 0x0A then [CHR 0x5C, CHR ''n'']
      else if c = CHR 0x0C then [CHR 0x5C, CHR ''f'']
      else if c = CHR 0x0D then [CHR 0x5C, CHR ''r'']
      else if c = CHR 0x22 then [CHR 0x5C, CHR 0x22]
      else if c = CHR 0x5C then [CHR 0x5C, CHR 0x5C]
      else if of_char c < (32::nat)
      then [CHR 0x5C, CHR ''u'', CHR ''0'', CHR ''0'', hex_digit (of_char c div 16), hex_digit (of_char c mod 16)]
      else [c])"

definition json_quote :: "js_string \<Rightarrow> js_string" where
  "json_quote s = CHR 0x22 # concat (map json_quote_char s) @ [CHR 0x22]"

definition js_int_toString :: "int \<Rightarrow> js_string" where
  "js_int_toString i = (if i < 0 then CHR ''-'' # js_nat_toString (nat (- i)) else js_nat_toString (nat i))"

definition json_indent :: "nat \<Rightarrow> js_string" where
  "json_indent level = CHR 0x0A # replicate (2 * level) (CHR '' '')"

fun json_str :: "nat \<Rightarrow> json \<Rightarrow> js_string" where
  "json_str level JNull = ''null''"
| "json_str level (JBool b) = (if b then ''true'' else ''false'')"
| "json_str level (JNumber i) = js_int_toString i"
| "json_str level (JString s) = json_quote s"
| "json_str level (JArray vs) =
     (if vs = [] then ''[]''
      else ''['' @ json_indent (Suc level)
             @ js_join (map (json_str (Suc level)) vs) ('','' @ json_indent (Suc level))
             @ json_indent level @ '']'')"
| "json_str level (JObject ms) =
     (if ms = [] then ''{}''
      else ''{'' @ json_indent (Suc level)
             @ js_join (map (\<lambda>m. json_quote (fst m) @ '': '' @ json_str (Suc level) (snd m)) ms)
                       ('','' @ json_indent (Suc level))
             @ json_indent level @ ''}'')"

definition json_stringify :: "json \<Rightarrow> js_string" where
  "json_stringify v = json_str 0 v"

section \<open>JSON.parse\<close>

definition is_json_ws :: "char \<Rightarrow> bool" where
  "is_json_ws c \<longleftrightarrow> c = CHR 0x09 \<or> c = CHR 0x0A \<or> c = CHR 0x0D \<or> c = CHR '' ''"

abbreviation skip_ws :: "js_string \<Rightarrow> js_string" where
  "skip_ws \<equiv> dropWhile is_json_ws"

text \<open>The single-character escapes of a JSON string and what they stand for.\<close>

definition json_unescape :: "char \<Rightarrow> char option" where
  "json_unescape e =
     (if e = CHR 0x22 then Some (CHR 0x22) else if e = CHR 0x5C then Some (CHR 0x5C)
      else if e = CHR ''/'' then Some (CHR ''/'') else if e = CHR ''b'' then Some (CHR 0x08)
      else if e = CHR ''f'' then Some (CHR 0x0C) else if e = CHR ''n'' then Some (CHR 0x0A)
      else if e = CHR ''r'' then Some (CHR 0x0D) else if e = CHR ''t'' then Some (CHR 0x09)
      else None)"

type_synonym 'a parse = "js_string + ('a \<times> js_string)"

definition parse_cons :: "char \<Rightarrow> js_string parse \<Rightarrow> js_string parse" where
  "parse_cons c r = (case r of Inl e \<Rightarrow> Inl e | Inr (s, rest) \<Rightarrow> Inr (c # s, rest))"

text \<open>The body of a string literal after its opening quote.\<close>

fun jp_string :: "js_string \<Rightarrow> js_string parse" where
  "jp_string [] = Inl ''Unterminated string in JSON''"
| "jp_string (c # r) =
     (if c = CHR 0x22 then Inr ([], r)
      else if c = CHR 0x5C then
        (case r of
           [] \<Rightarrow> Inl ''Unterminated string in JSON''
         | e # r' \<Rightarrow>
             (case json_unescape e of
                Some d \<Rightarrow> parse_cons d (jp_string r')
              | None \<Rightarrow>
                  (if e = CHR ''u'' \<and> 4 \<le> length r'
                   then (case hex_acc 0 (take 4 r') of
                           None \<Rightarrow> Inl ''Bad Unicode escape in JSON''
                         | Some k \<Rightarrow>
                             (if k < 256 then parse_cons (char_of k) (jp_string (drop 4 r'))
                              else Inl ''Code unit outside Latin-1''))
                   else Inl ''Bad escaped character in JSON'')))
      else if of_char c < (32::nat) then Inl ''Bad control character in string literal in JSON''
      else parse_cons c (jp_string r))"

text \<open>
  A number: an optional minus sign and an integer without leading zeros. A fraction or
  an exponent is refused: decoded numbers are integers in this model.
\<close>

definition jp_number :: "js_string \<Rightarrow> json parse" where
  "jp_number s =
     (let neg = (s \<noteq> [] \<and> hd s = CHR ''-'');
          s1 = (if neg then tl s else s);
          ds = takeWhile is_digit s1;
          rest = dropWhile is_digit s1
      in if ds = [] then Inl ''No number after minus sign in JSON''
         else if 1 < length ds \<and> hd ds = CHR ''0'' then Inl ''Unexpected number in JSON''
         else if rest \<noteq> [] \<and> (hd rest = CHR ''.'' \<or> hd rest = CHR ''e'' \<or> hd rest = CHR ''E'')
         then Inl ''Non-integer number''
         else Inr (JNumber (if neg then - int (digits_val ds) else int (digits_val ds)), rest))"

text \<open>
  Values, array elements and object members, by recursive descent. Every call spends one
  unit of fuel. A nesting level costs two calls (the value and its elements) and at
  least one character, so \<open>json_parse\<close> gives one more than twice the length of the
  text; the theory JsonFuel proves that this is enough: with more fuel the result is
  the same, so the fuel error is never reported.
\<close>

fun jp_value :: "nat \<Rightarrow> js_string \<Rightarrow> json parse"
and jp_elems :: "nat \<Rightarrow> json list \<Rightarrow> js_string \<Rightarrow> json parse"
and jp_members :: "nat \<Rightarrow> (js_string \<times> json) list \<Rightarrow> js_string \<Rightarrow> json parse" where
  "jp_value 0 s = Inl ''JSON nested too deeply''"
| "jp_value (Suc n) s =
     (case skip_ws s of
        [] \<Rightarrow> Inl ''Unexpected end of JSON input''
      | c # r \<Rightarrow>
          (if c = CHR ''n'' \<and> take 3 r = ''ull'' then Inr (JNull, drop 3 r)
           else if c = CHR ''t'' \<and> take 3 r = ''rue'' then Inr (JBool True, drop 3 r)
           else if c = CHR ''f'' \<and> take 4 r = ''alse'' then Inr (JBool False, drop 4 r)
           else if c = CHR 0x22 then
             (case jp_string r of Inl e \<Rightarrow> Inl e | Inr (str, r') \<Rightarrow> Inr (JString str, r'))
           else if c = CHR ''['' then
             (if skip_ws r \<noteq> [] \<and> hd (skip_ws r) = CHR '']'' then Inr (JArray [], tl (skip_ws r))
              else jp_elems n [] r)
           else if c = CHR ''{'' then
             (if skip_ws r \<noteq> [] \<and> hd (skip_ws r) = CHR ''}'' then Inr (JObject [], tl (skip_ws r))
              else jp_members n [] r)
           else if c = CHR ''-'' \<or> is_digit c then jp_number (c # r)
           else Inl ''Unexpected token in JSON''))"
| "jp_elems 0 acc s = Inl ''JSON nested too deeply''"
| "jp_elems (Suc n) acc s =
     (case jp_value n s of
        Inl e \<Rightarrow> Inl e
      | Inr (v, r) \<Rightarrow>
          (case skip_ws r of
             c # r' \<Rightarrow>
               (if c = CHR '','' then jp_elems n (acc @ [v]) r'
                else if c = CHR '']'' then Inr (JArray (acc @ [v]), r')
                else Inl ''Expected ',' or ']' after array element in JSON'')
           | [] \<Rightarrow> Inl ''Unexpected end of JSON input''))"
| "jp_members 0 acc s = Inl ''JSON nested too deeply''"
| "jp_members (Suc n) acc s =
     (case skip_ws s of
        c # r \<Rightarrow>
          (if c \<noteq> CHR 0x22 then Inl ''Expected double-quoted property name in JSON''
           else
             (case jp_string r of
                Inl e \<Rightarrow> Inl e
              | Inr (k, r1) \<Rightarrow>
                  (case skip_ws r1 of
                     c1 # r2 \<Rightarrow>
                       (if c1 \<noteq> CHR '':'' then Inl ''Expected ':' after property name in JSON''
                        else
                          (case jp_value n r2 of
                             Inl e \<Rightarrow> Inl e
                           | Inr (v, r3) \<Rightarrow>
                               (case skip_ws r3 of
                                  c3 # r4 \<Rightarrow>
                                    (if c3 = CHR '','' then jp_members n (acc @ [(k, v)]) r4
                                     else if c3 = CHR ''}'' then Inr (JObject (acc @ [(k, v)]), r4)
                                     else Inl ''Expected ',' or '}' after property value in JSON'')
                                | [] \<Rightarrow> Inl ''Unexpected end of JSON input'')))
                   | [] \<Rightarrow> Inl ''Unexpected end of JSON input'')))
      | [] \<Rightarrow> Inl ''Unexpected end of JSON input'')"

text \<open>What may follow a value in a text: the end, a separator, a closing bracket or space.\<close>

definition json_follow :: "js_string \<Rightarrow> bool" where
  "json_follow rest \<longleftrightarrow>
     rest = [] \<or> hd rest = CHR '','' \<or> hd rest = CHR '']'' \<or> hd rest = CHR ''}'' \<or> is_json_ws (hd rest)"

definition json_parse :: "js_string \<Rightarrow> js_string + json" where
  "json_parse text =
     (case jp_value (Suc (2 * length text)) text of
        Inl e \<Rightarrow> Inl e
      | Inr (v, rest) \<Rightarrow>
          (if skip_ws rest = [] then Inr v else Inl ''Unexpected non-whitespace character after JSON''))"

section \<open>Lemmas\<close>

lemma hex_val_hex_digit: "n < 16 \<Longrightarrow> hex_val (hex_digit n) = Some n"
  by (auto simp: hex_val_def hex_digit_def is_digit_def of_char_of)

lemma jp_string_quote_char:
  "jp_string (json_quote_char c @ r) = parse_cons c (jp_string r)"
proof -
  have lt: "of_char c < (32::nat) \<Longrightarrow> of_char c div 16 < (16::nat)" by simp
  have u: "of_char c < (32::nat) \<Longrightarrow>
      hex_acc 0 [CHR ''0'', CHR ''0'', hex_digit (of_char c div 16), hex_digit (of_char c mod 16)] = Some (of_char c)"
  proof -
    assume "of_char c < (32::nat)"
    moreover have "hex_val (CHR ''0'') = Some 0" by (simp add: hex_val_def is_digit_def)
    ultimately show ?thesis by (simp add: hex_val_hex_digit lt)
  qed
  show ?thesis
    by (auto simp: json_quote_char_def json_unescape_def u simp del: hex_acc.simps)
qed

lemma jp_string_quote:
  "jp_string (concat (map json_quote_char s) @ CHR 0x22 # rest) = Inr (s, rest)"
  by (induction s) (simp_all add: jp_string_quote_char parse_cons_def)

lemma json_follow_not_digit:
  "json_follow rest \<Longrightarrow> rest \<noteq> [] \<Longrightarrow>
   \<not> is_digit (hd rest) \<and> hd rest \<noteq> CHR ''.'' \<and> hd rest \<noteq> CHR ''e'' \<and> hd rest \<noteq> CHR ''E''"
  by (auto simp: json_follow_def is_digit_def is_json_ws_def)

lemma digits_split:
  assumes "list_all is_digit ds" "json_follow rest"
  shows "takeWhile is_digit (ds @ rest) = ds \<and> dropWhile is_digit (ds @ rest) = rest"
proof (cases rest)
  case Nil
  with assms(1) show ?thesis by (simp add: list_all_iff)
next
  case (Cons c r)
  with json_follow_not_digit [OF assms(2)] assms(1) show ?thesis
    by (simp add: list_all_iff takeWhile_append2 dropWhile_append2)
qed

lemma jp_number_int:
  assumes "json_follow rest"
  shows "jp_number (js_int_toString i @ rest) = Inr (JNumber i, rest)"
proof -
  let ?ds = "js_nat_toString (nat \<bar>i\<bar>)"
  have d: "?ds \<noteq> []" "list_all is_digit ?ds" "digits_val ?ds = nat \<bar>i\<bar>"
    using js_nat_toString_digits by blast+
  have sp: "takeWhile is_digit (?ds @ rest) = ?ds" "dropWhile is_digit (?ds @ rest) = rest"
    using digits_split [OF d(2) assms] by blast+
  have z0: "js_nat_toString 0 = [char_of (48::nat)]" by (subst js_nat_toString.simps) simp
  have z: "1 < length ?ds \<Longrightarrow> hd ?ds \<noteq> CHR ''0''"
    by (subst js_nat_toString_hd_zero) (auto simp: z0 simp del: js_nat_toString.simps)
  have nm: "hd ?ds \<noteq> CHR ''-''"
    using d(1,2) by (cases ?ds) (auto simp: is_digit_def simp del: js_nat_toString.simps)
  have fr: "rest \<noteq> [] \<Longrightarrow> hd rest \<noteq> CHR ''.'' \<and> hd rest \<noteq> CHR ''e'' \<and> hd rest \<noteq> CHR ''E''"
    using json_follow_not_digit [OF assms] by blast
  show ?thesis
  proof (cases "i < 0")
    case True
    then have "js_int_toString i = CHR ''-'' # ?ds" by (simp add: js_int_toString_def)
    with True d sp z fr show ?thesis
      by (auto simp: jp_number_def Let_def simp del: js_nat_toString.simps)
  next
    case False
    then have "js_int_toString i = ?ds" by (simp add: js_int_toString_def)
    with False d sp z fr nm show ?thesis
      by (auto simp: jp_number_def Let_def simp del: js_nat_toString.simps)
  qed
qed

lemma json_indent_ws: "list_all is_json_ws (json_indent l)"
  by (simp add: json_indent_def is_json_ws_def list_all_iff)

lemma skip_ws_prefix:
  "list_all is_json_ws w \<Longrightarrow> xs \<noteq> [] \<Longrightarrow> \<not> is_json_ws (hd xs) \<Longrightarrow> skip_ws (w @ xs) = xs"
  by (simp add: list_all_iff dropWhile_append2 dropWhile_idem_if_hd)

lemma js_int_toString_start:
  "\<exists>c r. js_int_toString i = c # r \<and> (c = CHR ''-'' \<or> is_digit c)"
proof -
  have "js_nat_toString (nat \<bar>i\<bar>) \<noteq> [] \<and> list_all is_digit (js_nat_toString (nat \<bar>i\<bar>))"
    using js_nat_toString_digits by blast
  then show ?thesis
    by (cases "js_nat_toString (nat \<bar>i\<bar>)") (auto simp: js_int_toString_def simp del: js_nat_toString.simps)
qed

lemma json_str_start:
  "\<exists>c r. json_str l v = c # r \<and> \<not> is_json_ws c \<and> c \<noteq> CHR '']'' \<and> c \<noteq> CHR ''}''"
proof (cases v)
  case (JNumber i)
  then show ?thesis
    using js_int_toString_start [of i] by (auto simp: is_digit_def is_json_ws_def)
qed (auto simp: is_json_ws_def json_quote_def)

lemma jp_value_number:
  assumes c: "c = CHR ''-'' \<or> is_digit c"
  shows "jp_value (Suc n) (c # r) = jp_number (c # r)"
proof -
  have ws: "\<not> is_json_ws c" using c by (auto simp: is_digit_def is_json_ws_def)
  have ne: "c \<noteq> CHR ''n'' \<and> c \<noteq> CHR ''t'' \<and> c \<noteq> CHR ''f'' \<and> c \<noteq> CHR 0x22 \<and>
            c \<noteq> CHR ''['' \<and> c \<noteq> CHR ''{''"
    using c by (auto simp: is_digit_def)
  show ?thesis using ws ne c by simp
qed

lemma jp_elems_json_str:
  assumes "\<And>v n w rest. v \<in> set vs \<Longrightarrow> size v < n \<Longrightarrow> json_follow rest \<Longrightarrow>
             list_all is_json_ws w \<Longrightarrow> jp_value n (w @ json_str l' v @ rest) = Inr (v, rest)"
    and "vs \<noteq> []" and "size_list size vs < m" and "list_all is_json_ws w"
  shows "jp_elems m acc (w @ js_join (map (json_str l') vs) (CHR '','' # json_indent l') @
                        json_indent l @ CHR '']'' # rest) = Inr (JArray (acc @ vs), rest)"
  using assms
proof (induction vs arbitrary: m acc w)
  case Nil
  then show ?case by simp
next
  case (Cons v vs)
  obtain m' where m': "m = Suc m'" and sv: "size v < m'" and svs: "size_list size vs < m'"
    using Cons.prems(3) by (cases m) auto
  show ?case
  proof (cases "vs = []")
    case True
    let ?t = "json_indent l @ CHR '']'' # rest"
    have f: "json_follow ?t" by (simp add: json_follow_def json_indent_def is_json_ws_def)
    have v: "jp_value m' (w @ json_str l' v @ ?t) = Inr (v, ?t)"
      using Cons.prems(1) [of v m' ?t w] sv f Cons.prems(4) by simp
    have sk: "skip_ws ?t = CHR '']'' # rest"
      using skip_ws_prefix [OF json_indent_ws, of "CHR '']'' # rest" l] by (simp add: is_json_ws_def)
    show ?thesis using True v sk by (simp add: m')
  next
    case False
    let ?j = "json_indent l' @ js_join (map (json_str l') vs) (CHR '','' # json_indent l') @
              json_indent l @ CHR '']'' # rest"
    have f: "json_follow (CHR '','' # ?j)" by (simp add: json_follow_def)
    have v: "jp_value m' (w @ json_str l' v @ CHR '','' # ?j) = Inr (v, CHR '','' # ?j)"
      using Cons.prems(1) [of v m' "CHR '','' # ?j" w] sv f Cons.prems(4) by simp
    have r: "jp_elems m' (acc @ [v]) ?j = Inr (JArray ((acc @ [v]) @ vs), rest)"
      using Cons.IH [where m = m' and acc = "acc @ [v]" and w = "json_indent l'"] Cons.prems(1) False svs json_indent_ws
      by simp
    have "jp_elems (Suc m') acc (w @ json_str l' v @ CHR '','' # ?j) = Inr (JArray (acc @ v # vs), rest)"
      using v r by (simp add: is_json_ws_def)
    then show ?thesis using False by (simp add: m' js_join_Cons)
  qed
qed

lemma skip_ws_Cons_prefix:
  "list_all is_json_ws w \<Longrightarrow> \<not> is_json_ws c \<Longrightarrow> skip_ws (w @ c # ys) = c # ys"
  using skip_ws_prefix [of w "c # ys"] by simp

lemma jp_members_json_str:
  assumes "\<And>k v n w rest. (k, v) \<in> set ms \<Longrightarrow> size v < n \<Longrightarrow> json_follow rest \<Longrightarrow>
             list_all is_json_ws w \<Longrightarrow> jp_value n (w @ json_str l' v @ rest) = Inr (v, rest)"
    and "ms \<noteq> []" and "size_list (size_prod (\<lambda>x. 0) size) ms < m" and "list_all is_json_ws w"
  shows "jp_members m acc (w @ js_join (map (\<lambda>m. json_quote (fst m) @ '': '' @ json_str l' (snd m)) ms)
                                      (CHR '','' # json_indent l') @
                          json_indent l @ CHR ''}'' # rest) = Inr (JObject (acc @ ms), rest)"
  using assms
proof (induction ms arbitrary: m acc w)
  case Nil
  then show ?case by simp
next
  case (Cons kv ms)
  obtain k v where kv: "kv = (k, v)" by (cases kv)
  obtain m' where m': "m = Suc m'" and sv: "size v < m'"
    and sms: "size_list (size_prod (\<lambda>x. 0) size) ms < m'"
    using Cons.prems(3) kv by (cases m) auto
  have q: "\<not> is_json_ws (CHR 0x22)" "\<not> is_json_ws (CHR '':'')" "is_json_ws (CHR '' '')"
    by (simp_all add: is_json_ws_def)
  have sp: "list_all is_json_ws [CHR '' '']" by (simp add: is_json_ws_def)
  have col: "\<And>X. skip_ws (CHR '':'' # X) = CHR '':'' # X" "\<And>X. skip_ws (CHR '','' # X) = CHR '','' # X"
    by (simp_all add: is_json_ws_def)
  show ?case
  proof (cases "ms = []")
    case True
    let ?t = "json_indent l @ CHR ''}'' # rest"
    have f: "json_follow ?t" by (simp add: json_follow_def json_indent_def is_json_ws_def)
    have v: "jp_value m' ([CHR '' ''] @ json_str l' v @ ?t) = Inr (v, ?t)"
      using Cons.prems(1) [of k v m' ?t "[CHR '' '']"] kv sv f sp by simp
    have sk: "skip_ws ?t = CHR ''}'' # rest"
      using skip_ws_Cons_prefix [OF json_indent_ws [of l], where c = "CHR ''}''" and ys = rest] by (simp add: is_json_ws_def)
    have "jp_members (Suc m') acc (w @ json_quote k @ '': '' @ json_str l' v @ ?t)
            = Inr (JObject (acc @ [(k, v)]), rest)"
      using v sk q col Cons.prems(4)
      by (simp add: json_quote_def skip_ws_Cons_prefix jp_string_quote del: dropWhile.simps)
    then show ?thesis using True by (simp add: m' kv)
  next
    case False
    let ?j = "json_indent l' @ js_join (map (\<lambda>m. json_quote (fst m) @ '': '' @ json_str l' (snd m)) ms)
                                      (CHR '','' # json_indent l') @ json_indent l @ CHR ''}'' # rest"
    have f: "json_follow (CHR '','' # ?j)" by (simp add: json_follow_def)
    have v: "jp_value m' ([CHR '' ''] @ json_str l' v @ CHR '','' # ?j) = Inr (v, CHR '','' # ?j)"
      using Cons.prems(1) [of k v m' "CHR '','' # ?j" "[CHR '' '']"] kv sv f sp by simp
    have r: "jp_members m' (acc @ [(k, v)]) ?j = Inr (JObject ((acc @ [(k, v)]) @ ms), rest)"
    proof -
      have ih: "\<And>k' v' n w rest. (k', v') \<in> set ms \<Longrightarrow> size v' < n \<Longrightarrow> json_follow rest \<Longrightarrow>
                 list_all is_json_ws w \<Longrightarrow> jp_value n (w @ json_str l' v' @ rest) = Inr (v', rest)"
        using Cons.prems(1) by (meson list.set_intros(2))
      show ?thesis
        using Cons.IH [OF ih False sms json_indent_ws, where acc = "acc @ [(k, v)]"] by simp
    qed
    have "jp_members (Suc m') acc (w @ json_quote k @ '': '' @ json_str l' v @ CHR '','' # ?j)
            = Inr (JObject (acc @ (k, v) # ms), rest)"
      using v r q col Cons.prems(4)
      by (simp add: json_quote_def skip_ws_Cons_prefix jp_string_quote del: dropWhile.simps)
    then show ?thesis using False by (simp add: m' kv js_join_Cons)
  qed
qed

lemma jp_value_ws_prefix:
  "list_all is_json_ws w \<Longrightarrow> jp_value (Suc n) (w @ s) = jp_value (Suc n) s"
proof -
  assume "list_all is_json_ws w"
  then have "skip_ws (w @ s) = skip_ws s" by (simp add: list_all_iff dropWhile_append2)
  then show ?thesis by (simp only: jp_value.simps)
qed

lemma js_join_map_start:
  "xs \<noteq> [] \<Longrightarrow> \<exists>t. js_join (map f xs) sep = f (hd xs) @ t"
  by (cases xs) (auto simp: js_join_Cons)

lemma jp_value_json_str:
  "size v < n \<Longrightarrow> json_follow rest \<Longrightarrow> list_all is_json_ws w \<Longrightarrow>
   jp_value n (w @ json_str l v @ rest) = Inr (v, rest)"
proof (induction v arbitrary: n l w rest)
  case JNull
  then obtain n' where n: "n = Suc n'" by (cases n) auto
  have "jp_value (Suc n') (''null'' @ rest) = Inr (JNull, rest)" by (simp add: is_json_ws_def)
  with JNull.prems(3) show ?case by (simp add: n jp_value_ws_prefix del: jp_value.simps)
next
  case (JBool b)
  then obtain n' where n: "n = Suc n'" by (cases n) auto
  have "jp_value (Suc n') (json_str l (JBool b) @ rest) = Inr (JBool b, rest)"
    by (cases b) (simp_all add: is_json_ws_def)
  with JBool.prems(3) show ?case by (simp add: n jp_value_ws_prefix del: jp_value.simps json_str.simps)
next
  case (JNumber i)
  then obtain n' where n: "n = Suc n'" by (cases n) auto
  obtain c r where cr: "js_int_toString i = c # r" and c: "c = CHR ''-'' \<or> is_digit c"
    using js_int_toString_start by blast
  have "jp_value (Suc n') (js_int_toString i @ rest) = Inr (JNumber i, rest)"
    using jp_value_number [OF c, of n' "r @ rest"] jp_number_int [OF JNumber.prems(2), of i] cr by simp
  with JNumber.prems(3) show ?case by (simp add: n jp_value_ws_prefix del: jp_value.simps)
next
  case (JString str)
  then obtain n' where n: "n = Suc n'" by (cases n) auto
  have "jp_value (Suc n') (json_quote str @ rest) = Inr (JString str, rest)"
    by (simp add: json_quote_def jp_string_quote is_json_ws_def)
  with JString.prems(3) show ?case by (simp add: n jp_value_ws_prefix del: jp_value.simps)
next
  case (JArray vs)
  then obtain n' where n: "n = Suc n'" and sz: "size_list size vs < n'" by (cases n) auto
  show ?case
  proof (cases "vs = []")
    case True
    have "jp_value (Suc n') (''[]'' @ rest) = Inr (JArray [], rest)" by (simp add: is_json_ws_def)
    with JArray.prems(3) True show ?thesis by (simp add: n jp_value_ws_prefix del: jp_value.simps)
  next
    case False
    let ?r = "json_indent (Suc l) @ js_join (map (json_str (Suc l)) vs) (CHR '','' # json_indent (Suc l)) @
              json_indent l @ CHR '']'' # rest"
    obtain t where t: "js_join (map (json_str (Suc l)) vs) (CHR '','' # json_indent (Suc l)) = json_str (Suc l) (hd vs) @ t"
      using js_join_map_start [OF False] by blast
    obtain c r where cr: "json_str (Suc l) (hd vs) = c # r" and c: "\<not> is_json_ws c" "c \<noteq> CHR '']''"
      using json_str_start by blast
    have sk: "skip_ws ?r = c # r @ t @ json_indent l @ CHR '']'' # rest"
      using skip_ws_Cons_prefix [OF json_indent_ws [of "Suc l"] c(1)] t cr by simp
    have el: "jp_elems n' [] ?r = Inr (JArray vs, rest)"
      using jp_elems_json_str [OF _ False sz json_indent_ws, where acc = "[]"] JArray.IH by simp
    have b: "skip_ws (CHR ''['' # ?r) = CHR ''['' # ?r" by (simp add: is_json_ws_def)
    have "jp_value (Suc n') (CHR ''['' # ?r) = Inr (JArray vs, rest)"
      using sk el c b by (simp del: dropWhile.simps)
    with JArray.prems(3) False show ?thesis by (simp add: n jp_value_ws_prefix del: jp_value.simps)
  qed
next
  case (JObject ms)
  then obtain n' where n: "n = Suc n'" and sz: "size_list (size_prod (\<lambda>x. 0) size) ms < n'"
    by (cases n) auto
  show ?case
  proof (cases "ms = []")
    case True
    have "jp_value (Suc n') (''{}'' @ rest) = Inr (JObject [], rest)" by (simp add: is_json_ws_def)
    with JObject.prems(3) True show ?thesis by (simp add: n jp_value_ws_prefix del: jp_value.simps)
  next
    case False
    let ?f = "\<lambda>m. json_quote (fst m) @ '': '' @ json_str (Suc l) (snd m)"
    let ?r = "json_indent (Suc l) @ js_join (map ?f ms) (CHR '','' # json_indent (Suc l)) @
              json_indent l @ CHR ''}'' # rest"
    obtain t where t: "js_join (map ?f ms) (CHR '','' # json_indent (Suc l)) = ?f (hd ms) @ t"
      using js_join_map_start [OF False] by blast
    have sk: "skip_ws ?r = CHR 0x22 # tl (?f (hd ms)) @ t @ json_indent l @ CHR ''}'' # rest"
      using skip_ws_Cons_prefix [OF json_indent_ws [of "Suc l"], of "CHR 0x22"] t
      by (simp add: json_quote_def is_json_ws_def)
    have ih: "\<And>k v n w rest. (k, v) \<in> set ms \<Longrightarrow> size v < n \<Longrightarrow> json_follow rest \<Longrightarrow>
               list_all is_json_ws w \<Longrightarrow> jp_value n (w @ json_str (Suc l) v @ rest) = Inr (v, rest)"
      using JObject.IH by (metis snds.intros prod.sel(2))
    have el: "jp_members n' [] ?r = Inr (JObject ms, rest)"
      using jp_members_json_str [OF ih False sz json_indent_ws, where acc = "[]"] by simp
    have b: "skip_ws (CHR ''{'' # ?r) = CHR ''{'' # ?r" by (simp add: is_json_ws_def)
    have "jp_value (Suc n') (CHR ''{'' # ?r) = Inr (JObject ms, rest)"
      using sk el b by (simp del: dropWhile.simps)
    with JObject.prems(3) False show ?thesis by (simp add: n jp_value_ws_prefix del: jp_value.simps)
  qed
qed

lemma size_list_le_js_join:
  "(\<And>x. x \<in> set xs \<Longrightarrow> h x \<le> length (g x)) \<Longrightarrow>
   size_list h xs \<le> Suc (length (js_join (map g xs) (c # sep)))"
proof (induction xs)
  case Nil
  then show ?case by simp
next
  case (Cons x xs)
  then show ?case
    by (cases "xs = []") (fastforce simp: js_join_Cons)+
qed

lemma json_size_le_length: "size v \<le> length (json_str l v)"
proof (induction v arbitrary: l)
  case (JArray vs)
  have "size_list size vs \<le> Suc (length (js_join (map (json_str (Suc l)) vs) (CHR '','' # json_indent (Suc l))))"
    using JArray.IH by (intro size_list_le_js_join) blast
  then show ?case by (auto simp: json_indent_def)
next
  case (JObject ms)
  have "size_list (size_prod (\<lambda>x. 0) size) ms
          \<le> Suc (length (js_join (map (\<lambda>m. json_quote (fst m) @ '': '' @ json_str (Suc l) (snd m)) ms)
                                   (CHR '','' # json_indent (Suc l))))"
  proof (rule size_list_le_js_join)
    fix m assume "m \<in> set ms"
    then have "size (snd m) \<le> length (json_str (Suc l) (snd m))"
      using JObject.IH by (metis prod.collapse snds.intros)
    then show "size_prod (\<lambda>x. 0) size m \<le> length (json_quote (fst m) @ '': '' @ json_str (Suc l) (snd m))"
      by (cases m) (simp add: json_quote_def)
  qed
  then show ?case by (auto simp: json_indent_def)
qed simp_all

lemma json_parse_stringify: "json_parse (json_stringify v) = Inr v"
proof -
  have "size v < Suc (2 * length (json_str 0 v))"
    using json_size_le_length [of v 0] by simp
  then have "jp_value (Suc (2 * length (json_str 0 v))) ([] @ json_str 0 v @ []) = Inr (v, [])"
    by (intro jp_value_json_str) (simp_all add: json_follow_def)
  then show ?thesis by (simp add: json_parse_def json_stringify_def del: jp_value.simps)
qed

section \<open>Claims\<close>

text \<open>
  The bytes of an export: a store of one record downloads as the pretty-printed
  array the spec describes (section 6), two-space indented, with the fields in the
  order \<open>site\<close>, \<open>user\<close>, \<open>pass\<close> and the password in clear.
\<close>

theorem export_text_example:
  \<open>json_stringify (store_json [\<lparr>site = ''a.com'', user = ''ann'', pass = ''p"1''\<rparr>])
     = ''[\<newline>  {\<newline>    "site": "a.com",\<newline>    "user": "ann",\<newline>    "pass": "p'' @ [CHR 0x5C] @ ''"1"\<newline>  }\<newline>]''\<close>
  by (simp add: json_stringify_def store_json_def record_json_def json_quote_def json_quote_char_def
                json_indent_def eval_nat_numeral)

end
