(* ===== verification/OptionsTabs.thy ===== *)
theory OptionsTabs
  imports OptionsPage
begin

text \<open>
  Several open instances of the options page (browser tabs, or the page in another
  window) share one \<open>passwords\<close> array of \<open>chrome.storage.sync\<close>. Each instance
  has its own page state, in particular its own drawn list, and registers no
  \<open>chrome.storage.onChanged\<close> listener, so nothing redraws it when another instance
  writes. A handler run reads the shared array when it starts and writes it back when
  it ends (one handler at a time; overlapping chains are the subject of the theory
  Concurrency).
\<close>

record tabs_state =
  sync_store :: store
  tab_pages :: "options_page list"

definition tabs_initial :: tabs_state where
  "tabs_initial = \<lparr>sync_store = [], tab_pages = []\<rparr>"

text \<open>Opening an instance: \<open>DOMContentLoaded\<close> draws the list from the stored array.\<close>

definition tab_open :: "tabs_state \<Rightarrow> tabs_state" where
  "tab_open st = st\<lparr>tab_pages := tab_pages st @ [options_initial (sync_store st)]\<rparr>"

text \<open>A handler of instance \<open>t\<close> runs on that instance's state and the shared array.\<close>

definition tab_run :: "json_parser \<Rightarrow> url_hostname \<Rightarrow> nat \<Rightarrow> options_event \<Rightarrow> tabs_state \<Rightarrow> tabs_state" where
  "tab_run jp uh t e st =
     (if t < length (tab_pages st)
      then (let pg = options_handle jp uh e ((tab_pages st ! t)\<lparr>sync_passwords := sync_store st\<rparr>)
            in \<lparr>sync_store = sync_passwords pg, tab_pages = (tab_pages st)[t := pg]\<rparr>)
      else st)"

datatype tabs_event = TabOpen | TabEvent nat options_event

fun tabs_step :: "json_parser \<Rightarrow> url_hostname \<Rightarrow> tabs_state \<Rightarrow> tabs_event \<Rightarrow> tabs_state" where
  "tabs_step jp uh st TabOpen = tab_open st"
| "tabs_step jp uh st (TabEvent t e) = tab_run jp uh t e st"

inductive tabs_reachable :: "json_parser \<Rightarrow> url_hostname \<Rightarrow> tabs_state \<Rightarrow> bool"
  for jp :: json_parser and uh :: url_hostname where
  init: "tabs_reachable jp uh tabs_initial"
| step: "tabs_reachable jp uh st \<Longrightarrow> tabs_reachable jp uh (tabs_step jp uh st ev)"

section \<open>Lemmas\<close>

lemma tabs_store_ok_step:
  "url_host_trimmed uh \<Longrightarrow> options_store_ok (sync_store st) \<Longrightarrow>
     options_store_ok (sync_store (tabs_step jp uh st ev))"
  by (cases ev) (auto simp: tab_open_def tab_run_def Let_def options_handle_store_ok)

text \<open>The shared array keeps the invariant of the options store, however many instances write it.\<close>

lemma tabs_reachable_store_ok:
  "tabs_reachable jp uh st \<Longrightarrow> url_host_trimmed uh \<Longrightarrow> options_store_ok (sync_store st)"
proof (induction rule: tabs_reachable.induct)
  case init
  then show ?case by (simp add: tabs_initial_def options_store_ok_def)
next
  case (step st ev)
  then show ?case by (simp add: tabs_store_ok_step)
qed

lemma tabs_reachable_foldl:
  "tabs_reachable jp uh st \<Longrightarrow> tabs_reachable jp uh (foldl (tabs_step jp uh) st evs)"
  by (induction evs arbitrary: st) (simp_all add: tabs_reachable.step)

text \<open>
  An instance whose list shows the current array deletes the record it asks about:
  the freshness condition the single-page model always meets.
\<close>

lemma tab_delete_fresh:
  assumes t: "t < length (tab_pages st)"
    and fresh: "rendered_passwords (tab_pages st ! t) = sync_store st"
    and i: "i < length (sync_store st)"
  shows "delete_prompt (rendered_passwords (tab_pages st ! t)) (js_nat_toString i)
           = Some (''Tem certeza que deseja excluir a senha para '' @ site (sync_store st ! i) @ ''?'') \<and>
         sync_store (tab_run jp uh t (OptionsDelete (js_nat_toString i) True True) st)
           = take i (sync_store st) @ drop (Suc i) (sync_store st)"
proof -
  have idx: "row_index (rendered_passwords (tab_pages st ! t)) (js_nat_toString i) = Some i"
    using i fresh by (simp add: row_index_toString del: js_nat_toString.simps)
  then show ?thesis
    using t fresh
    by (simp add: tab_run_def delete_prompt_def delete_click_def deletePassword_def options_renderPasswords_def
                  showStatus_def js_splice1_def del: js_nat_toString.simps)
qed

section \<open>Claims\<close>

text \<open>
  C33. Stale delete index, reachable with two instances of the options page: instance 0
  imports \<open>a.com\<close> and \<open>b.com\<close>; instance 1 is opened and deletes \<open>a.com\<close>
  (row 0). Instance 0 still shows \<open>a.com\<close> in row 0; confirming its deletion there
  splices index 0 of the fresh array and deletes \<open>b.com\<close>, emptying the store.
\<close>

theorem stale_delete_reachable:
  "let st = foldl (tabs_step (\<lambda>_. Inl []) sample_url_hostname) tabs_initial
        [TabOpen, TabEvent 0 (OptionsFileChange (Some ''a.txt'')),
         TabEvent 0 (OptionsImport (ReadOk ''Website name: a.com\<newline>Login: ann\<newline>Password: 1---Website name: b.com\<newline>Login: bob\<newline>Password: 2'') True),
         TabOpen, TabEvent 1 (OptionsDelete ''0'' True True)]
   in tabs_reachable (\<lambda>_. Inl []) sample_url_hostname st \<and>
      sync_store st = [\<lparr>site = ''b.com'', user = ''bob'', pass = ''2''\<rparr>] \<and>
      delete_prompt (rendered_passwords (tab_pages st ! 0)) ''0''
        = Some ''Tem certeza que deseja excluir a senha para a.com?'' \<and>
      sync_store (tabs_step (\<lambda>_. Inl []) sample_url_hostname st (TabEvent 0 (OptionsDelete ''0'' True True))) = []"
proof -
  let ?st = "foldl (tabs_step (\<lambda>_. Inl []) sample_url_hostname) tabs_initial
        [TabOpen, TabEvent 0 (OptionsFileChange (Some ''a.txt'')),
         TabEvent 0 (OptionsImport (ReadOk ''Website name: a.com\<newline>Login: ann\<newline>Password: 1---Website name: b.com\<newline>Login: bob\<newline>Password: 2'') True),
         TabOpen, TabEvent 1 (OptionsDelete ''0'' True True)]"
  have r: "tabs_reachable (\<lambda>_. Inl []) sample_url_hostname ?st"
    by (rule tabs_reachable_foldl) (rule tabs_reachable.init)
  have c: "sync_store ?st = [\<lparr>site = ''b.com'', user = ''bob'', pass = ''2''\<rparr>] \<and>
      delete_prompt (rendered_passwords (tab_pages ?st ! 0)) ''0''
        = Some ''Tem certeza que deseja excluir a senha para a.com?'' \<and>
      sync_store (tabs_step (\<lambda>_. Inl []) sample_url_hostname ?st (TabEvent 0 (OptionsDelete ''0'' True True))) = []"
    by (simp add: tabs_initial_def tab_open_def tab_run_def options_initial_def file_change_def
                  importPasswords_def options_renderPasswords_def import_pipeline_def parse_import_def
                  select_format_def js_endsWith_def js_toLowerCase_def js_lower_char_def js_eval text_format_eval
                  showStatus_def import_merge_def merge_init_def merge_step_def isDuplicate_def same_identity_def
                  delete_prompt_def delete_click_def deletePassword_def js_splice1_def row_index_def
                  js_parseInt_def is_js_space_def is_digit_def digits_val_def)
  from r c show ?thesis unfolding Let_def by blast
qed
end
