(* ===== verification/Spec2Isabelle.thy ===== *)
theory Spec2Isabelle
  imports Popup Concurrency JsonFuel OptionsTabs
begin

text \<open>
  \<^bold>\<open>A verification development of the cross-platform password manager extension.\<close>

  \<^bold>\<open>The program.\<close> Two scripts under \<open>src/\<close> drive two surfaces of a browser
  extension. \<open>src/options.js\<close> (the options page) imports credentials from a file
  into the \<open>passwords\<close> array of \<open>chrome.storage.sync\<close>, exports that array as a
  JSON download, lists it with copy and delete buttons, and shows status messages.
  \<open>src/popup.js\<close> (the popup) adds a credential through three prompts, lists the
  \<open>passwords\<close> array of \<open>chrome.storage.local\<close> with a search box and copy buttons,
  and imports files into that array with a copy of the options page's import code.
  The two arrays are separate storage partitions: nothing copies one into the other.
  Every storage handler reads the whole array, computes, and writes the whole array
  back, through asynchronous callbacks.

  \<^bold>\<open>The theories.\<close>
  \<^item> \<open>Prelude\<close>: the type names (\<open>js_string\<close>), the collections \<open>js_eval\<close> and
    \<open>store_simps\<close>, and list lemmas shared by the components.
  \<^item> \<open>JsString\<close>: the ECMAScript string built-ins the code calls (\<open>trim\<close>,
    \<open>toLowerCase\<close>, \<open>startsWith\<close>, \<open>endsWith\<close>, \<open>indexOf\<close>, \<open>includes\<close>,
    \<open>replace\<close>, \<open>split\<close>, \<open>join\<close>) on Latin-1 code units, with idempotence of
    \<open>trim\<close> and \<open>toLowerCase\<close> and the \<open>split\<close>/\<open>join\<close> round trip.
  \<^item> \<open>PasswordRecord\<close>: the stored object \<open>{site, user, pass}\<close> as the record
    \<open>pw_record\<close>, the store as a list, the duplicate predicate of the import loop
    (\<open>same_identity\<close>, via the lower-cased pair \<open>identity\<close>), the error outcomes and
    the status texts of the handlers, and \<open>storage_set\<close>, a \<open>chrome.storage\<close>
    write whose acceptance is an input.
  \<^item> \<open>JsNumber\<close>: numbers as text: the digits of \<open>String(n)\<close> read back,
    \<open>parseInt\<close> (which the options page applies to a button's \<open>data-idx\<close>) and
    the array-key reading of a string (\<open>js_array_index\<close>, which the popup's
    \<open>filtered[idx]\<close> uses); the only key naming index \<open>n\<close> is the text of \<open>n\<close>.
  \<^item> \<open>JsonFormat\<close>: \<open>parseJsonFormat\<close> (\<open>options.js\<close> 101--121) over a \<open>json\<close>
    value tree; \<open>JSON.parse\<close> is the interface \<open>json_parser\<close>. Also the value the
    export passes to \<open>JSON.stringify\<close> (\<open>store_json\<close>).
  \<^item> \<open>TextFormat\<close>: \<open>parseTextFormat\<close> and \<open>isTextFormat\<close> (\<open>options.js\<close>
    123--179), the line loop as a fold over the record \<open>text_fields\<close>; \<open>new URL\<close> is
    the interface \<open>url_hostname\<close>, with the contract \<open>url_host_trimmed\<close> and a sample
    implementation for http(s) URLs used by the examples.
  \<^item> \<open>JsonText\<close>: the text layer of the JSON format, \<open>JSON.stringify(v, null, 2)\<close>
    (\<open>json_stringify\<close>, with ECMAScript's string escaping and two-space indentation)
    and \<open>JSON.parse\<close> (\<open>json_parse\<close>, recursive descent with fuel), with the text
    round trip (the fuel suffices for a stringified value because its \<open>size\<close> never
    exceeds the length of its text).
  \<^item> \<open>JsonFuel\<close>: the fuel of \<open>json_parse\<close>, one more than twice the length of the
    text (a nesting level costs two calls and at least one character). Every successful
    call consumes a character, so above that bound the answer does not depend on the
    fuel: \<open>json_parse\<close> is the unbounded recursive descent.
  \<^item> \<open>Merge\<close>: the duplicate-skipping loop of the import (\<open>options.js\<close> 55--72) as a
    fold of \<open>merge_step\<close> over the record \<open>merge_state\<close>.
  \<^item> \<open>OptionsPage\<close>: the page state \<open>options_page\<close> and its handlers
    (\<open>importPasswords\<close>, \<open>exportPasswords\<close>, \<open>deletePassword\<close>, \<open>showStatus\<close>,
    the file input, \<open>renderPasswords\<close> with \<open>escapeHtml\<close>, the copy and delete
    buttons). The page state holds the array the list was last drawn from
    (\<open>rendered_passwords\<close>): the buttons' closures index it, while
    \<open>deletePassword\<close> splices a fresh read of the store.
  \<^item> \<open>Popup\<close>: the popup state \<open>popup_page\<close> and its handlers (\<open>add_password\<close>,
    \<open>showPasswordsFiltered\<close> with the row HTML, \<open>popup_copy\<close>, the search box,
    \<open>popup_import\<close>).
  \<^item> \<open>Concurrency\<close>: the asynchronous \<open>get\<close>/\<open>set\<close> protocol of the storing
    handlers. A handler's \<open>get\<close> is queued (\<open>issue\<close>), the backend answers requests
    in order (\<open>serve\<close>) or refuses a \<open>set\<close> (\<open>refuse\<close>), a \<open>get\<close> callback
    queues the \<open>set\<close> of the array it computed (\<open>op_effect\<close>), and \<open>drain\<close> runs the backend until its queue is empty.
    That the backend answers a partition's requests in the order they were made is an
    assumption of the model, not a guarantee \<open>chrome.storage\<close> documents; other
    orders would add interleavings, not remove them. \<open>async_reach\<close> gives every interleaving of user
    actions and backend answers, for the operations the pages can start
    (\<open>popup_request\<close>, \<open>sync_request\<close>) or their contracts (\<open>popup_op\<close>,
    \<open>sync_op\<close>);
    \<open>async_trace\<close> also records the operations started, and \<open>serial_run\<close> runs
    operations one at a time.
  \<^item> \<open>OptionsTabs\<close>: several open instances of the options page on one
    \<open>chrome.storage.sync\<close> array, each with its own drawn list (\<open>tab_open\<close>,
    \<open>tab_run\<close>); the store invariant holds for any number of instances, and a
    stale list makes a confirmed delete remove another record.
  \<^item> This theory: the whole extension as a record of the two page states, one event
    type for every handler of both pages, the step function \<open>ext_step\<close> and the
    reachable states \<open>ext_reachable\<close>; and the properties that span components.

  \<^bold>\<open>Correspondence.\<close> A handler that reads and then writes storage is one step on
  the page state: the asynchronous \<open>get\<close>/\<open>set\<close> callbacks of a single handler run
  in that order, and within one page a handler's chain finishes before the next user
  action in the sequential model. This hides the interleavings of fast clicks within
  one page (a second delete clicked while the first one's chain is pending splices a
  stale index); those are the subject of Concurrency. Inputs the code gets from the platform are arguments:
  the chosen file's name, the \<open>FileReader\<close> outcome (\<open>read_result\<close>), the answers to
  \<open>prompt\<close> and \<open>confirm\<close>, the ISO date of \<open>new Date()\<close>, whether
  \<open>chrome.storage\<close> accepts a write (it refuses one over the item quota or the
  write-rate limits, and the callback runs either way), and the two platform parsers
  \<open>JSON.parse\<close> and \<open>new URL\<close>. A status message's five-second timer is a
  separate event that clears the line. Strings are Latin-1 code-unit lists; counts are
  \<open>nat\<close> (array lengths stay far below \<open>2^53\<close>, where JavaScript numbers lose
  precision). No loop needs fuel: every loop of the code is over a finite array or
  string and is a structural fold or a \<open>fun\<close> with a proved measure. Only the model
  of the platform's \<open>JSON.parse\<close> takes fuel (twice the length of the text, plus one),
  and JsonFuel proves that bound enough.

  \<^bold>\<open>What the lemmas show.\<close> The string built-ins behave as specified (idempotent
  \<open>trim\<close>, \<open>split\<close>/\<open>join\<close> round trip). \<open>JSON.parse\<close> inverts
  \<open>JSON.stringify(v, null, 2)\<close> on every value, and the export of a store is the
  indented array the spec describes; the parser's fuel is enough, so its answer never
  depends on it. The JSON parser keeps exactly the elements
  with three non-blank string fields, trimmed, in order, and fails with the two error
  values of the code. The text parser produces well-formed records, resolves the site
  as the spec describes, equals a declarative reference (each field is the value of
  the last line of its prefix, \<open>text_entry_reference\<close>); it also cuts a password
  that contains \<open>---\<close>.
  The merger equals a declarative reference (a candidate is added exactly when its
  lower-cased identity is neither stored nor earlier in the file); it appends a
  subsequence of the candidates, counts exactly, keeps the set of
  identities equal to the union of the old and the new, keeps identities distinct, and
  a second import of the same candidates adds nothing. On the options page, an empty
  parse result (of either format) is refused before storage is touched, export of an empty store fails,
  export then import of the downloaded text restores the store, the counts of a
  successful import are bounded by the entries of the file (at least one, at most one
  per entry), a file is refused as of unsupported format only when the text parser
  would find no record in it, deletion removes exactly the chosen row, each row's copy
  button reads its own row back through the \<open>data-idx\<close> text, and the rows are
  HTML-escaped (and display as the stored text) while the popup's are not. A refused
  write is reported as a success: the import's \<open>set\<close> callback never reads
  \<open>chrome.runtime.lastError\<close>, so the page shows "N senhas importadas com
  sucesso." over an unchanged store; every invariant of the store survives a refused
  write (\<open>storage_set_inv\<close>). In the popup, a row's copy button looks its
  record up with the \<open>data-idx\<close> string as an array key, and only the exact text
  of a row index selects a row. Across the
  extension, the options store stays well formed and free of duplicate identities in
  every reachable state, the popup always draws the stored local array whose records
  have non-empty fields (each page's events change only that page's state, by the
  construction of \<open>ext_step\<close>: the code never copies one array into the other). In
  the asynchronous model the options store keeps that invariant under every
  interleaving, and the popup's store keeps non-empty fields under every interleaving
  of the adds and imports its handlers can start (\<open>popup_request\<close>: the record
  \<open>add_input\<close> accepts, the records \<open>parse_import\<close> returns); both follow from one
  invariant-transfer lemma (\<open>async_reach_inv\<close>) and the operations' contracts
  (\<open>popup_request_op\<close>, \<open>sync_request_op\<close>). For any store, row and import, an
  import that overlaps a delete writes the deleted record back (the spec's "last write
  wins"), and the store after any interleaving is a serial run of a subsequence of the
  started operations (overlap loses whole operations, never parts of one). The
  backend's run to an empty queue, \<open>drain\<close>, terminates by the measure
  \<open>pending_work\<close> (a \<open>get\<close> weighs 2 and turns into a \<open>set\<close> of weight 1).
  Status messages: every \<open>showStatus\<close> starts a timer that blanks the line, so a
  message shown while an earlier timer is pending is blanked early; in every reachable
  state each page's line is blank once all its pending timers have fired (the
  invariants \<open>status_idle\<close> and \<open>popup_status_idle\<close>: no pending timer means a
  blank line). Every handler that writes the options store redraws the list, so in
  every reachable state the list shows the store (\<open>reachable_rendered_fresh\<close>) and
  a confirmed delete removes the record the user confirmed. A delete button carries
  the row index of the array the list was drawn from while \<open>deletePassword\<close> splices
  that index of a fresh read, so a store changed by another writer without a redraw (a
  sync from another device, a second options tab) loses a record other than the one
  confirmed.

  \<^bold>\<open>Not modelled.\<close> DOM construction and event wiring beyond what a handler
  changes, clipboard effects (the copied text is modelled, not the write), CSS of the
  status line, WHATWG URL parsing (an interface instead), how Chrome measures an item
  against its quota (the acceptance of a write is an input instead), and UTF-16 code
  units above U+00FF (strings are Latin-1 code units; \<open>json_parse\<close> refuses a
  \<open>\\u\<close> escape above U+00FF). JSON numbers with a fraction or an exponent are
  refused by \<open>json_parse\<close>, where the browser accepts them: the import never reads
  a number (a number element or field fails the \<open>typeof\<close> test), but a JSON file
  holding one is refused in the model and imported by the browser; decoding such
  numbers needs IEEE double rounding, which this development does not model. Cross-device
  sync of \<open>chrome.storage.sync\<close> is another writer the model has no event for;
  a second instance of the options page is one (OptionsTabs). The popup's
  \<open>parseJsonFormat\<close>, \<open>parseTextFormat\<close> and \<open>isTextFormat\<close>
  (\<open>popup.js\<close> 152--213) are line for line the options page's and are modelled by
  the same definitions.

  In the popup, the copy button reads its row with the \<open>data-idx\<close> string as an
  array key (\<open>js_array_index\<close>): only the text of an array index selects a row, and
  any other key gives no record, where the browser would read a property such as
  \<open>length\<close> or a method and copy its string form; such a key reaches the page only
  through markup injected by an unescaped site or user.

  \<^bold>\<open>Possible extensions.\<close> (1) JSON numbers with a fraction or an exponent in
  \<open>json_parse\<close>, with the value as the nearest double. (2) Instances of the popup
  writing \<open>chrome.storage.local\<close> next to each other, as OptionsTabs does for the
  options page.
\<close>

record extension =
  options :: options_page
  popup :: popup_page

datatype ui_event = OptionsEv options_event | PopupEv popup_event

definition ext_initial :: extension where
  "ext_initial = \<lparr>options = options_initial [], popup = popup_initial []\<rparr>"

text \<open>
  One handler run: an event of either page runs that page's handler
  (\<open>options_handle\<close>, \<open>popup_handle\<close>) on its state; the other page is untouched.
\<close>

fun ext_step :: "json_parser \<Rightarrow> url_hostname \<Rightarrow> extension \<Rightarrow> ui_event \<Rightarrow> extension" where
  "ext_step jp uh st (OptionsEv e) = st\<lparr>options := options_handle jp uh e (options st)\<rparr>"
| "ext_step jp uh st (PopupEv e) = st\<lparr>popup := popup_handle jp uh e (popup st)\<rparr>"

inductive ext_reachable :: "json_parser \<Rightarrow> url_hostname \<Rightarrow> extension \<Rightarrow> bool"
  for jp :: json_parser and uh :: url_hostname where
  init: "ext_reachable jp uh ext_initial"
| step: "ext_reachable jp uh st \<Longrightarrow> ext_reachable jp uh (ext_step jp uh st ev)"

section \<open>Lemmas\<close>

lemma options_store_ok_step:
  "url_host_trimmed uh \<Longrightarrow> options_store_ok (sync_passwords (options st)) \<Longrightarrow>
     options_store_ok (sync_passwords (options (ext_step jp uh st ev)))"
  by (cases ev) (simp_all add: options_handle_store_ok)

lemma reachable_options_store_ok:
  "ext_reachable jp uh st \<Longrightarrow> url_host_trimmed uh \<Longrightarrow> options_store_ok (sync_passwords (options st))"
proof (induction rule: ext_reachable.induct)
  case init
  show ?case by (simp add: ext_initial_def options_initial_def options_store_ok_def)
next
  case (step st ev)
  then show ?case by (simp add: options_store_ok_step)
qed

lemma js_endsWith_append: "js_endsWith (xs @ ys) ys"
  by (simp add: js_endsWith_def)

lemma select_format_export_filename:
  "select_format (export_filename d) content = Some FormatJson"
proof -
  have "js_toLowerCase (export_filename d)
          = js_toLowerCase (''senhas_backup_'' @ hd (js_split d ''T'')) @ ''.json''"
    by (simp add: export_filename_def js_toLowerCase_def js_lower_char_def js_eval)
  then show ?thesis
    by (simp add: select_format_def js_endsWith_append)
qed

lemma import_again_all_duplicates:
  "import_merge (existingPasswords (import_merge s cs)) cs
     = merge_init (existingPasswords (import_merge s cs))\<lparr>duplicateCount := length cs\<rparr>"
proof -
  have "\<forall>c \<in> set cs. identity c \<in> set (map identity (existingPasswords (import_merge s cs)))"
    using merge_fold_identities [of "merge_init s" cs] by (simp add: import_merge_def merge_init_def)
  then show ?thesis
    using merge_fold_all_duplicates by (simp add: import_merge_def merge_init_def)
qed

lemma status_idle_step:
  "status_idle (options st) \<Longrightarrow> status_idle (options (ext_step jp uh st ev))"
  by (cases ev) (simp_all add: options_handle_status_idle)

lemma popup_status_idle_step:
  "popup_status_idle (popup st) \<Longrightarrow> popup_status_idle (popup (ext_step jp uh st ev))"
  by (cases ev) (simp_all add: popup_handle_status_idle)

lemma reachable_popup_status_idle:
  "ext_reachable jp uh st \<Longrightarrow> popup_status_idle (popup st)"
proof (induction rule: ext_reachable.induct)
  case init
  then show ?case by (simp add: ext_initial_def popup_initial_def popup_status_idle_def)
next
  case (step st ev)
  then show ?case by (simp add: popup_status_idle_step)
qed

lemma rendered_fresh_step:
  "rendered_passwords (options st) = sync_passwords (options st) \<Longrightarrow>
     rendered_passwords (options (ext_step jp uh st ev)) = sync_passwords (options (ext_step jp uh st ev))"
  by (cases ev) (simp_all add: options_handle_fresh)

lemma reachable_rendered_fresh:
  "ext_reachable jp uh st \<Longrightarrow> rendered_passwords (options st) = sync_passwords (options st)"
proof (induction rule: ext_reachable.induct)
  case init
  then show ?case by (simp add: ext_initial_def options_initial_def)
next
  case (step st ev)
  then show ?case by (simp add: rendered_fresh_step)
qed

lemma reachable_status_idle:
  "ext_reachable jp uh st \<Longrightarrow> status_idle (options st)"
proof (induction rule: ext_reachable.induct)
  case init
  then show ?case by (simp add: ext_initial_def options_initial_def status_idle_def)
next
  case (step st ev)
  then show ?case by (simp add: status_idle_step)
qed

lemma export_import_value:
  "url_host_trimmed uh \<Longrightarrow> ext_reachable jp uh st \<Longrightarrow>
   snd (exportPasswords isoDate (options st)) = Some (fileName, v) \<Longrightarrow> jp text = Inr v \<Longrightarrow>
   sync_passwords (importPasswords jp uh (ReadOk text) True (file_change (Some fileName) (options_initial [])))
     = sync_passwords (options st)"
proof -
  assume uh: "url_host_trimmed uh" and r: "ext_reachable jp uh st"
    and ex: "snd (exportPasswords isoDate (options st)) = Some (fileName, v)"
    and jp: "jp text = Inr v"
  let ?s = "sync_passwords (options st)"
  have ok: "options_store_ok ?s"
    using reachable_options_store_ok [OF r uh] .
  from ex have ne: "?s \<noteq> []" and fn: "fileName = export_filename isoDate" and v: "v = store_json ?s"
    by (auto simp: exportPasswords_def split: if_splits)
  have parsed: "parse_import jp uh fileName text = Inr ?s"
    using ok ne jp
    by (simp add: parse_import_def fn select_format_export_filename parseJsonFormat_def v
                  json_array_records_store_json options_store_ok_def)
  have merged: "import_merge [] ?s = \<lparr>existingPasswords = ?s, addedCount = length ?s, duplicateCount = 0\<rparr>"
    using ok merge_fold_all_new [of "merge_init []" ?s]
    by (simp add: options_store_ok_def import_merge_def merge_init_def)
  show ?thesis
    using parsed merged
    by (simp add: importPasswords_def options_renderPasswords_def import_pipeline_def file_change_def options_initial_def showStatus_def)
qed

lemma popup_ok_step:
  "url_host_trimmed uh \<Longrightarrow> popup_ok (popup st) \<Longrightarrow> popup_ok (popup (ext_step jp uh st ev))"
  by (cases ev) (simp_all add: popup_handle_ok)

lemma reachable_popup_ok:
  "ext_reachable jp uh st \<Longrightarrow> url_host_trimmed uh \<Longrightarrow> popup_ok (popup st)"
proof (induction rule: ext_reachable.induct)
  case init
  then show ?case by (simp add: ext_initial_def popup_initial_def popup_ok_def)
next
  case (step st ev)
  then show ?case by (simp add: popup_ok_step)
qed

section \<open>Claims\<close>

text \<open>
  C5. In every reachable state of the extension, the options page's store holds only
  well-formed records (non-empty, trimmed fields) with pairwise distinct
  case-insensitive (site, user) identities, given a URL API whose host names have no
  surrounding white space.
\<close>

theorem options_store_invariant:
  "url_host_trimmed uh \<Longrightarrow> ext_reachable jp uh st \<Longrightarrow>
     options_store_ok (sync_passwords (options st))"
  using reachable_options_store_ok by blast

theorem options_store_invariant_witness:
  "url_host_trimmed sample_url_hostname \<and>
   ext_reachable (\<lambda>_. Inl []) sample_url_hostname
     (ext_step (\<lambda>_. Inl []) sample_url_hostname
        (ext_step (\<lambda>_. Inl []) sample_url_hostname ext_initial (OptionsEv (OptionsFileChange (Some ''a.txt''))))
        (OptionsEv (OptionsImport (ReadOk ''Website name: A\<newline>Login: b\<newline>Password: c'') True))) \<and>
   options_store_ok (sync_passwords (options
     (ext_step (\<lambda>_. Inl []) sample_url_hostname
        (ext_step (\<lambda>_. Inl []) sample_url_hostname ext_initial (OptionsEv (OptionsFileChange (Some ''a.txt''))))
        (OptionsEv (OptionsImport (ReadOk ''Website name: A\<newline>Login: b\<newline>Password: c'') True)))))"
proof -
  have r: "ext_reachable (\<lambda>_. Inl []) sample_url_hostname
     (ext_step (\<lambda>_. Inl []) sample_url_hostname
        (ext_step (\<lambda>_. Inl []) sample_url_hostname ext_initial (OptionsEv (OptionsFileChange (Some ''a.txt''))))
        (OptionsEv (OptionsImport (ReadOk ''Website name: A\<newline>Login: b\<newline>Password: c'') True)))"
    by (intro ext_reachable.step ext_reachable.init)
  show ?thesis
    using options_store_invariant [OF sample_url_hostname_trimmed r] sample_url_hostname_trimmed r
    by simp
qed

text \<open>
  C10. Export followed by import restores the store: in any reachable state, importing
  the text the export downloads (\<open>JSON.stringify(data.passwords, null, 2)\<close>), under
  its download name, into an empty options store with \<open>JSON.parse\<close> yields exactly
  the exported store, in order.
\<close>

theorem export_import_roundtrip:
  "url_host_trimmed uh \<Longrightarrow> ext_reachable json_parse uh st \<Longrightarrow>
   snd (exportPasswords isoDate (options st)) = Some (fileName, v) \<Longrightarrow>
   sync_passwords (importPasswords json_parse uh (ReadOk (json_stringify v)) True
                     (file_change (Some fileName) (options_initial [])))
     = sync_passwords (options st)"
  by (rule export_import_value) (simp_all add: json_parse_stringify)

theorem export_import_roundtrip_witness:
  "url_host_trimmed sample_url_hostname \<and>
   ext_reachable json_parse sample_url_hostname
     (ext_step json_parse sample_url_hostname
        (ext_step json_parse sample_url_hostname ext_initial (OptionsEv (OptionsFileChange (Some ''a.txt''))))
        (OptionsEv (OptionsImport (ReadOk ''Website name: A\<newline>Login: b\<newline>Password: c'') True))) \<and>
   sync_passwords (importPasswords json_parse sample_url_hostname
       (ReadOk (json_stringify (store_json [\<lparr>site = ''A'', user = ''b'', pass = ''c''\<rparr>]))) True
       (file_change (Some ''senhas_backup_2024-05-01.json'') (options_initial [])))
     = [\<lparr>site = ''A'', user = ''b'', pass = ''c''\<rparr>]"
proof -
  let ?st = "ext_step json_parse sample_url_hostname
        (ext_step json_parse sample_url_hostname ext_initial (OptionsEv (OptionsFileChange (Some ''a.txt''))))
        (OptionsEv (OptionsImport (ReadOk ''Website name: A\<newline>Login: b\<newline>Password: c'') True))"
  have r: "ext_reachable json_parse sample_url_hostname ?st"
    by (intro ext_reachable.step ext_reachable.init)
  have s: "sync_passwords (options ?st) = [\<lparr>site = ''A'', user = ''b'', pass = ''c''\<rparr>]"
    by (simp add: ext_initial_def options_initial_def file_change_def importPasswords_def options_renderPasswords_def
                  import_pipeline_def parse_import_def select_format_def js_endsWith_def
                  js_toLowerCase_def js_lower_char_def js_eval text_format_eval showStatus_def
                  import_merge_def merge_init_def merge_step_def isDuplicate_def)
  have ex: "snd (exportPasswords ''2024-05-01T00:00:00.000Z'' (options ?st))
              = Some (''senhas_backup_2024-05-01.json'', store_json [\<lparr>site = ''A'', user = ''b'', pass = ''c''\<rparr>])"
    by (simp add: s exportPasswords_def export_filename_def js_split_def js_startsWith_def
             del: ext_step.simps)
  have "sync_passwords (importPasswords json_parse sample_url_hostname
       (ReadOk (json_stringify (store_json [\<lparr>site = ''A'', user = ''b'', pass = ''c''\<rparr>]))) True
       (file_change (Some ''senhas_backup_2024-05-01.json'') (options_initial [])))
     = [\<lparr>site = ''A'', user = ''b'', pass = ''c''\<rparr>]"
    using export_import_roundtrip [OF sample_url_hostname_trimmed r ex] s by (simp only:)
  with r sample_url_hostname_trimmed show ?thesis by blast
qed

text \<open>
  C26. Importing the same file twice (spec section 8, merge idempotence): the second
  import leaves the store as the first left it and reports \<open>0 senhas importadas com
  sucesso.\<close> followed by the number of parsed records as ignored duplicates.
\<close>

theorem reimport_reports_duplicates:
  "parse_import jp uh fileName content = Inr rs \<Longrightarrow>
   sync_passwords (importPasswords jp uh (ReadOk content) True (file_change (Some fileName)
       (importPasswords jp uh (ReadOk content) True (file_change (Some fileName) pg))))
     = sync_passwords (importPasswords jp uh (ReadOk content) True (file_change (Some fileName) pg)) \<and>
   import_status (importPasswords jp uh (ReadOk content) True (file_change (Some fileName)
       (importPasswords jp uh (ReadOk content) True (file_change (Some fileName) pg))))
     = import_message 0 (length rs)"
  by (simp add: importPasswords_def options_renderPasswords_def import_pipeline_def file_change_def showStatus_def
                import_again_all_duplicates merge_init_def)

theorem reimport_reports_duplicates_witness:
  "parse_import (\<lambda>_. Inl []) sample_url_hostname ''a.txt'' ''Website name: A\<newline>Login: b\<newline>Password: c''
     = Inr [\<lparr>site = ''A'', user = ''b'', pass = ''c''\<rparr>] \<and>
   import_status (importPasswords (\<lambda>_. Inl []) sample_url_hostname (ReadOk ''Website name: A\<newline>Login: b\<newline>Password: c'') True
       (file_change (Some ''a.txt'') (importPasswords (\<lambda>_. Inl []) sample_url_hostname
          (ReadOk ''Website name: A\<newline>Login: b\<newline>Password: c'') True (file_change (Some ''a.txt'') (options_initial [])))))
     = ''0 senhas importadas com sucesso. 1 duplicatas ignoradas.''"
proof -
  have p: "parse_import (\<lambda>_. Inl []) sample_url_hostname ''a.txt'' ''Website name: A\<newline>Login: b\<newline>Password: c''
     = Inr [\<lparr>site = ''A'', user = ''b'', pass = ''c''\<rparr>]"
    by (simp add: parse_import_def select_format_def js_endsWith_def js_toLowerCase_def js_lower_char_def
                  js_eval text_format_eval)
  show ?thesis
    using reimport_reports_duplicates [OF p, of "options_initial []"] p
    by (simp add: import_message_def js_eval)
qed
text \<open>
  C17. A confirmed delete removes the record the user confirmed: in every reachable
  state, the delete button of row \<open>i\<close> (its \<open>data-idx\<close> is the text of \<open>i\<close>) asks
  about the site of record \<open>i\<close> of the store, and confirming removes exactly record
  \<open>i\<close>: the records before it keep their positions and the ones after it move up.
\<close>

theorem delete_removes_confirmed_row:
  "ext_reachable jp uh st \<Longrightarrow> i < length (sync_passwords (options st)) \<Longrightarrow>
   delete_prompt (rendered_passwords (options st)) (js_nat_toString i)
     = Some (''Tem certeza que deseja excluir a senha para '' @ site (sync_passwords (options st) ! i) @ ''?'') \<and>
   sync_passwords (options (ext_step jp uh st (OptionsEv (OptionsDelete (js_nat_toString i) True True))))
     = take i (sync_passwords (options st)) @ drop (Suc i) (sync_passwords (options st))"
proof -
  assume r: "ext_reachable jp uh st" and i: "i < length (sync_passwords (options st))"
  have fresh: "rendered_passwords (options st) = sync_passwords (options st)"
    using r by (rule reachable_rendered_fresh)
  have idx: "row_index (rendered_passwords (options st)) (js_nat_toString i) = Some i"
    using i fresh by (simp add: row_index_toString del: js_nat_toString.simps)
  then show ?thesis
    using fresh
    by (simp add: delete_prompt_def delete_click_def deletePassword_def options_renderPasswords_def
                  showStatus_def js_splice1_def del: js_nat_toString.simps)
qed

theorem delete_removes_confirmed_row_witness:
  "ext_reachable json_parse sample_url_hostname
     (ext_step json_parse sample_url_hostname
        (ext_step json_parse sample_url_hostname ext_initial (OptionsEv (OptionsFileChange (Some ''a.txt''))))
        (OptionsEv (OptionsImport (ReadOk ''Website name: A\<newline>Login: b\<newline>Password: c'') True))) \<and>
   sync_passwords (options (ext_step json_parse sample_url_hostname
     (ext_step json_parse sample_url_hostname
        (ext_step json_parse sample_url_hostname ext_initial (OptionsEv (OptionsFileChange (Some ''a.txt''))))
        (OptionsEv (OptionsImport (ReadOk ''Website name: A\<newline>Login: b\<newline>Password: c'') True)))
     (OptionsEv (OptionsDelete ''0'' True True)))) = []"
proof -
  let ?st = "ext_step json_parse sample_url_hostname
        (ext_step json_parse sample_url_hostname ext_initial (OptionsEv (OptionsFileChange (Some ''a.txt''))))
        (OptionsEv (OptionsImport (ReadOk ''Website name: A\<newline>Login: b\<newline>Password: c'') True))"
  have r: "ext_reachable json_parse sample_url_hostname ?st"
    by (intro ext_reachable.step ext_reachable.init)
  have s: "sync_passwords (options ?st) = [\<lparr>site = ''A'', user = ''b'', pass = ''c''\<rparr>]"
    by (simp add: ext_initial_def options_initial_def file_change_def importPasswords_def
                  options_renderPasswords_def import_pipeline_def parse_import_def select_format_def
                  js_endsWith_def js_toLowerCase_def js_lower_char_def js_eval text_format_eval
                  showStatus_def import_merge_def merge_init_def merge_step_def isDuplicate_def)
  have "sync_passwords (options (ext_step json_parse sample_url_hostname ?st (OptionsEv (OptionsDelete (js_nat_toString 0) True True))))
          = take 0 (sync_passwords (options ?st)) @ drop (Suc 0) (sync_passwords (options ?st))"
    using delete_removes_confirmed_row [OF r, of 0] s by simp
  then have "sync_passwords (options (ext_step json_parse sample_url_hostname ?st (OptionsEv (OptionsDelete ''0'' True True)))) = []"
    using s by (simp add: js_eval)
  with r show ?thesis by blast
qed

text \<open>
  C32. The status lines always clear: in every reachable state, once every pending
  \<open>showStatus\<close> timer has fired, the options page's status text and class are blank,
  and once every pending \<open>showPopupStatus\<close> timer has fired, so are the popup's
  status text and style.
  (Together with \<open>status_cleared_early\<close>: a message can be cleared too early, but never stays forever.)
\<close>

theorem status_line_clears:
  "ext_reachable jp uh st \<Longrightarrow>
   import_status ((status_timeout ^^ status_timers (options st)) (options st)) = [] \<and>
   status_class ((status_timeout ^^ status_timers (options st)) (options st)) = [] \<and>
   popup_status ((popup_status_timeout ^^ popup_timers (popup st)) (popup st)) = [] \<and>
   popup_status_type ((popup_status_timeout ^^ popup_timers (popup st)) (popup st)) = []"
proof -
  assume r: "ext_reachable jp uh st"
  have o: "import_status ((status_timeout ^^ status_timers (options st)) (options st)) = [] \<and>
           status_class ((status_timeout ^^ status_timers (options st)) (options st)) = []"
  proof (cases "status_timers (options st) = 0")
    case True
    with reachable_status_idle [OF r] show ?thesis by (simp add: status_idle_def)
  next
    case False
    then show ?thesis
      using status_timeout_funpow [of "status_timers (options st)" "options st"] by simp
  qed
  have p: "popup_status ((popup_status_timeout ^^ popup_timers (popup st)) (popup st)) = [] \<and>
           popup_status_type ((popup_status_timeout ^^ popup_timers (popup st)) (popup st)) = []"
  proof (cases "popup_timers (popup st) = 0")
    case True
    with reachable_popup_status_idle [OF r] show ?thesis by (simp add: popup_status_idle_def)
  next
    case False
    then show ?thesis
      using popup_status_timeout_funpow [of "popup_timers (popup st)" "popup st"] by simp
  qed
  from o p show ?thesis by blast
qed

theorem status_line_clears_witness:
  "ext_reachable (\<lambda>_. Inl []) sample_url_hostname
     (ext_step (\<lambda>_. Inl []) sample_url_hostname ext_initial (OptionsEv (OptionsExport ''2025-01-01T00:00:00.000Z''))) \<and>
   import_status ((status_timeout ^^ 1)
     (options (ext_step (\<lambda>_. Inl []) sample_url_hostname ext_initial (OptionsEv (OptionsExport ''2025-01-01T00:00:00.000Z''))))) = []"
proof -
  let ?st = "ext_step (\<lambda>_. Inl []) sample_url_hostname ext_initial (OptionsEv (OptionsExport ''2025-01-01T00:00:00.000Z''))"
  have r: "ext_reachable (\<lambda>_. Inl []) sample_url_hostname ?st"
    by (intro ext_reachable.step ext_reachable.init)
  have t: "status_timers (options ?st) = 1"
    by (simp add: ext_initial_def options_initial_def exportPasswords_def showStatus_def)
  show ?thesis using status_line_clears [OF r] r t by simp
qed

text \<open>
  C34. The popup's state invariant: in every reachable state the popup's list is drawn
  from the stored array of \<open>chrome.storage.local\<close> (every handler that writes it
  calls \<open>renderPasswords\<close>), and every stored record has a non-empty site, user and
  password, whether it was typed into the prompts or imported from a file.
\<close>

theorem popup_invariant:
  "url_host_trimmed uh \<Longrightarrow> ext_reachable jp uh st \<Longrightarrow>
   allPasswords (popup st) = local_passwords (popup st) \<and>
   list_all (\<lambda>r. site r \<noteq> [] \<and> user r \<noteq> [] \<and> pass r \<noteq> []) (local_passwords (popup st))"
  using reachable_popup_ok by (simp add: popup_ok_def)

theorem popup_invariant_witness:
  "url_host_trimmed sample_url_hostname \<and>
   ext_reachable (\<lambda>_. Inl []) sample_url_hostname
     (ext_step (\<lambda>_. Inl []) sample_url_hostname ext_initial (PopupEv (PopupAdd (Some '' a'') (Some ''b'') (Some ''c'') True))) \<and>
   local_passwords (popup (ext_step (\<lambda>_. Inl []) sample_url_hostname ext_initial
                                    (PopupEv (PopupAdd (Some '' a'') (Some ''b'') (Some ''c'') True))))
     = [\<lparr>site = '' a'', user = ''b'', pass = ''c''\<rparr>]"
proof -
  let ?st = "ext_step (\<lambda>_. Inl []) sample_url_hostname ext_initial (PopupEv (PopupAdd (Some '' a'') (Some ''b'') (Some ''c'') True))"
  have r: "ext_reachable (\<lambda>_. Inl []) sample_url_hostname ?st"
    by (intro ext_reachable.step ext_reachable.init)
  have "local_passwords (popup ?st) = [\<lparr>site = '' a'', user = ''b'', pass = ''c''\<rparr>]"
    by (simp add: ext_initial_def popup_initial_def add_password_def add_input_def popup_renderPasswords_def)
  then show ?thesis using popup_invariant [OF sample_url_hostname_trimmed r] r sample_url_hostname_trimmed
    by simp
qed

end
